(* ===== verification/Prelude.thy ===== *)
theory Prelude
  imports Main "HOL-Library.Word"
begin

text \<open>
  What the component theories share: the outcome of running a piece of C++ code (a value, an
  exception in flight, or an abnormal end of the process), programs as state transformers with
  that outcome, the rules that push an invariant through a program, and the parts of the C++
  standard library on strings that the server uses (search, lower-casing, decimal printing).

  A \<open>std::string\<close> is a \<^typ>\<open>string\<close>: HOL characters are bytes, as C++ \<open>char\<close>s are.
\<close>

section \<open>Collections of facts\<close>

named_theorems prog_simps \<open>equations that run the program combinators\<close>
named_theorems keeps_intros \<open>rules that push an invariant through a program\<close>

section \<open>Outcomes and programs\<close>

text \<open>
  \<open>Throw\<close> is a C++ exception travelling up the stack; a \<open>catch\<close> stops it. \<open>Crash\<close> is the end of
  the process: a null dereference, a use after free, a division by zero, or an exception that
  leaves a thread. The state at that moment is kept beside the outcome.
\<close>

datatype exn = JsonTypeError | RuntimeError string

datatype crash = NullDeref | UseAfterFree | DivideByZero | Terminate

datatype 'a outcome = Val 'a | Throw exn | Crash crash

primrec is_val :: "'a outcome \<Rightarrow> bool" where
  "is_val (Val x) = True"
| "is_val (Throw e) = False"
| "is_val (Crash c) = False"

type_synonym ('s, 'a) prog = "'s \<Rightarrow> 'a outcome \<times> 's"

definition ret :: "'a \<Rightarrow> ('s, 'a) prog" where
  "ret x = (\<lambda>s. (Val x, s))"

definition bindP :: "('s, 'a) prog \<Rightarrow> ('a \<Rightarrow> ('s, 'b) prog) \<Rightarrow> ('s, 'b) prog" where
  "bindP m f = (\<lambda>s. case m s of
     (Val x, s') \<Rightarrow> f x s'
   | (Throw e, s') \<Rightarrow> (Throw e, s')
   | (Crash c, s') \<Rightarrow> (Crash c, s'))"

definition seqP :: "('s, unit) prog \<Rightarrow> ('s, 'b) prog \<Rightarrow> ('s, 'b) prog" where
  "seqP m n = bindP m (\<lambda>_. n)"

definition getsP :: "('s \<Rightarrow> 'a) \<Rightarrow> ('s, 'a) prog" where
  "getsP f = (\<lambda>s. (Val (f s), s))"

definition modifyP :: "('s \<Rightarrow> 's) \<Rightarrow> ('s, unit) prog" where
  "modifyP f = (\<lambda>s. (Val (), f s))"

definition crashP :: "crash \<Rightarrow> ('s, 'a) prog" where
  "crashP c = (\<lambda>s. (Crash c, s))"

definition throwP :: "exn \<Rightarrow> ('s, 'a) prog" where
  "throwP e = (\<lambda>s. (Throw e, s))"

text \<open>\<open>try { m } catch (const std::exception& e) { h e }\<close>: a crash is not an exception.\<close>

definition catchP :: "('s, 'a) prog \<Rightarrow> (exn \<Rightarrow> ('s, 'a) prog) \<Rightarrow> ('s, 'a) prog" where
  "catchP m h = (\<lambda>s. case m s of
     (Val x, s') \<Rightarrow> (Val x, s')
   | (Throw e, s') \<Rightarrow> h e s'
   | (Crash c, s') \<Rightarrow> (Crash c, s'))"

text \<open>The range-based \<open>for\<close> loop.\<close>

fun forP :: "'a list \<Rightarrow> ('a \<Rightarrow> ('s, unit) prog) \<Rightarrow> ('s, unit) prog" where
  "forP [] f = ret ()"
| "forP (x # xs) f = seqP (f x) (forP xs f)"

text \<open>The entry point of a thread: an exception that leaves it ends the process.\<close>

definition threadP :: "('s, 'a) prog \<Rightarrow> ('s, 'a) prog" where
  "threadP m = catchP m (\<lambda>_. crashP Terminate)"

lemma run_ret [simp, prog_simps]: "ret x s = (Val x, s)"
  by (simp add: ret_def)

lemma run_getsP [simp, prog_simps]: "getsP f s = (Val (f s), s)"
  by (simp add: getsP_def)

lemma run_modifyP [simp, prog_simps]: "modifyP f s = (Val (), f s)"
  by (simp add: modifyP_def)

lemma run_crashP [simp, prog_simps]: "crashP c s = (Crash c, s)"
  by (simp add: crashP_def)

lemma run_throwP [simp, prog_simps]: "throwP e s = (Throw e, s)"
  by (simp add: throwP_def)

lemma run_bindP [prog_simps]:
  "bindP m f s = (case m s of
     (Val x, s') \<Rightarrow> f x s'
   | (Throw e, s') \<Rightarrow> (Throw e, s')
   | (Crash c, s') \<Rightarrow> (Crash c, s'))"
  by (simp add: bindP_def)

lemma run_seqP [prog_simps]:
  "seqP m n s = (case m s of
     (Val _, s') \<Rightarrow> n s'
   | (Throw e, s') \<Rightarrow> (Throw e, s')
   | (Crash c, s') \<Rightarrow> (Crash c, s'))"
  by (simp add: seqP_def bindP_def)

lemma run_catchP [prog_simps]:
  "catchP m h s = (case m s of
     (Val x, s') \<Rightarrow> (Val x, s')
   | (Throw e, s') \<Rightarrow> h e s'
   | (Crash c, s') \<Rightarrow> (Crash c, s'))"
  by (simp add: catchP_def)

lemma run_seqP_modify [simp]: "seqP (modifyP f) n s = n (f s)"
  by (simp add: run_seqP)

lemma run_bindP_gets [simp]: "bindP (getsP g) f s = f (g s) s"
  by (simp add: run_bindP)

text \<open>The monad laws: a program can be regrouped without changing what it does.\<close>

lemma bindP_ret [simp]: "bindP (ret x) f = f x"
  by (simp add: bindP_def ret_def)

lemma bindP_Pair [simp]: "bindP (Pair (Val x)) f = f x"
  by (simp add: bindP_def)

lemma bindP_ret_right [simp]: "bindP m ret = m"
  by (rule ext) (simp add: bindP_def ret_def split: prod.split outcome.split)

lemma bindP_assoc: "bindP (bindP m f) g = bindP m (\<lambda>x. bindP (f x) g)"
  by (rule ext) (simp add: bindP_def split: prod.split outcome.split)

lemma forP_append: "forP (xs @ ys) f = seqP (forP xs f) (forP ys f)"
  by (induction xs) (simp_all add: seqP_def bindP_assoc)

text \<open>A loop whose body only updates the state is a fold.\<close>

lemma run_forP_modify: "forP xs (\<lambda>x. modifyP (f x)) s = (Val (), fold f xs s)"
  by (induction xs arbitrary: s) (simp_all add: prog_simps)

section \<open>Invariants of programs\<close>

text \<open>\<open>keeps I m\<close>: whatever the outcome, running \<open>m\<close> where \<open>I\<close> holds ends where \<open>I\<close> holds.\<close>

definition keeps :: "('s \<Rightarrow> bool) \<Rightarrow> ('s, 'a) prog \<Rightarrow> bool" where
  "keeps I m \<longleftrightarrow> (\<forall>s. I s \<longrightarrow> I (snd (m s)))"

lemma keepsI: "(\<And>s. I s \<Longrightarrow> I (snd (m s))) \<Longrightarrow> keeps I m"
  by (simp add: keeps_def)

lemma keepsD: "keeps I m \<Longrightarrow> I s \<Longrightarrow> I (snd (m s))"
  by (simp add: keeps_def)

lemma keeps_ret [keeps_intros]: "keeps I (ret x)"
  by (simp add: keeps_def)

lemma keeps_gets [keeps_intros]: "keeps I (getsP f)"
  by (simp add: keeps_def)

lemma keeps_crash [keeps_intros]: "keeps I (crashP c)"
  by (simp add: keeps_def)

lemma keeps_throw [keeps_intros]: "keeps I (throwP e)"
  by (simp add: keeps_def)

lemma keeps_modify: "(\<And>s. I s \<Longrightarrow> I (f s)) \<Longrightarrow> keeps I (modifyP f)"
  by (simp add: keeps_def)

lemma keeps_bind [keeps_intros]:
  "keeps I m \<Longrightarrow> (\<And>x. keeps I (f x)) \<Longrightarrow> keeps I (bindP m f)"
  by (fastforce simp: keeps_def bindP_def split: prod.splits outcome.splits)

lemma keeps_seq [keeps_intros]: "keeps I m \<Longrightarrow> keeps I n \<Longrightarrow> keeps I (seqP m n)"
  unfolding seqP_def by (intro keeps_bind)

lemma keeps_catch [keeps_intros]:
  "keeps I m \<Longrightarrow> (\<And>e. keeps I (h e)) \<Longrightarrow> keeps I (catchP m h)"
  by (fastforce simp: keeps_def catchP_def split: prod.splits outcome.splits)

lemma keeps_thread [keeps_intros]: "keeps I m \<Longrightarrow> keeps I (threadP m)"
  unfolding threadP_def by (intro keeps_intros)

lemma keeps_for [keeps_intros]: "(\<And>x. keeps I (f x)) \<Longrightarrow> keeps I (forP xs f)"
  by (induction xs) (auto intro: keeps_intros)

lemma keeps_if [keeps_intros]:
  "(b \<Longrightarrow> keeps I m) \<Longrightarrow> (\<not> b \<Longrightarrow> keeps I n) \<Longrightarrow> keeps I (if b then m else n)"
  by simp

lemma keeps_case_option [keeps_intros]:
  "(x = None \<Longrightarrow> keeps I m) \<Longrightarrow> (\<And>y. x = Some y \<Longrightarrow> keeps I (f y)) \<Longrightarrow>
   keeps I (case x of None \<Rightarrow> m | Some y \<Rightarrow> f y)"
  by (cases x) simp_all

lemma keeps_case_prod [keeps_intros]:
  "(\<And>a b. x = (a, b) \<Longrightarrow> keeps I (f a b)) \<Longrightarrow> keeps I (case x of (a, b) \<Rightarrow> f a b)"
  by (cases x) simp

section \<open>Association lists\<close>

lemma map_of_snoc: "k \<notin> fst ` set xs \<Longrightarrow> map_of (xs @ [(k, v)]) = (map_of xs)(k \<mapsto> v)"
  by (induction xs) (auto simp: fun_eq_iff)

section \<open>Strings of the C++ standard library\<close>

text \<open>\<open>s.find(pat) != npos\<close>.\<close>

fun str_prefix :: "string \<Rightarrow> string \<Rightarrow> bool" where
  "str_prefix [] s = True"
| "str_prefix (p # ps) [] = False"
| "str_prefix (p # ps) (c # cs) = (p = c \<and> str_prefix ps cs)"

fun str_contains :: "string \<Rightarrow> string \<Rightarrow> bool" where
  "str_contains [] pat = str_prefix pat []"
| "str_contains (c # cs) pat = (str_prefix pat (c # cs) \<or> str_contains cs pat)"

lemma str_prefix_iff: "str_prefix p s \<longleftrightarrow> (\<exists>t. s = p @ t)"
  by (induction p s rule: str_prefix.induct) auto

lemma str_contains_iff: "str_contains s pat \<longleftrightarrow> (\<exists>a b. s = a @ pat @ b)"
proof (induction s)
  case Nil
  then show ?case by (simp add: str_prefix_iff)
next
  case (Cons c cs)
  have "(\<exists>a b. c # cs = a @ pat @ b) \<longleftrightarrow>
      (\<exists>b. c # cs = pat @ b) \<or> (\<exists>a b. cs = a @ pat @ b)"
    by (metis append_Cons append_Nil list.exhaust list.inject)
  with Cons show ?case by (simp add: str_prefix_iff)
qed

text \<open>\<open>::tolower\<close> in the C locale: only the bytes \<open>A\<close> to \<open>Z\<close> change.\<close>

definition tolower :: "char \<Rightarrow> char" where
  "tolower c = (let n = of_char c :: nat in if 65 \<le> n \<and> n \<le> 90 then char_of (n + 32) else c)"

text \<open>White space of the C locale.\<close>

definition is_space :: "char \<Rightarrow> bool" where
  "is_space c = (let n = of_char c :: nat in n = 32 \<or> 9 \<le> n \<and> n \<le> 13)"

text \<open>\<open>std::to_string\<close> on integers.\<close>

definition digit_char :: "nat \<Rightarrow> char" where
  "digit_char d = char_of (48 + d)"

fun dec_digits :: "nat \<Rightarrow> string" where
  "dec_digits n = (if n < 10 then [digit_char n] else dec_digits (n div 10) @ [digit_char (n mod 10)])"

declare dec_digits.simps [simp del]

definition to_string :: "int \<Rightarrow> string" where
  "to_string i = (if i < 0 then CHR ''-'' # dec_digits (nat (- i)) else dec_digits (nat i))"

lemma dec_digits_not_Nil [simp]: "dec_digits n \<noteq> []"
  by (subst dec_digits.simps) simp

section \<open>Casts between integer types\<close>

text \<open>\<open>static_cast<int>\<close> of a wider signed value keeps the low 32 bits.\<close>

definition cast_i32 :: "int \<Rightarrow> int" where
  "cast_i32 i = signed_take_bit 31 i"

lemma cast_i32_id: "- (2 ^ 31) \<le> i \<Longrightarrow> i < 2 ^ 31 \<Longrightarrow> cast_i32 i = i"
  by (simp add: cast_i32_def signed_take_bit_int_eq_self)

lemma cast_i32_range: "- (2 ^ 31) \<le> cast_i32 i \<and> cast_i32 i < 2 ^ 31"
  using signed_take_bit_int_greater_eq_minus_exp [of 31 i] signed_take_bit_int_less_exp [of 31 i]
  by (simp add: cast_i32_def)

end
