(* ===== verification/Protocol.thy ===== *)
theory Protocol
  imports Prelude
begin

text \<open>
  The wire protocol: \<open>include/protocol.h\<close> (packet header and command codes), the constants of
  \<open>include/config.h\<close> that belong to it, and the messages of \<open>message.proto\<close>. The classes that protoc
  generates from \<open>message.proto\<close> are not part of the repository: their \<open>ParseFromString\<close> and
  \<open>SerializeToString\<close> are the fields of a record \<open>codec\<close> that the handlers take as an argument.
\<close>

section \<open>Packet header\<close>

type_synonym u32 = "32 word"
type_synonym u16 = "16 word"

record PacketHeader =
  magic :: u32
  body_len :: u32
  cmd :: u32
  seq :: u32

definition PROTO_MAGIC :: u32 where
  "PROTO_MAGIC = 0xDEADBEEF"

definition MAX_BODY_LEN :: u32 where
  "MAX_BODY_LEN = 65535"

definition sizeof_PacketHeader :: nat where
  "sizeof_PacketHeader = 16"

datatype CmdType = LOGIN | CHAT | ACK | HEARTBEAT | REGISTER | ADD_FRIEND | ACCEPT_FRIEND
  | FRIEND_LIST | SEARCH_USER | FRIEND_REQUESTS

fun cmd_code :: "CmdType \<Rightarrow> u32" where
  "cmd_code LOGIN = 1"
| "cmd_code CHAT = 2"
| "cmd_code ACK = 3"
| "cmd_code HEARTBEAT = 4"
| "cmd_code REGISTER = 5"
| "cmd_code ADD_FRIEND = 6"
| "cmd_code ACCEPT_FRIEND = 7"
| "cmd_code FRIEND_LIST = 8"
| "cmd_code SEARCH_USER = 9"
| "cmd_code FRIEND_REQUESTS = 10"

text \<open>
  The header is a packed struct of four 32-bit words that is copied to and from the wire byte by
  byte. The server and its client both run on little-endian machines, so the low byte is first.
\<close>

definition u32_bytes :: "u32 \<Rightarrow> string" where
  "u32_bytes w = (let n = unat w in
     [char_of n, char_of (n div 256), char_of (n div 65536), char_of (n div 16777216)])"

definition bytes_u32 :: "string \<Rightarrow> u32" where
  "bytes_u32 b = of_nat (of_char (b ! 0) + 256 * of_char (b ! 1)
     + 65536 * of_char (b ! 2) + 16777216 * of_char (b ! 3))"

definition header_bytes :: "PacketHeader \<Rightarrow> string" where
  "header_bytes h = u32_bytes (magic h) @ u32_bytes (body_len h) @ u32_bytes (cmd h) @ u32_bytes (seq h)"

text \<open>Reading the header in place; the callers check that the buffer holds at least 16 bytes.\<close>

definition bytes_header :: "string \<Rightarrow> PacketHeader" where
  "bytes_header b = \<lparr>magic = bytes_u32 b, body_len = bytes_u32 (drop 4 b),
     cmd = bytes_u32 (drop 8 b), seq = bytes_u32 (drop 12 b)\<rparr>"

lemma length_u32_bytes [simp]: "length (u32_bytes w) = 4"
  by (simp add: u32_bytes_def Let_def)

lemma length_header_bytes [simp]: "length (header_bytes h) = 16"
  by (simp add: header_bytes_def)

lemma byte_sum: "(n::nat) mod 256 + 256 * (n div 256 mod 256) + 65536 * (n div 65536 mod 256)
    + 16777216 * (n div 16777216) = n"
proof -
  have split: "k = 256 * (k div 256) + k mod 256" for k :: nat by simp
  have div: "n div 65536 = n div 256 div 256" "n div 16777216 = n div 256 div 256 div 256"
    by (simp_all flip: div_mult2_eq)
  show ?thesis
    using split [of n] split [of "n div 256"] split [of "n div 256 div 256"] unfolding div by linarith
qed

lemma bytes_u32_bytes [simp]: "bytes_u32 (u32_bytes w @ x) = w"
proof -
  have "unat w < 2 ^ 32" using unsigned_less [where 'a = nat, of w] by simp
  then have "unat w div 16777216 < 256" by simp
  with byte_sum [of "unat w"] show ?thesis
    by (simp add: bytes_u32_def u32_bytes_def Let_def del: of_nat_add of_nat_mult)
qed

lemma bytes_u32_extend: "4 \<le> length b \<Longrightarrow> bytes_u32 (b @ x) = bytes_u32 b"
  by (auto simp: bytes_u32_def nth_append)

lemma bytes_header_bytes [simp]: "bytes_header (header_bytes h @ x) = h"
  by (simp add: bytes_header_def header_bytes_def)

lemma bytes_header_extend: "16 \<le> length b \<Longrightarrow> bytes_header (b @ x) = bytes_header b"
  by (simp add: bytes_header_def bytes_u32_extend)

lemma cmd_code_inj: "inj cmd_code"
  by (rule injI) (case_tac x; case_tac y; simp)

section \<open>Messages\<close>

record ChatMessage =
  cm_from_uid :: int
  cm_to_uid :: int
  cm_content :: string
  cm_timestamp :: int
  cm_is_stream :: bool
  cm_is_last_chunk :: bool
  cm_stream_seq :: int

record Response =
  rs_success :: bool
  rs_msg :: string
  rs_uid :: int

record LoginRequest =
  lr_username :: string
  lr_password :: string

record RegisterRequest =
  rr_username :: string
  rr_password :: string

record FriendInfo =
  fi_uid :: int
  fi_username :: string
  fi_online :: bool

record AddFriendRequest =
  af_to_uid :: int
  af_message :: string

record AcceptFriendRequest =
  ac_request_id :: int

record FriendRequestInfo =
  fr_id :: int
  fr_from_uid :: int
  fr_from_username :: string
  fr_message :: string

record SearchUserRequest =
  su_keyword :: string

text \<open>Messages as the generated constructors leave them: every field at its proto3 default.\<close>

definition new_ChatMessage :: ChatMessage where
  "new_ChatMessage = \<lparr>cm_from_uid = 0, cm_to_uid = 0, cm_content = [], cm_timestamp = 0,
     cm_is_stream = False, cm_is_last_chunk = False, cm_stream_seq = 0\<rparr>"

definition new_Response :: Response where
  "new_Response = \<lparr>rs_success = False, rs_msg = [], rs_uid = 0\<rparr>"

record codec =
  parse_ChatMessage :: "string \<Rightarrow> ChatMessage option"
  parse_Response :: "string \<Rightarrow> Response option"
  parse_LoginRequest :: "string \<Rightarrow> LoginRequest option"
  parse_RegisterRequest :: "string \<Rightarrow> RegisterRequest option"
  parse_AddFriendRequest :: "string \<Rightarrow> AddFriendRequest option"
  parse_AcceptFriendRequest :: "string \<Rightarrow> AcceptFriendRequest option"
  parse_SearchUserRequest :: "string \<Rightarrow> SearchUserRequest option"
  ser_ChatMessage :: "ChatMessage \<Rightarrow> string"
  ser_Response :: "Response \<Rightarrow> string"
  ser_LoginRequest :: "LoginRequest \<Rightarrow> string"
  ser_RegisterRequest :: "RegisterRequest \<Rightarrow> string"
  ser_UserList :: "FriendInfo list \<Rightarrow> string"
  ser_FriendRequestList :: "FriendRequestInfo list \<Rightarrow> string"

end
