(* ===== verification/Config.thy ===== *)
theory Config
  imports Prelude
begin

text \<open>
  \<open>include/config.h\<close>: settings read from the environment. The environment is a map from names to
  values (C strings); \<open>std::from_chars\<close> is modelled as far as \<open>getenv_i32\<close> and \<open>getenv_u32\<close> use it.
\<close>

type_synonym env = "string \<rightharpoonup> string"

section \<open>Decimal numbers\<close>

definition is_digit :: "char \<Rightarrow> bool" where
  "is_digit c = (let n = of_char c :: nat in 48 \<le> n \<and> n \<le> 57)"

definition digit_val :: "char \<Rightarrow> nat" where
  "digit_val c = of_char c - 48"

definition dec_value :: "string \<Rightarrow> nat" where
  "dec_value ds = foldl (\<lambda>n c. 10 * n + digit_val c) 0 ds"

text \<open>\<open>std::stoi\<close> and its relatives: leading blanks, a sign, digits, and a range.\<close>

definition parse_int :: "int \<Rightarrow> int \<Rightarrow> string \<Rightarrow> exn + int" where
  "parse_int lo hi str =
     (let t = dropWhile is_space str;
          neg = (t \<noteq> [] \<and> hd t = CHR ''-'');
          u = (if t \<noteq> [] \<and> (hd t = CHR ''-'' \<or> hd t = CHR ''+'') then tl t else t);
          ds = takeWhile is_digit u;
          v = (if neg then - int (dec_value ds) else int (dec_value ds))
      in if ds = [] then Inl (RuntimeError ''invalid_argument'')
         else if lo \<le> v \<and> v \<le> hi then Inr v
         else Inl (RuntimeError ''out_of_range''))"

datatype from_chars_ec = EcOk | EcInvalid | EcRange

text \<open>
  \<open>std::from_chars(first, last, value, 10)\<close> for a type with values from \<open>lo\<close> to \<open>hi\<close>: a minus sign only
  if the type is signed, then the longest run of digits. The result is the error code, the value
  (0, as the callers initialise it, unless the code is \<open>EcOk\<close>) and what follows the number.
\<close>

definition from_chars :: "bool \<Rightarrow> int \<Rightarrow> int \<Rightarrow> string \<Rightarrow> from_chars_ec \<times> int \<times> string" where
  "from_chars sgnd lo hi s =
     (let neg = (sgnd \<and> s \<noteq> [] \<and> hd s = CHR ''-''); t = (if neg then tl s else s);
          ds = takeWhile is_digit t; rest = dropWhile is_digit t;
          v = (if neg then - int (dec_value ds) else int (dec_value ds))
      in if ds = [] then (EcInvalid, 0, s)
         else if lo \<le> v \<and> v \<le> hi then (EcOk, v, rest)
         else (EcRange, 0, rest))"

definition INT_MIN :: int where "INT_MIN = - 2147483648"
definition INT_MAX :: int where "INT_MAX = 2147483647"
definition UINT_MAX :: int where "UINT_MAX = 4294967295"

definition getenv_i32 :: "env \<Rightarrow> string \<Rightarrow> int \<Rightarrow> int" where
  "getenv_i32 env name def = (case env name of
     None \<Rightarrow> def
   | Some s \<Rightarrow>
       if s = [] then def
       else (case from_chars True INT_MIN INT_MAX s of (ec, val, rest) \<Rightarrow>
         if ec = EcOk \<and> rest = [] then val
         else if ec = EcRange then def
         else def))"

definition getenv_u32 :: "env \<Rightarrow> string \<Rightarrow> int \<Rightarrow> int" where
  "getenv_u32 env name def = (case env name of
     None \<Rightarrow> def
   | Some s \<Rightarrow>
       if s = [] then def
       else (case from_chars False 0 UINT_MAX s of (ec, val, rest) \<Rightarrow>
         if ec = EcOk \<and> rest = [] then val else def))"

section \<open>The settings\<close>

definition PORT :: "env \<Rightarrow> int" where "PORT env = getenv_i32 env ''IM_PORT'' 8888"
definition HEARTBEAT_SEC :: "env \<Rightarrow> int" where "HEARTBEAT_SEC env = getenv_i32 env ''IM_HB_SEC'' 60"
definition POOL_SIZE :: "env \<Rightarrow> nat" where "POOL_SIZE env = nat (getenv_u32 env ''IM_POOL_SIZE'' 10000)"
definition MAX_SEND_BUF :: "env \<Rightarrow> nat" where
  "MAX_SEND_BUF env = nat (getenv_u32 env ''IM_MAX_SEND_BUF'' (5 * 1024 * 1024))"
definition BACKLOG :: "env \<Rightarrow> int" where "BACKLOG env = getenv_i32 env ''IM_BACKLOG'' 4096"
definition MAX_CONN :: "env \<Rightarrow> int" where "MAX_CONN env = getenv_i32 env ''IM_MAX_CONN'' 500000"
definition AI_MAX_CONCURRENT :: "env \<Rightarrow> int" where
  "AI_MAX_CONCURRENT env = getenv_i32 env ''AI_MAX_CONCURRENT'' 20"
definition RATE_LIMIT_MSGS :: "env \<Rightarrow> int" where
  "RATE_LIMIT_MSGS env = getenv_i32 env ''IM_RATE_LIMIT_MSGS'' 20"
definition RATE_LIMIT_WINDOW :: "env \<Rightarrow> int" where
  "RATE_LIMIT_WINDOW env = getenv_i32 env ''IM_RATE_LIMIT_WINDOW'' 1"

definition getenv_str :: "env \<Rightarrow> string \<Rightarrow> string \<Rightarrow> string" where
  "getenv_str env name def = (case env name of Some e \<Rightarrow> e | None \<Rightarrow> def)"

definition AI_BASE_URL :: "env \<Rightarrow> string" where
  "AI_BASE_URL env = getenv_str env ''AI_BASE_URL'' ''http://127.0.0.1:8082''"

text \<open>Where the MySQL server is and how to log in there.\<close>

definition DB_HOST :: "env \<Rightarrow> string" where
  "DB_HOST env = getenv_str env ''DB_HOST'' ''127.0.0.1''"

definition DB_PORT :: "env \<Rightarrow> int" where
  "DB_PORT env = getenv_i32 env ''DB_PORT'' 3306"

definition DB_USER :: "env \<Rightarrow> string" where
  "DB_USER env = getenv_str env ''DB_USER'' ''root''"

definition DB_PASS :: "env \<Rightarrow> string" where
  "DB_PASS env = getenv_str env ''DB_PASS'' ''@Liuyingjie040907''"

definition DB_NAME :: "env \<Rightarrow> string" where
  "DB_NAME env = getenv_str env ''DB_NAME'' ''im_chat''"

text \<open>\<open>hw\<close> is \<open>std::thread::hardware_concurrency()\<close>, which may be 0 when it is not known.\<close>

definition WORKER_NUM :: "nat \<Rightarrow> env \<Rightarrow> int" where
  "WORKER_NUM hw env = (let v = getenv_i32 env ''IM_WORKER'' 0 in if v = 0 then int hw else v)"

section \<open>Reading back what was printed\<close>

lemma digit_char_props: "d < 10 \<Longrightarrow> is_digit (digit_char d) \<and> digit_val (digit_char d) = d"
  by (simp add: is_digit_def digit_val_def digit_char_def)

lemma dec_digits_digits: "\<forall>c \<in> set (dec_digits n). is_digit c"
proof (induction n rule: dec_digits.induct)
  case (1 n)
  then show ?case
    by (cases "n < 10") (auto simp: dec_digits.simps [of n] digit_char_props)
qed

lemma dec_value_snoc: "dec_value (ds @ [c]) = 10 * dec_value ds + digit_val c"
  by (simp add: dec_value_def)

lemma dec_value_digits: "dec_value (dec_digits n) = n"
proof (induction n rule: dec_digits.induct)
  case (1 n)
  then show ?case
    by (cases "n < 10") (simp_all add: dec_digits.simps [of n] dec_value_snoc digit_char_props,
        simp add: dec_value_def digit_char_props)
qed

lemma takeWhile_dec_digits [simp]: "takeWhile is_digit (dec_digits n) = dec_digits n"
  using dec_digits_digits [of n] by (simp add: takeWhile_eq_all_conv)

lemma dropWhile_dec_digits [simp]: "dropWhile is_digit (dec_digits n) = []"
  using dec_digits_digits [of n] by (simp add: dropWhile_eq_Nil_conv)

lemma hd_dec_digits: "hd (dec_digits n) \<noteq> CHR ''-''"
proof -
  have "is_digit (hd (dec_digits n))" using dec_digits_digits [of n] by simp
  then show ?thesis by (auto simp: is_digit_def)
qed

lemma from_chars_to_string:
  assumes "INT_MIN \<le> v" "v \<le> INT_MAX"
  shows "from_chars True INT_MIN INT_MAX (to_string v) = (EcOk, v, [])"
  using assms hd_dec_digits
  by (auto simp: from_chars_def to_string_def dec_value_digits Let_def dec_digits_digits [rule_format])

lemma to_string_not_Nil [simp]: "to_string v \<noteq> []"
  by (simp add: to_string_def)

text \<open>
  A 32-bit setting that is given in decimal is read back as it was written, and nothing that
  stands in the environment can make the reader leave the range of \<open>int\<close>: whatever text is there,
  the result is a value of that range or the default.
\<close>

theorem getenv_i32_reads:
  assumes "INT_MIN \<le> v" "v \<le> INT_MAX"
  shows "getenv_i32 (env(name \<mapsto> to_string v)) name def = v \<and>
    (getenv_i32 env name def = def \<or>
      INT_MIN \<le> getenv_i32 env name def \<and> getenv_i32 env name def \<le> INT_MAX)"
proof
  show "getenv_i32 (env(name \<mapsto> to_string v)) name def = v"
    using assms by (simp add: getenv_i32_def from_chars_to_string)
  show "getenv_i32 env name def = def \<or>
      INT_MIN \<le> getenv_i32 env name def \<and> getenv_i32 env name def \<le> INT_MAX"
    by (auto simp: getenv_i32_def from_chars_def Let_def split: option.splits if_splits)
qed

theorem getenv_i32_reads_witness:
  "getenv_i32 [''IM_PORT'' \<mapsto> to_string (-17)] ''IM_PORT'' 8888 = -17 \<and>
   (getenv_i32 Map.empty ''IM_PORT'' 8888 = 8888 \<or>
     INT_MIN \<le> getenv_i32 Map.empty ''IM_PORT'' 8888 \<and> getenv_i32 Map.empty ''IM_PORT'' 8888 \<le> INT_MAX)"
  by (rule getenv_i32_reads) (simp_all add: INT_MIN_def INT_MAX_def)

end
