(* ===== verification/Externals.thy ===== *)
theory Externals
  imports Protocol Config
begin

text \<open>
  Code that the server calls and that is not in the repository, as parameters of the model: the
  JSON library (nlohmann), the MySQL client library with the server behind it, \<open>std::hash\<close>, whose
  values the C++ standard leaves to the implementation, \<open>std::put_time\<close> of the local time, which depends on
  the time zone, and the classes protoc generates (\<open>codec\<close>
  of \<open>Protocol\<close>). What the theorems rely on is stated as a predicate of its own.
\<close>

section \<open>JSON\<close>

text \<open>
  \<open>'j\<close> is the type of JSON values and \<open>'t\<close> the type of file contents. \<open>None\<close> stands for the exception
  that the library throws: a type error of an access or conversion, the error of \<open>dump\<close> on a string
  that is not UTF-8, or a parse error.
\<close>

record ('j, 't) json_lib =
  jl_object :: "(string \<times> 'j) list \<Rightarrow> 'j"
  jl_array :: "'j list \<Rightarrow> 'j"
  jl_int :: "int \<Rightarrow> 'j"
  jl_string :: "string \<Rightarrow> 'j"
  jl_bool :: "bool \<Rightarrow> 'j"
  jl_empty_file :: 't
  jl_dump :: "'j \<Rightarrow> 't option"
  jl_parse :: "'t \<Rightarrow> 'j option"
  jl_contains :: "'j \<Rightarrow> string \<Rightarrow> bool"
  jl_at :: "'j \<Rightarrow> string \<Rightarrow> 'j option"
  jl_idx :: "'j \<Rightarrow> nat \<Rightarrow> 'j option"
  jl_elems :: "'j \<Rightarrow> 'j list"
  jl_value_int :: "'j \<Rightarrow> string \<Rightarrow> int \<Rightarrow> int option"
  jl_value_string :: "'j \<Rightarrow> string \<Rightarrow> string \<Rightarrow> string option"
  jl_value_bool :: "'j \<Rightarrow> string \<Rightarrow> bool \<Rightarrow> bool option"
  jl_get_int :: "'j \<Rightarrow> int option"
  jl_get_string :: "'j \<Rightarrow> string option"
  jl_get_bool :: "'j \<Rightarrow> bool option"

definition int_ok :: "int \<Rightarrow> bool" where
  "int_ok i \<longleftrightarrow> INT_MIN \<le> i \<and> i \<le> INT_MAX"

text \<open>
  The documented behaviour that persistence relies on: what was dumped parses back, and the
  accessors find in an object or array what it was built from, or the default where it is missing.
\<close>

definition json_laws :: "('j, 't) json_lib \<Rightarrow> bool" where
  "json_laws J \<longleftrightarrow>
     (\<forall>j t. jl_dump J j = Some t \<longrightarrow> jl_parse J t = Some j) \<and>
     (\<forall>kvs k. jl_contains J (jl_object J kvs) k = (k \<in> fst ` set kvs)) \<and>
     (\<forall>kvs k v. distinct (map fst kvs) \<and> (k, v) \<in> set kvs \<longrightarrow> jl_at J (jl_object J kvs) k = Some v) \<and>
     (\<forall>kvs k i d. distinct (map fst kvs) \<and> (k, jl_int J i) \<in> set kvs \<and> int_ok i \<longrightarrow>
        jl_value_int J (jl_object J kvs) k d = Some i) \<and>
     (\<forall>kvs k s d. distinct (map fst kvs) \<and> (k, jl_string J s) \<in> set kvs \<longrightarrow>
        jl_value_string J (jl_object J kvs) k d = Some s) \<and>
     (\<forall>kvs k b d. distinct (map fst kvs) \<and> (k, jl_bool J b) \<in> set kvs \<longrightarrow>
        jl_value_bool J (jl_object J kvs) k d = Some b) \<and>
     (\<forall>kvs k d. k \<notin> fst ` set kvs \<longrightarrow> jl_value_int J (jl_object J kvs) k d = Some d) \<and>
     (\<forall>xs. jl_elems J (jl_array J xs) = xs) \<and>
     (\<forall>xs n. n < length xs \<longrightarrow> jl_idx J (jl_array J xs) n = Some (xs ! n)) \<and>
     (\<forall>i. int_ok i \<longrightarrow> jl_get_int J (jl_int J i) = Some i) \<and>
     (\<forall>s. jl_get_string J (jl_string J s) = Some s) \<and>
     (\<forall>b. jl_get_bool J (jl_bool J b) = Some b)"

lemma json_lawsD:
  assumes "json_laws J"
  shows json_parse_dump: "jl_dump J j = Some t \<Longrightarrow> jl_parse J t = Some j"
    and json_contains: "jl_contains J (jl_object J kvs) k = (k \<in> fst ` set kvs)"
    and json_at: "distinct (map fst kvs) \<Longrightarrow> (k, v) \<in> set kvs \<Longrightarrow> jl_at J (jl_object J kvs) k = Some v"
    and json_value_int: "distinct (map fst kvs) \<Longrightarrow> (k, jl_int J i) \<in> set kvs \<Longrightarrow> int_ok i \<Longrightarrow>
        jl_value_int J (jl_object J kvs) k d = Some i"
    and json_value_string: "distinct (map fst kvs) \<Longrightarrow> (k, jl_string J s) \<in> set kvs \<Longrightarrow>
        jl_value_string J (jl_object J kvs) k ds = Some s"
    and json_value_bool: "distinct (map fst kvs) \<Longrightarrow> (k, jl_bool J b) \<in> set kvs \<Longrightarrow>
        jl_value_bool J (jl_object J kvs) k db = Some b"
    and json_value_missing: "k \<notin> fst ` set kvs \<Longrightarrow> jl_value_int J (jl_object J kvs) k d = Some d"
    and json_elems: "jl_elems J (jl_array J xs) = xs"
    and json_idx: "n < length xs \<Longrightarrow> jl_idx J (jl_array J xs) n = Some (xs ! n)"
    and json_get_int: "int_ok i \<Longrightarrow> jl_get_int J (jl_int J i) = Some i"
    and json_get_string: "jl_get_string J (jl_string J s) = Some s"
    and json_get_bool: "jl_get_bool J (jl_bool J b) = Some b"
  using assms unfolding json_laws_def by simp_all

text \<open>UTF-8 (RFC 3629): no overlong forms, no surrogates, nothing above U+10FFFF.\<close>

definition continuation :: "char \<Rightarrow> bool" where
  "continuation c \<longleftrightarrow> 0x80 \<le> (of_char c :: nat) \<and> (of_char c :: nat) \<le> 0xBF"

fun utf8_valid :: "string \<Rightarrow> bool" where
  "utf8_valid [] = True"
| "utf8_valid (a # s) = (let n = (of_char a :: nat) in
     if n < 0x80 then utf8_valid s
     else if 0xC2 \<le> n \<and> n \<le> 0xDF then (case s of b # t \<Rightarrow> continuation b \<and> utf8_valid t | _ \<Rightarrow> False)
     else if 0xE0 \<le> n \<and> n \<le> 0xEF then (case s of
       b # c # t \<Rightarrow> continuation b \<and> continuation c \<and> (n = 0xE0 \<longrightarrow> 0xA0 \<le> (of_char b :: nat)) \<and>
         (n = 0xED \<longrightarrow> (of_char b :: nat) \<le> 0x9F) \<and> utf8_valid t
     | _ \<Rightarrow> False)
     else if 0xF0 \<le> n \<and> n \<le> 0xF4 then (case s of
       b # c # d # t \<Rightarrow> continuation b \<and> continuation c \<and> continuation d \<and> (n = 0xF0 \<longrightarrow> 0x90 \<le> (of_char b :: nat)) \<and>
         (n = 0xF4 \<longrightarrow> (of_char b :: nat) \<le> 0x8F) \<and> utf8_valid t
     | _ \<Rightarrow> False)
     else False)"

text \<open>
  The documented behaviour of \<open>dump\<close>: it throws (\<open>type_error.316\<close>) where a string of the value, or a key, is not UTF-8, and otherwise it
  does not.
\<close>

definition dump_laws :: "('j, 't) json_lib \<Rightarrow> bool" where
  "dump_laws J \<longleftrightarrow>
     (\<forall>s. jl_dump J (jl_string J s) = None \<longleftrightarrow> \<not> utf8_valid s) \<and>
     (\<forall>i. jl_dump J (jl_int J i) \<noteq> None) \<and> (\<forall>b. jl_dump J (jl_bool J b) \<noteq> None) \<and>
     (\<forall>xs. jl_dump J (jl_array J xs) = None \<longleftrightarrow> (\<exists>x \<in> set xs. jl_dump J x = None)) \<and>
     (\<forall>kvs. distinct (map fst kvs) \<longrightarrow>
        (jl_dump J (jl_object J kvs) = None \<longleftrightarrow> (\<exists>(k, v) \<in> set kvs. \<not> utf8_valid k \<or> jl_dump J v = None)))"

lemma dump_lawsD:
  assumes "dump_laws J"
  shows dump_string: "jl_dump J (jl_string J s) = None \<longleftrightarrow> \<not> utf8_valid s"
    and dump_int: "jl_dump J (jl_int J i) \<noteq> None"
    and dump_bool: "jl_dump J (jl_bool J b) \<noteq> None"
    and dump_array: "jl_dump J (jl_array J xs) = None \<longleftrightarrow> (\<exists>x \<in> set xs. jl_dump J x = None)"
    and dump_object: "distinct (map fst kvs) \<Longrightarrow>
        jl_dump J (jl_object J kvs) = None \<longleftrightarrow> (\<exists>(k, v) \<in> set kvs. \<not> utf8_valid k \<or> jl_dump J v = None)"
  using assms unfolding dump_laws_def by simp_all

section \<open>MySQL\<close>

text \<open>
  \<open>'m\<close> is the state of the client library and the server behind it. A query is successful where the
  library returns 0; a row is a list of columns, each possibly NULL.
\<close>

type_synonym row = "string option list"

record 'm mysql_lib =
  my_init :: "'m \<Rightarrow> bool \<times> 'm"
  my_close :: "'m \<Rightarrow> 'm"
  my_real_connect :: "'m \<Rightarrow> bool \<times> 'm"
  my_ping :: "'m \<Rightarrow> bool \<times> 'm"
  my_query :: "string \<Rightarrow> 'm \<Rightarrow> bool \<times> 'm"
  my_store_result :: "'m \<Rightarrow> row list option \<times> 'm"
  my_insert_id :: "'m \<Rightarrow> nat"
  my_real_escape_string :: "string \<Rightarrow> 'm \<Rightarrow> string"

section \<open>Everything external\<close>

record ('j, 't, 'm) externals =
  x_codec :: codec
  x_json :: "('j, 't) json_lib"
  x_mysql :: "'m mysql_lib"
  x_hash :: "string \<Rightarrow> 64 word"
  x_put_time :: "int \<Rightarrow> string"

section \<open>An instance\<close>

text \<open>
  A concrete choice of the parameters, which shows that what is asked of them can be met: JSON values
  as a datatype, a file that holds the JSON value itself, a MySQL server that cannot be reached, and
  a hash that is the length of the string.
\<close>

datatype json = JObject "(string \<times> json) list" | JArray "json list" | JInt int | JString string | JBool bool

fun json_member :: "json \<Rightarrow> string \<Rightarrow> json option" where
  "json_member (JObject kvs) k = map_of kvs k"
| "json_member _ k = None"

fun json_list :: "json \<Rightarrow> json list" where
  "json_list (JArray xs) = xs"
| "json_list _ = []"

fun json_int :: "json \<Rightarrow> int option" where
  "json_int (JInt i) = Some i"
| "json_int _ = None"

fun json_string :: "json \<Rightarrow> string option" where
  "json_string (JString s) = Some s"
| "json_string _ = None"

fun json_bool :: "json \<Rightarrow> bool option" where
  "json_bool (JBool b) = Some b"
| "json_bool _ = None"

definition json_value :: "(json \<Rightarrow> 'a option) \<Rightarrow> json \<Rightarrow> string \<Rightarrow> 'a \<Rightarrow> 'a option" where
  "json_value get j k d = (case json_member j k of None \<Rightarrow> Some d | Some v \<Rightarrow> get v)"

definition json_ref :: "(json, json) json_lib" where
  "json_ref = \<lparr>jl_object = JObject, jl_array = JArray, jl_int = JInt, jl_string = JString, jl_bool = JBool,
     jl_empty_file = JString [], jl_dump = Some, jl_parse = Some,
     jl_contains = (\<lambda>j k. json_member j k \<noteq> None), jl_at = json_member,
     jl_idx = (\<lambda>j n. if n < length (json_list j) then Some (json_list j ! n) else None),
     jl_elems = json_list, jl_value_int = json_value json_int, jl_value_string = json_value json_string,
     jl_value_bool = json_value json_bool, jl_get_int = json_int, jl_get_string = json_string,
     jl_get_bool = json_bool\<rparr>"

lemma json_ref_dump [simp]: "jl_dump json_ref = Some"
  by (simp add: json_ref_def)

lemma json_laws_ref: "json_laws json_ref"
proof -
  have member: "(map_of kvs k \<noteq> None) = (k \<in> fst ` set kvs)" for kvs :: "(string \<times> json) list" and k
    by (simp add: map_of_eq_None_iff)
  have missing: "map_of kvs k = None" if "k \<notin> fst ` set kvs" for kvs :: "(string \<times> json) list" and k
    using that by (simp add: map_of_eq_None_iff)
  show ?thesis
    unfolding json_laws_def json_ref_def
    by (auto simp: member json_value_def dest!: map_of_is_SomeI missing simp del: not_None_eq)
qed

text \<open>The same library with a \<open>dump\<close> that looks at the strings.\<close>

primrec json_dumps :: "json \<Rightarrow> bool" where
  "json_dumps (JObject kvs) = list_all (\<lambda>(k, ok). utf8_valid k \<and> ok) (map (map_prod id json_dumps) kvs)"
| "json_dumps (JArray xs) = list_all id (map json_dumps xs)"
| "json_dumps (JInt i) = True"
| "json_dumps (JString s) = utf8_valid s"
| "json_dumps (JBool b) = True"

definition json_strict :: "(json, json) json_lib" where
  "json_strict = json_ref\<lparr>jl_dump := (\<lambda>j. if json_dumps j then Some j else None)\<rparr>"

lemma dump_laws_strict: "dump_laws json_strict"
  by (auto simp: dump_laws_def json_strict_def json_ref_def list_all_iff case_prod_unfold)

definition mysql_down :: "unit mysql_lib" where
  "mysql_down = \<lparr>my_init = (\<lambda>w. (True, w)), my_close = (\<lambda>w. w), my_real_connect = (\<lambda>w. (False, w)),
     my_ping = (\<lambda>w. (False, w)), my_query = (\<lambda>q w. (False, w)), my_store_result = (\<lambda>w. (None, w)),
     my_insert_id = (\<lambda>w. 0), my_real_escape_string = (\<lambda>s w. s)\<rparr>"

text \<open>A codec in which a chat message for user 7 carries the whole body and every request carries it too.\<close>

definition codec_ref :: codec where
  "codec_ref = \<lparr>parse_ChatMessage = (\<lambda>b. Some (new_ChatMessage\<lparr>cm_to_uid := 7, cm_content := b\<rparr>)),
     parse_Response = (\<lambda>b. Some (new_Response\<lparr>rs_msg := b\<rparr>)),
     parse_LoginRequest = (\<lambda>b. Some \<lparr>lr_username = b, lr_password = ''pw''\<rparr>),
     parse_RegisterRequest = (\<lambda>b. Some \<lparr>rr_username = b, rr_password = ''pw''\<rparr>),
     parse_AddFriendRequest = (\<lambda>b. Some \<lparr>af_to_uid = 7, af_message = b\<rparr>),
     parse_AcceptFriendRequest = (\<lambda>b. Some \<lparr>ac_request_id = 1\<rparr>),
     parse_SearchUserRequest = (\<lambda>b. Some \<lparr>su_keyword = b\<rparr>),
     ser_ChatMessage = cm_content, ser_Response = rs_msg, ser_LoginRequest = lr_username,
     ser_RegisterRequest = rr_username, ser_UserList = (\<lambda>us. concat (map fi_username us)),
     ser_FriendRequestList = (\<lambda>rs. concat (map fr_message rs))\<rparr>"

definition externals_ref :: "(json, json, unit) externals" where
  "externals_ref = \<lparr>x_codec = codec_ref, x_json = json_ref, x_mysql = mysql_down, x_hash = (\<lambda>s. of_nat (length s)),
     x_put_time = (\<lambda>t. [])\<rparr>"

lemma externals_ref_sel [simp]:
  "x_codec externals_ref = codec_ref" "x_json externals_ref = json_ref" "x_mysql externals_ref = mysql_down"
  "x_hash externals_ref s = of_nat (length s)"
  by (simp_all add: externals_ref_def)

end
