(* ===== verification/Db_State.thy ===== *)
theory Db_State
  imports Externals
begin

text \<open>
  The state of \<open>DBBatchWriter\<close> (\<open>include/db_writer.h\<close>) and the persistence of the file storage: the
  four \<open>save_*_file\<close> functions and \<open>load_file_data\<close> of \<open>src/db_writer.cpp\<close>.
\<close>

section \<open>Data\<close>

record DBChatMessage =
  dm_id :: int
  dm_from_uid :: int
  dm_to_uid :: int
  dm_content :: string
  dm_delivered :: bool

record FileUser =
  fu_uid :: int
  fu_username :: string
  fu_password_hash :: string

record FileFriendRequest =
  fq_id :: int
  fq_from_uid :: int
  fq_to_uid :: int
  fq_message :: string
  fq_status :: int

record FileMessage =
  fm_id :: int
  fm_from_uid :: int
  fm_to_uid :: int
  fm_content :: string
  fm_delivered :: bool

text \<open>
  \<open>disk\<close> holds the contents of the files, \<open>can_write\<close> says which paths an \<open>ofstream\<close> can open, and
  \<open>mysql_set\<close> says whether the handle \<open>mysql_\<close> is not null.
\<close>

record ('t, 'm) db =
  use_file_storage :: bool
  file_users :: "FileUser list"
  file_friends :: "(int \<times> int) list"
  file_friend_reqs :: "FileFriendRequest list"
  file_messages :: "FileMessage list"
  file_next_uid :: int
  file_next_req_id :: int
  file_next_msg_id :: int
  db_queue :: "DBChatMessage list"
  db_running :: bool
  disk :: "string \<rightharpoonup> 't"
  can_write :: "string \<Rightarrow> bool"
  mysql_set :: bool
  mysql_world :: 'm

type_synonym ('t, 'm, 'a) db_prog = "(('t, 'm) db, 'a) prog"

definition file_path :: "string \<Rightarrow> string" where
  "file_path fn = ''data'' @ ''/'' @ fn"

section \<open>Saving\<close>

text \<open>
  \<open>std::ofstream f(path); if (f.is_open()) f << j.dump(2);\<close> Opening truncates the file before \<open>dump\<close>
  runs, so a file is empty when \<open>dump\<close> throws.
\<close>

definition write_json :: "('j, 't) json_lib \<Rightarrow> string \<Rightarrow> 'j \<Rightarrow> ('t, 'm, unit) db_prog" where
  "write_json J fn j = (\<lambda>s.
     if \<not> can_write s (file_path fn) then (Val (), s)
     else let s1 = s\<lparr>disk := (disk s)(file_path fn \<mapsto> jl_empty_file J)\<rparr> in
       (case jl_dump J j of
         None \<Rightarrow> (Throw JsonTypeError, s1)
       | Some t \<Rightarrow> (Val (), s1\<lparr>disk := (disk s1)(file_path fn \<mapsto> t)\<rparr>)))"

definition user_json :: "('j, 't) json_lib \<Rightarrow> FileUser \<Rightarrow> 'j" where
  "user_json J u = jl_object J [(''uid'', jl_int J (fu_uid u)), (''username'', jl_string J (fu_username u)),
     (''password_hash'', jl_string J (fu_password_hash u))]"

definition users_json :: "('j, 't) json_lib \<Rightarrow> ('t, 'm) db \<Rightarrow> 'j" where
  "users_json J s = jl_object J [(''next_uid'', jl_int J (file_next_uid s)),
     (''users'', jl_array J (map (user_json J) (file_users s)))]"

definition save_users_file :: "('j, 't) json_lib \<Rightarrow> ('t, 'm, unit) db_prog" where
  "save_users_file J = bindP (getsP (users_json J)) (write_json J ''users.json'')"

definition pair_json :: "('j, 't) json_lib \<Rightarrow> int \<times> int \<Rightarrow> 'j" where
  "pair_json J p = jl_array J [jl_int J (fst p), jl_int J (snd p)]"

definition friends_json :: "('j, 't) json_lib \<Rightarrow> ('t, 'm) db \<Rightarrow> 'j" where
  "friends_json J s = jl_object J [(''pairs'', jl_array J (map (pair_json J) (file_friends s)))]"

definition save_friends_file :: "('j, 't) json_lib \<Rightarrow> ('t, 'm, unit) db_prog" where
  "save_friends_file J = bindP (getsP (friends_json J)) (write_json J ''friends.json'')"

definition req_json :: "('j, 't) json_lib \<Rightarrow> FileFriendRequest \<Rightarrow> 'j" where
  "req_json J r = jl_object J [(''id'', jl_int J (fq_id r)), (''from_uid'', jl_int J (fq_from_uid r)),
     (''to_uid'', jl_int J (fq_to_uid r)), (''message'', jl_string J (fq_message r)),
     (''status'', jl_int J (fq_status r))]"

definition reqs_json :: "('j, 't) json_lib \<Rightarrow> ('t, 'm) db \<Rightarrow> 'j" where
  "reqs_json J s = jl_object J [(''next_id'', jl_int J (file_next_req_id s)),
     (''requests'', jl_array J (map (req_json J) (file_friend_reqs s)))]"

definition save_friend_reqs_file :: "('j, 't) json_lib \<Rightarrow> ('t, 'm, unit) db_prog" where
  "save_friend_reqs_file J = bindP (getsP (reqs_json J)) (write_json J ''friend_requests.json'')"

definition msg_json :: "('j, 't) json_lib \<Rightarrow> FileMessage \<Rightarrow> 'j" where
  "msg_json J m = jl_object J [(''id'', jl_int J (fm_id m)), (''from_uid'', jl_int J (fm_from_uid m)),
     (''to_uid'', jl_int J (fm_to_uid m)), (''content'', jl_string J (fm_content m)),
     (''delivered'', jl_bool J (fm_delivered m))]"

definition msgs_json :: "('j, 't) json_lib \<Rightarrow> ('t, 'm) db \<Rightarrow> 'j" where
  "msgs_json J s = jl_object J [(''next_id'', jl_int J (file_next_msg_id s)),
     (''messages'', jl_array J (map (msg_json J) (file_messages s)))]"

definition save_messages_file :: "('j, 't) json_lib \<Rightarrow> ('t, 'm, unit) db_prog" where
  "save_messages_file J = bindP (getsP (msgs_json J)) (write_json J ''messages.json'')"

section \<open>Loading\<close>

text \<open>The result of a library call that may throw a type error.\<close>

definition json_try :: "'a option \<Rightarrow> ('s, 'a) prog" where
  "json_try x = (case x of None \<Rightarrow> throwP JsonTypeError | Some v \<Rightarrow> ret v)"

lemma json_try_simps [simp]: "json_try (Some v) = ret v" "json_try None = throwP JsonTypeError"
  by (simp_all add: json_try_def)

fun mapP :: "('a \<Rightarrow> ('s, 'b) prog) \<Rightarrow> 'a list \<Rightarrow> ('s, 'b list) prog" where
  "mapP f [] = ret []"
| "mapP f (x # xs) = bindP (f x) (\<lambda>y. bindP (mapP f xs) (\<lambda>ys. ret (y # ys)))"

definition load_json :: "('j, 't) json_lib \<Rightarrow> ('t, 'm) db \<Rightarrow> string \<Rightarrow> 'j" where
  "load_json J s fn = (case disk s (file_path fn) of
     None \<Rightarrow> jl_object J []
   | Some t \<Rightarrow> (case jl_parse J t of None \<Rightarrow> jl_object J [] | Some j \<Rightarrow> j))"

definition field_int :: "('j, 't) json_lib \<Rightarrow> 'j \<Rightarrow> string \<Rightarrow> int option" where
  "field_int J j k = Option.bind (jl_at J j k) (jl_get_int J)"

definition field_string :: "('j, 't) json_lib \<Rightarrow> 'j \<Rightarrow> string \<Rightarrow> string option" where
  "field_string J j k = Option.bind (jl_at J j k) (jl_get_string J)"

definition load_user :: "('j, 't) json_lib \<Rightarrow> 'j \<Rightarrow> FileUser option" where
  "load_user J u = Option.bind (field_int J u ''uid'') (\<lambda>i.
     Option.bind (field_string J u ''username'') (\<lambda>n.
     Option.bind (field_string J u ''password_hash'') (\<lambda>h.
     Some \<lparr>fu_uid = i, fu_username = n, fu_password_hash = h\<rparr>)))"

definition load_pair :: "('j, 't) json_lib \<Rightarrow> 'j \<Rightarrow> (int \<times> int) option" where
  "load_pair J p = Option.bind (Option.bind (jl_idx J p 0) (jl_get_int J)) (\<lambda>a.
     Option.bind (Option.bind (jl_idx J p 1) (jl_get_int J)) (\<lambda>b. Some (a, b)))"

definition load_req :: "('j, 't) json_lib \<Rightarrow> 'j \<Rightarrow> FileFriendRequest option" where
  "load_req J r = Option.bind (field_int J r ''id'') (\<lambda>i.
     Option.bind (field_int J r ''from_uid'') (\<lambda>f.
     Option.bind (field_int J r ''to_uid'') (\<lambda>t.
     Option.bind (jl_value_string J r ''message'' []) (\<lambda>m.
     Option.bind (jl_value_int J r ''status'' 0) (\<lambda>st.
     Some \<lparr>fq_id = i, fq_from_uid = f, fq_to_uid = t, fq_message = m, fq_status = st\<rparr>)))))"

definition load_msg :: "('j, 't) json_lib \<Rightarrow> 'j \<Rightarrow> FileMessage option" where
  "load_msg J m = Option.bind (field_int J m ''id'') (\<lambda>i.
     Option.bind (field_int J m ''from_uid'') (\<lambda>f.
     Option.bind (field_int J m ''to_uid'') (\<lambda>t.
     Option.bind (field_string J m ''content'') (\<lambda>c.
     Option.bind (jl_value_bool J m ''delivered'' True) (\<lambda>d.
     Some \<lparr>fm_id = i, fm_from_uid = f, fm_to_uid = t, fm_content = c, fm_delivered = d\<rparr>)))))"

text \<open>The elements of an array member, or none when the member is missing.\<close>

definition load_members ::
  "('j, 't) json_lib \<Rightarrow> 'j \<Rightarrow> string \<Rightarrow> ('j \<Rightarrow> 'a option) \<Rightarrow> ('s, 'a list) prog" where
  "load_members J j k f =
     (if jl_contains J j k
      then bindP (json_try (jl_at J j k)) (\<lambda>a. mapP (\<lambda>x. json_try (f x)) (jl_elems J a))
      else ret [])"

definition load_users :: "('j, 't) json_lib \<Rightarrow> ('t, 'm, unit) db_prog" where
  "load_users J = bindP (getsP (\<lambda>s. load_json J s ''users.json'')) (\<lambda>j.
     bindP (json_try (jl_value_int J j ''next_uid'' 1000)) (\<lambda>n.
     seqP (modifyP (\<lambda>s. s\<lparr>file_next_uid := n, file_users := []\<rparr>))
     (bindP (load_members J j ''users'' (load_user J)) (\<lambda>us.
      modifyP (\<lambda>s. s\<lparr>file_users := us\<rparr>)))))"

definition load_friends :: "('j, 't) json_lib \<Rightarrow> ('t, 'm, unit) db_prog" where
  "load_friends J = bindP (getsP (\<lambda>s. load_json J s ''friends.json'')) (\<lambda>j.
     seqP (modifyP (\<lambda>s. s\<lparr>file_friends := []\<rparr>))
     (bindP (load_members J j ''pairs'' (load_pair J)) (\<lambda>ps.
      modifyP (\<lambda>s. s\<lparr>file_friends := ps\<rparr>))))"

definition load_reqs :: "('j, 't) json_lib \<Rightarrow> ('t, 'm, unit) db_prog" where
  "load_reqs J = bindP (getsP (\<lambda>s. load_json J s ''friend_requests.json'')) (\<lambda>j.
     bindP (json_try (jl_value_int J j ''next_id'' 1)) (\<lambda>n.
     seqP (modifyP (\<lambda>s. s\<lparr>file_next_req_id := n, file_friend_reqs := []\<rparr>))
     (bindP (load_members J j ''requests'' (load_req J)) (\<lambda>rs.
      modifyP (\<lambda>s. s\<lparr>file_friend_reqs := rs\<rparr>)))))"

definition load_msgs :: "('j, 't) json_lib \<Rightarrow> ('t, 'm, unit) db_prog" where
  "load_msgs J = bindP (getsP (\<lambda>s. load_json J s ''messages.json'')) (\<lambda>j.
     bindP (json_try (jl_value_int J j ''next_id'' 1)) (\<lambda>n.
     seqP (modifyP (\<lambda>s. s\<lparr>file_next_msg_id := n, file_messages := []\<rparr>))
     (bindP (load_members J j ''messages'' (load_msg J)) (\<lambda>ms.
      modifyP (\<lambda>s. s\<lparr>file_messages := ms\<rparr>)))))"

definition load_file_data :: "('j, 't) json_lib \<Rightarrow> ('t, 'm, unit) db_prog" where
  "load_file_data J = seqP (load_users J) (seqP (load_friends J) (seqP (load_reqs J) (load_msgs J)))"

section \<open>What is saved can be loaded\<close>

text \<open>Every integer of the stored data is a C++ \<open>int\<close>.\<close>

definition db_ints_ok :: "('t, 'm) db \<Rightarrow> bool" where
  "db_ints_ok s \<longleftrightarrow>
     int_ok (file_next_uid s) \<and> int_ok (file_next_req_id s) \<and> int_ok (file_next_msg_id s) \<and>
     list_all (\<lambda>u. int_ok (fu_uid u)) (file_users s) \<and>
     list_all (\<lambda>p. int_ok (fst p) \<and> int_ok (snd p)) (file_friends s) \<and>
     list_all (\<lambda>r. int_ok (fq_id r) \<and> int_ok (fq_from_uid r) \<and> int_ok (fq_to_uid r) \<and> int_ok (fq_status r))
       (file_friend_reqs s) \<and>
     list_all (\<lambda>m. int_ok (fm_id m) \<and> int_ok (fm_from_uid m) \<and> int_ok (fm_to_uid m)) (file_messages s)"

lemma load_user_json: "json_laws J \<Longrightarrow> int_ok (fu_uid u) \<Longrightarrow> load_user J (user_json J u) = Some u"
  by (simp add: load_user_def user_json_def field_int_def field_string_def json_at json_get_int
      json_get_string)

lemma load_pair_json:
  "json_laws J \<Longrightarrow> int_ok (fst p) \<Longrightarrow> int_ok (snd p) \<Longrightarrow> load_pair J (pair_json J p) = Some p"
  by (simp add: load_pair_def pair_json_def json_idx json_get_int)

lemma load_req_json:
  "json_laws J \<Longrightarrow> int_ok (fq_id r) \<Longrightarrow> int_ok (fq_from_uid r) \<Longrightarrow> int_ok (fq_to_uid r) \<Longrightarrow>
   int_ok (fq_status r) \<Longrightarrow> load_req J (req_json J r) = Some r"
  by (simp add: load_req_def req_json_def field_int_def json_at json_get_int json_value_int
      json_value_string)

lemma load_msg_json:
  "json_laws J \<Longrightarrow> int_ok (fm_id m) \<Longrightarrow> int_ok (fm_from_uid m) \<Longrightarrow> int_ok (fm_to_uid m) \<Longrightarrow>
   load_msg J (msg_json J m) = Some m"
  by (simp add: load_msg_def msg_json_def field_int_def field_string_def json_at json_get_int
      json_get_string json_value_bool)

lemma mapP_json_try:
  "list_all (\<lambda>x. f (g x) = Some x) xs \<Longrightarrow> mapP (\<lambda>x. json_try (f x)) (map g xs) s = (Val xs, s)"
  by (induction xs) (simp_all add: run_bindP)

lemma load_members_array:
  assumes "json_laws J" "distinct (map fst kvs)" "(k, jl_array J (map g xs)) \<in> set kvs"
    and "list_all (\<lambda>x. f (g x) = Some x) xs"
  shows "load_members J (jl_object J kvs) k f s = (Val xs, s)"
proof -
  have "k \<in> fst ` set kvs" using assms(3) by force
  then show ?thesis
    using assms by (simp add: load_members_def json_contains json_at json_elems run_bindP
        mapP_json_try)
qed

text \<open>
  The files hold the state: each file is the dump of what the state says, or it is missing and its
  part of the state is as it is in a new process.
\<close>

definition file_holds :: "('j, 't) json_lib \<Rightarrow> ('t, 'm) db \<Rightarrow> string \<Rightarrow> 'j \<Rightarrow> bool \<Rightarrow> bool" where
  "file_holds J s fn j initial \<longleftrightarrow>
     disk s (file_path fn) = None \<and> initial \<or>
     disk s (file_path fn) \<noteq> None \<and> disk s (file_path fn) = jl_dump J j"

definition held_users :: "('j, 't) json_lib \<Rightarrow> ('t, 'm) db \<Rightarrow> bool" where
  "held_users J s = file_holds J s ''users.json'' (users_json J s) (file_users s = [] \<and> file_next_uid s = 1000)"

definition held_friends :: "('j, 't) json_lib \<Rightarrow> ('t, 'm) db \<Rightarrow> bool" where
  "held_friends J s = file_holds J s ''friends.json'' (friends_json J s) (file_friends s = [])"

definition held_reqs :: "('j, 't) json_lib \<Rightarrow> ('t, 'm) db \<Rightarrow> bool" where
  "held_reqs J s = file_holds J s ''friend_requests.json'' (reqs_json J s) (file_friend_reqs s = [] \<and> file_next_req_id s = 1)"

definition held_msgs :: "('j, 't) json_lib \<Rightarrow> ('t, 'm) db \<Rightarrow> bool" where
  "held_msgs J s = file_holds J s ''messages.json'' (msgs_json J s) (file_messages s = [] \<and> file_next_msg_id s = 1)"

definition held :: "('j, 't) json_lib \<Rightarrow> ('t, 'm) db \<Rightarrow> bool" where
  "held J s \<longleftrightarrow> held_users J s \<and> held_friends J s \<and> held_reqs J s \<and> held_msgs J s"

lemmas held_defs = held_def held_users_def held_friends_def held_reqs_def held_msgs_def file_holds_def

lemma load_json_held:
  assumes "json_laws J" "disk s0 = disk s" "file_holds J s fn j initial"
  shows "load_json J s0 fn = j \<or> initial \<and> load_json J s0 fn = jl_object J []"
  using assms json_parse_dump [OF assms(1), of j]
  by (cases "jl_dump J j") (auto simp: file_holds_def load_json_def)

lemma load_members_missing: "json_laws J \<Longrightarrow> load_members J (jl_object J []) k f s = (Val [], s)"
  by (simp add: load_members_def json_contains)

lemma load_users_held:
  fixes s s0 :: "('t, 'm) db"
  assumes "json_laws J" "db_ints_ok s" "held J s" "disk s0 = disk s"
  shows "load_users J s0 = (Val (), s0\<lparr>file_users := file_users s, file_next_uid := file_next_uid s\<rparr>)"
proof -
  have "load_members J (users_json J s) ''users'' (load_user J) t = (Val (file_users s), t)" for t :: "('t, 'm) db"
    unfolding users_json_def using assms(1,2)
    by (intro load_members_array) (auto simp: db_ints_ok_def list_all_iff load_user_json)
  moreover have "jl_value_int J (users_json J s) ''next_uid'' 1000 = Some (file_next_uid s)"
    using assms(1,2) by (simp add: users_json_def json_value_int db_ints_ok_def)
  moreover have "file_holds J s ''users.json'' (users_json J s) (file_users s = [] \<and> file_next_uid s = 1000)"
    using assms(3) by (simp add: held_def held_users_def)
  note load_json_held [OF assms(1,4) this]
  ultimately show ?thesis
    using assms(1) by (auto simp: load_users_def run_bindP load_members_missing json_value_missing)
qed

lemma load_friends_held:
  fixes s s0 :: "('t, 'm) db"
  assumes "json_laws J" "db_ints_ok s" "held J s" "disk s0 = disk s"
  shows "load_friends J s0 = (Val (), s0\<lparr>file_friends := file_friends s\<rparr>)"
proof -
  have "load_members J (friends_json J s) ''pairs'' (load_pair J) t = (Val (file_friends s), t)" for t :: "('t, 'm) db"
    unfolding friends_json_def using assms(1,2)
    by (intro load_members_array) (auto simp: db_ints_ok_def list_all_iff load_pair_json)
  moreover have "file_holds J s ''friends.json'' (friends_json J s) (file_friends s = [])"
    using assms(3) by (simp add: held_def held_friends_def)
  note load_json_held [OF assms(1,4) this]
  ultimately show ?thesis
    using assms(1) by (auto simp: load_friends_def run_bindP load_members_missing)
qed

lemma load_reqs_held:
  fixes s s0 :: "('t, 'm) db"
  assumes "json_laws J" "db_ints_ok s" "held J s" "disk s0 = disk s"
  shows "load_reqs J s0 = (Val (), s0\<lparr>file_friend_reqs := file_friend_reqs s, file_next_req_id := file_next_req_id s\<rparr>)"
proof -
  have "load_members J (reqs_json J s) ''requests'' (load_req J) t = (Val (file_friend_reqs s), t)" for t :: "('t, 'm) db"
    unfolding reqs_json_def using assms(1,2)
    by (intro load_members_array) (auto simp: db_ints_ok_def list_all_iff load_req_json)
  moreover have "jl_value_int J (reqs_json J s) ''next_id'' 1 = Some (file_next_req_id s)"
    using assms(1,2) by (simp add: reqs_json_def json_value_int db_ints_ok_def)
  moreover have "file_holds J s ''friend_requests.json'' (reqs_json J s) (file_friend_reqs s = [] \<and> file_next_req_id s = 1)"
    using assms(3) by (simp add: held_def held_reqs_def)
  note load_json_held [OF assms(1,4) this]
  ultimately show ?thesis
    using assms(1) by (auto simp: load_reqs_def run_bindP load_members_missing json_value_missing)
qed

lemma load_msgs_held:
  fixes s s0 :: "('t, 'm) db"
  assumes "json_laws J" "db_ints_ok s" "held J s" "disk s0 = disk s"
  shows "load_msgs J s0 = (Val (), s0\<lparr>file_messages := file_messages s, file_next_msg_id := file_next_msg_id s\<rparr>)"
proof -
  have "load_members J (msgs_json J s) ''messages'' (load_msg J) t = (Val (file_messages s), t)" for t :: "('t, 'm) db"
    unfolding msgs_json_def using assms(1,2)
    by (intro load_members_array) (auto simp: db_ints_ok_def list_all_iff load_msg_json)
  moreover have "jl_value_int J (msgs_json J s) ''next_id'' 1 = Some (file_next_msg_id s)"
    using assms(1,2) by (simp add: msgs_json_def json_value_int db_ints_ok_def)
  moreover have "file_holds J s ''messages.json'' (msgs_json J s) (file_messages s = [] \<and> file_next_msg_id s = 1)"
    using assms(3) by (simp add: held_def held_msgs_def)
  note load_json_held [OF assms(1,4) this]
  ultimately show ?thesis
    using assms(1) by (auto simp: load_msgs_def run_bindP load_members_missing json_value_missing)
qed

text \<open>A process that starts with files that hold a state loads that state, and loading does not throw.\<close>

lemma load_held:
  fixes s s0 :: "('t, 'm) db"
  assumes "json_laws J" "db_ints_ok s" "held J s" "disk s0 = disk s"
  shows "load_file_data J s0 = (Val (), s0\<lparr>file_users := file_users s, file_friends := file_friends s,
    file_friend_reqs := file_friend_reqs s, file_messages := file_messages s,
    file_next_uid := file_next_uid s, file_next_req_id := file_next_req_id s,
    file_next_msg_id := file_next_msg_id s\<rparr>)"
  using assms(4)
  by (simp add: load_file_data_def run_seqP load_users_held [OF assms(1-3)] load_friends_held [OF assms(1-3)]
      load_reqs_held [OF assms(1-3)] load_msgs_held [OF assms(1-3)])

end
