(* ===== verification/Db_File.thy ===== *)
theory Db_File
  imports Db_State Texts
begin

text \<open>
  The file-storage branch of the operations of \<open>DBBatchWriter\<close> (\<open>src/db_writer.cpp\<close>): the part of
  each function under \<open>if (use_file_storage_)\<close>. Each runs under \<open>file_mutex_\<close>, so each is one step.
\<close>

section \<open>Password hashes\<close>

definition hex_char :: "nat \<Rightarrow> char" where
  "hex_char d = (if d < 10 then char_of (48 + d) else char_of (87 + d))"

fun hex_digits :: "nat \<Rightarrow> string" where
  "hex_digits n = (if n < 16 then [hex_char n] else hex_digits (n div 16) @ [hex_char (n mod 16)])"

declare hex_digits.simps [simp del]

text \<open>\<open>std::hex << std::setfill('0') << std::setw(16)\<close>.\<close>

definition file_hash :: "(string \<Rightarrow> 64 word) \<Rightarrow> string \<Rightarrow> string" where
  "file_hash hasher input =
     (let ds = hex_digits (unat (hasher (''im_salt_'' @ input)))
      in replicate (16 - length ds) (CHR ''0'') @ ds)"

section \<open>Users\<close>

definition file_register_user ::
  "('j, 't, 'm) externals \<Rightarrow> string \<Rightarrow> string \<Rightarrow> ('t, 'm, int) db_prog" where
  "file_register_user X username password = bindP (getsP id) (\<lambda>s.
     if list_ex (\<lambda>u. fu_username u = username) (file_users s) then ret (-2)
     else let uid = file_next_uid s in
       seqP (modifyP (\<lambda>s. s\<lparr>file_next_uid := file_next_uid s + 1,
         file_users := file_users s @ [\<lparr>fu_uid = uid, fu_username = username,
           fu_password_hash = file_hash (x_hash X) password\<rparr>]\<rparr>))
       (seqP (save_users_file (x_json X)) (ret uid)))"

definition file_verify_login ::
  "('j, 't, 'm) externals \<Rightarrow> string \<Rightarrow> string \<Rightarrow> ('t, 'm, int) db_prog" where
  "file_verify_login X username password = getsP (\<lambda>s.
     let h = file_hash (x_hash X) password in
     (case List.find (\<lambda>u. fu_username u = username \<and> fu_password_hash u = h) (file_users s) of
        Some u \<Rightarrow> fu_uid u
      | None \<Rightarrow> -1))"

text \<open>The loop of \<open>search_users\<close>: \<open>result\<close> is what it has found so far.\<close>

fun search_loop :: "string \<Rightarrow> (int \<times> string) list \<Rightarrow> FileUser list \<Rightarrow> (int \<times> string) list" where
  "search_loop kw_lower result [] = result"
| "search_loop kw_lower result (u # us) =
     (let uname_lower = map tolower (fu_username u);
          result' = (if str_contains uname_lower kw_lower then result @ [(fu_uid u, fu_username u)] else result)
      in if length result' \<ge> 20 then result' else search_loop kw_lower result' us)"

definition file_search_users :: "string \<Rightarrow> ('t, 'm, (int \<times> string) list) db_prog" where
  "file_search_users keyword = getsP (\<lambda>s. search_loop (map tolower keyword) [] (file_users s))"

text \<open>The name shown for a user id, with the text the code falls back to.\<close>

definition shown_name :: "FileUser list \<Rightarrow> int \<Rightarrow> string" where
  "shown_name us uid = (case List.find (\<lambda>u. fu_uid u = uid) us of
     Some u \<Rightarrow> fu_username u
   | None \<Rightarrow> txt_user @ to_string uid)"

definition file_get_username :: "int \<Rightarrow> ('t, 'm, string) db_prog" where
  "file_get_username uid = getsP (\<lambda>s.
     case List.find (\<lambda>u. fu_uid u = uid) (file_users s) of Some u \<Rightarrow> fu_username u | None \<Rightarrow> [])"

section \<open>Friends\<close>

definition file_add_friend_request ::
  "('j, 't, 'm) externals \<Rightarrow> int \<Rightarrow> int \<Rightarrow> string \<Rightarrow> ('t, 'm, int) db_prog" where
  "file_add_friend_request X from_uid to_uid msg = bindP (getsP id) (\<lambda>s.
     let lo = min from_uid to_uid; hi = max from_uid to_uid in
     if list_ex (\<lambda>p. fst p = lo \<and> snd p = hi) (file_friends s) then ret (-2)
     else if list_ex (\<lambda>r. fq_from_uid r = from_uid \<and> fq_to_uid r = to_uid \<and> fq_status r = 0) (file_friend_reqs s)
     then ret (-3)
     else let rid = file_next_req_id s in
       seqP (modifyP (\<lambda>s. s\<lparr>file_next_req_id := file_next_req_id s + 1,
         file_friend_reqs := file_friend_reqs s @ [\<lparr>fq_id = rid, fq_from_uid = from_uid, fq_to_uid = to_uid,
           fq_message = msg, fq_status = 0\<rparr>]\<rparr>))
       (seqP (save_friend_reqs_file (x_json X)) (ret rid)))"

text \<open>
  The loop of \<open>accept_friend_request\<close>: it marks the first matching request and yields its sender, or
  -1 when there is none.
\<close>

fun accept_loop :: "int \<Rightarrow> int \<Rightarrow> FileFriendRequest list \<Rightarrow> int \<times> FileFriendRequest list" where
  "accept_loop request_id acceptor_uid [] = (-1, [])"
| "accept_loop request_id acceptor_uid (r # rs) =
     (if fq_id r = request_id \<and> fq_to_uid r = acceptor_uid \<and> fq_status r = 0
      then (fq_from_uid r, r\<lparr>fq_status := 1\<rparr> # rs)
      else (case accept_loop request_id acceptor_uid rs of (f, rs') \<Rightarrow> (f, r # rs')))"

definition file_accept_friend_request ::
  "('j, 't, 'm) externals \<Rightarrow> int \<Rightarrow> int \<Rightarrow> ('t, 'm, int) db_prog" where
  "file_accept_friend_request X request_id acceptor_uid = bindP (getsP id) (\<lambda>s.
     case accept_loop request_id acceptor_uid (file_friend_reqs s) of (from_uid, reqs) \<Rightarrow>
       seqP (modifyP (\<lambda>s. s\<lparr>file_friend_reqs := reqs\<rparr>))
       (if from_uid < 0 then ret (-1)
        else let lo = min from_uid acceptor_uid; hi = max from_uid acceptor_uid in
          seqP (modifyP (\<lambda>s. s\<lparr>file_friends := file_friends s @ [(lo, hi)]\<rparr>))
          (seqP (save_friend_reqs_file (x_json X))
          (seqP (save_friends_file (x_json X)) (ret from_uid)))))"

fun friends_loop :: "int \<Rightarrow> FileUser list \<Rightarrow> (int \<times> int) list \<Rightarrow> (int \<times> string) list" where
  "friends_loop uid us [] = []"
| "friends_loop uid us (p # ps) =
     (if fst p = uid then (snd p, shown_name us (snd p)) # friends_loop uid us ps
      else if snd p = uid then (fst p, shown_name us (fst p)) # friends_loop uid us ps
      else friends_loop uid us ps)"

definition file_get_friends :: "int \<Rightarrow> ('t, 'm, (int \<times> string) list) db_prog" where
  "file_get_friends uid = getsP (\<lambda>s. friends_loop uid (file_users s) (file_friends s))"

fun pending_loop :: "int \<Rightarrow> FileUser list \<Rightarrow> FileFriendRequest list \<Rightarrow> (int \<times> int \<times> string \<times> string) list" where
  "pending_loop uid us [] = []"
| "pending_loop uid us (r # rs) =
     (if fq_to_uid r = uid \<and> fq_status r = 0
      then (fq_id r, fq_from_uid r, shown_name us (fq_from_uid r), fq_message r) # pending_loop uid us rs
      else pending_loop uid us rs)"

text \<open>The loop of \<open>get_pending_requests\<close> runs over the requests backwards.\<close>

definition file_get_pending_requests ::
  "int \<Rightarrow> ('t, 'm, (int \<times> int \<times> string \<times> string) list) db_prog" where
  "file_get_pending_requests uid = getsP (\<lambda>s. pending_loop uid (file_users s) (rev (file_friend_reqs s)))"

section \<open>Messages\<close>

fun offline_loop :: "int \<Rightarrow> FileMessage list \<Rightarrow> DBChatMessage list" where
  "offline_loop uid [] = []"
| "offline_loop uid (m # ms) =
     (if fm_to_uid m = uid \<and> \<not> fm_delivered m
      then \<lparr>dm_id = fm_id m, dm_from_uid = fm_from_uid m, dm_to_uid = fm_to_uid m,
             dm_content = fm_content m, dm_delivered = False\<rparr> # offline_loop uid ms
      else offline_loop uid ms)"

definition file_query_offline_messages :: "int \<Rightarrow> ('t, 'm, DBChatMessage list) db_prog" where
  "file_query_offline_messages uid = getsP (\<lambda>s. offline_loop uid (file_messages s))"

definition file_mark_delivered :: "('j, 't, 'm) externals \<Rightarrow> int \<Rightarrow> int \<Rightarrow> ('t, 'm, unit) db_prog" where
  "file_mark_delivered X uid max_id =
     seqP (modifyP (\<lambda>s. s\<lparr>file_messages := map (\<lambda>m.
       if fm_to_uid m = uid \<and> fm_id m \<le> max_id then m\<lparr>fm_delivered := True\<rparr> else m) (file_messages s)\<rparr>))
     (save_messages_file (x_json X))"

text \<open>The file branch of one round of \<open>DBBatchWriter::loop\<close>: append the batch and save.\<close>

definition store_message :: "DBChatMessage \<Rightarrow> ('t, 'm) db \<Rightarrow> ('t, 'm) db" where
  "store_message m s = s\<lparr>file_next_msg_id := file_next_msg_id s + 1,
     file_messages := file_messages s @ [\<lparr>fm_id = file_next_msg_id s, fm_from_uid = dm_from_uid m,
       fm_to_uid = dm_to_uid m, fm_content = dm_content m, fm_delivered = dm_delivered m\<rparr>]\<rparr>"

definition file_store_batch :: "('j, 't, 'm) externals \<Rightarrow> DBChatMessage list \<Rightarrow> ('t, 'm, unit) db_prog" where
  "file_store_batch X batch = seqP (forP batch (\<lambda>m. modifyP (store_message m))) (save_messages_file (x_json X))"

section \<open>Laws of saving\<close>

text \<open>A save changes nothing but the disk.\<close>

definition same_data :: "('t, 'm) db \<Rightarrow> ('t, 'm) db \<Rightarrow> bool" where
  "same_data s s' \<longleftrightarrow> (\<exists>d. s' = s\<lparr>disk := d\<rparr>)"

lemma write_json_data: "write_json J fn j s = (r, s') \<Longrightarrow> same_data s s'"
  by (auto simp: write_json_def same_data_def Let_def intro: exI [of _ "disk s"] split: if_splits option.splits)

lemmas save_defs = save_users_file_def save_friends_file_def save_friend_reqs_file_def save_messages_file_def

lemma save_data:
  "save_users_file J s = (r, s') \<Longrightarrow> same_data s s'"
  "save_friends_file J s = (r, s') \<Longrightarrow> same_data s s'"
  "save_friend_reqs_file J s = (r, s') \<Longrightarrow> same_data s s'"
  "save_messages_file J s = (r, s') \<Longrightarrow> same_data s s'"
  by (auto simp: save_defs run_bindP intro: write_json_data)

lemma same_data_sel:
  assumes "same_data s s'"
  shows "file_users s' = file_users s" "file_friends s' = file_friends s"
    "file_friend_reqs s' = file_friend_reqs s" "file_messages s' = file_messages s"
    "file_next_uid s' = file_next_uid s" "file_next_req_id s' = file_next_req_id s"
    "file_next_msg_id s' = file_next_msg_id s" "db_queue s' = db_queue s"
    "use_file_storage s' = use_file_storage s" "can_write s' = can_write s"
  using assms by (auto simp: same_data_def)

end
