(* ===== verification/Db_Mysql.thy ===== *)
theory Db_Mysql
  imports Db_File
begin

text \<open>
  The MySQL branch of the operations of \<open>DBBatchWriter\<close> (\<open>src/db_writer.cpp\<close>), over the client library
  of \<open>Externals\<close>. The SQL texts are those of the source; a single quote is \<open>sq\<close>.
\<close>

section \<open>Library calls\<close>

definition c_str :: "string \<Rightarrow> string" where
  "c_str s = takeWhile (\<lambda>c. c \<noteq> CHR 0x00) s"

definition sq :: string where
  "sq = [CHR 0x27]"

definition mysql_query :: "'m mysql_lib \<Rightarrow> string \<Rightarrow> ('t, 'm, bool) db_prog" where
  "mysql_query M sql = (\<lambda>s. case my_query M (c_str sql) (mysql_world s) of
     (ok, w) \<Rightarrow> (Val ok, s\<lparr>mysql_world := w\<rparr>))"

definition mysql_store_result :: "'m mysql_lib \<Rightarrow> ('t, 'm, row list option) db_prog" where
  "mysql_store_result M = (\<lambda>s. case my_store_result M (mysql_world s) of
     (res, w) \<Rightarrow> (Val res, s\<lparr>mysql_world := w\<rparr>))"

definition mysql_insert_id :: "'m mysql_lib \<Rightarrow> ('t, 'm, int) db_prog" where
  "mysql_insert_id M = getsP (\<lambda>s. cast_i32 (int (my_insert_id M (mysql_world s))))"

definition esc :: "'m mysql_lib \<Rightarrow> string \<Rightarrow> ('t, 'm, string) db_prog" where
  "esc M str = getsP (\<lambda>s. c_str (my_real_escape_string M str (mysql_world s)))"

text \<open>A column of a row, and \<open>std::stoi\<close> and \<open>std::stoll\<close> on it.\<close>

definition col :: "row \<Rightarrow> nat \<Rightarrow> string option" where
  "col r i = (if i < length r then r ! i else None)"

definition text_col :: "row \<Rightarrow> nat \<Rightarrow> string" where
  "text_col r i = (case col r i of Some t \<Rightarrow> t | None \<Rightarrow> [])"

definition stox :: "int \<Rightarrow> int \<Rightarrow> string option \<Rightarrow> ('s, int) prog" where
  "stox lo hi c = (case c of
     None \<Rightarrow> throwP (RuntimeError ''logic_error'')
   | Some t \<Rightarrow> (case parse_int lo hi t of Inl e \<Rightarrow> throwP e | Inr v \<Rightarrow> ret v))"

definition stoi :: "string option \<Rightarrow> ('s, int) prog" where
  "stoi = stox INT_MIN INT_MAX"

definition stoll :: "string option \<Rightarrow> ('s, int) prog" where
  "stoll = stox (- 9223372036854775808) 9223372036854775807"

section \<open>Connecting\<close>

definition create_users :: string where
  "create_users = ''CREATE TABLE IF NOT EXISTS users ('' @
     ''  uid INT AUTO_INCREMENT PRIMARY KEY,'' @
     ''  username VARCHAR(64) NOT NULL UNIQUE,'' @
     ''  password_hash CHAR(64) NOT NULL,'' @
     ''  created_at DATETIME(3) NOT NULL DEFAULT CURRENT_TIMESTAMP(3)'' @
     '') ENGINE=InnoDB DEFAULT CHARSET=utf8mb4''"

definition create_msgs :: string where
  "create_msgs = ''CREATE TABLE IF NOT EXISTS messages ('' @
     ''  id BIGINT AUTO_INCREMENT PRIMARY KEY,'' @
     ''  from_uid INT NOT NULL,'' @
     ''  to_uid INT NOT NULL,'' @
     ''  content TEXT NOT NULL,'' @
     ''  delivered TINYINT(1) NOT NULL DEFAULT 1,'' @
     ''  created_at DATETIME(3) NOT NULL DEFAULT CURRENT_TIMESTAMP(3),'' @
     ''  INDEX idx_from_uid (from_uid),'' @
     ''  INDEX idx_to_uid (to_uid),'' @
     ''  INDEX idx_delivered (delivered),'' @
     ''  INDEX idx_created_at (created_at)'' @
     '') ENGINE=InnoDB DEFAULT CHARSET=utf8mb4''"

definition create_friends :: string where
  "create_friends = ''CREATE TABLE IF NOT EXISTS friends ('' @
     ''  id INT AUTO_INCREMENT PRIMARY KEY,'' @
     ''  uid1 INT NOT NULL,'' @
     ''  uid2 INT NOT NULL,'' @
     ''  created_at DATETIME(3) NOT NULL DEFAULT CURRENT_TIMESTAMP(3),'' @
     ''  UNIQUE INDEX idx_pair ((LEAST(uid1,uid2)), (GREATEST(uid1,uid2))),'' @
     ''  INDEX idx_uid1 (uid1),'' @
     ''  INDEX idx_uid2 (uid2)'' @
     '') ENGINE=InnoDB DEFAULT CHARSET=utf8mb4''"

definition create_friend_reqs :: string where
  "create_friend_reqs = ''CREATE TABLE IF NOT EXISTS friend_requests ('' @
     ''  id INT AUTO_INCREMENT PRIMARY KEY,'' @
     ''  from_uid INT NOT NULL,'' @
     ''  to_uid INT NOT NULL,'' @
     ''  message VARCHAR(255) DEFAULT '' @ sq @ sq @ '','' @
     ''  status TINYINT(1) NOT NULL DEFAULT 0,'' @
     ''  created_at DATETIME(3) NOT NULL DEFAULT CURRENT_TIMESTAMP(3),'' @
     ''  INDEX idx_to_uid (to_uid),'' @
     ''  INDEX idx_from_uid (from_uid)'' @
     '') ENGINE=InnoDB DEFAULT CHARSET=utf8mb4''"

definition connect_db :: "'m mysql_lib \<Rightarrow> ('t, 'm, bool) db_prog" where
  "connect_db M =
     seqP (modifyP (\<lambda>s. if mysql_set s then s\<lparr>mysql_world := my_close M (mysql_world s)\<rparr> else s))
     (seqP (modifyP (\<lambda>s. case my_init M (mysql_world s) of
        (ok, w) \<Rightarrow> s\<lparr>mysql_set := ok, mysql_world := w\<rparr>))
     (bindP (getsP mysql_set) (\<lambda>set.
        if \<not> set then ret False
        else bindP (\<lambda>s. case my_real_connect M (mysql_world s) of (ok, w) \<Rightarrow> (Val ok, s\<lparr>mysql_world := w\<rparr>)) (\<lambda>ok.
        if \<not> ok then ret False
        else bindP (mysql_query M create_users) (\<lambda>ok.
        if \<not> ok then ret False
        else bindP (mysql_query M create_msgs) (\<lambda>ok.
        if \<not> ok then ret False
        else bindP (mysql_query M create_friends) (\<lambda>ok.
        if \<not> ok then ret False
        else bindP (mysql_query M create_friend_reqs) (\<lambda>ok.
        if \<not> ok then ret False
        else ret True))))))))"

definition ensure_connected :: "'m mysql_lib \<Rightarrow> ('t, 'm, bool) db_prog" where
  "ensure_connected M = bindP (getsP id) (\<lambda>s.
     if use_file_storage s then ret True
     else bindP (if mysql_set s
                 then (\<lambda>s. case my_ping M (mysql_world s) of (ok, w) \<Rightarrow> (Val ok, s\<lparr>mysql_world := w\<rparr>))
                 else ret False) (\<lambda>alive.
       if alive then ret True else connect_db M))"

section \<open>The operations\<close>

text \<open>\<open>if (mysql_query(...) == 0) { r = mysql_store_result; ... mysql_num_rows(r) > 0 ... }\<close>.\<close>

definition query_has_rows :: "'m mysql_lib \<Rightarrow> string \<Rightarrow> ('t, 'm, bool) db_prog" where
  "query_has_rows M sql = bindP (mysql_query M sql) (\<lambda>ok.
     if ok then bindP (mysql_store_result M) (\<lambda>res.
       ret (case res of None \<Rightarrow> False | Some rows \<Rightarrow> rows \<noteq> []))
     else ret False)"

text \<open>A query whose rows are converted one by one; no rows when it fails.\<close>

definition query_rows :: "'m mysql_lib \<Rightarrow> string \<Rightarrow> (row \<Rightarrow> ('t, 'm, 'a) db_prog) \<Rightarrow> ('t, 'm, 'a list) db_prog" where
  "query_rows M sql f = bindP (mysql_query M sql) (\<lambda>ok.
     if \<not> ok then ret []
     else bindP (mysql_store_result M) (\<lambda>res.
       case res of None \<Rightarrow> ret [] | Some rows \<Rightarrow> mapP f rows))"

definition mysql_register_user :: "'m mysql_lib \<Rightarrow> string \<Rightarrow> string \<Rightarrow> ('t, 'm, int) db_prog" where
  "mysql_register_user M username password = bindP (ensure_connected M) (\<lambda>c.
     if \<not> c then ret (-1)
     else bindP (esc M username) (\<lambda>eu.
     bindP (query_has_rows M (''SELECT uid FROM users WHERE username='' @ sq @ eu @ sq)) (\<lambda>dup.
     if dup then ret (-2)
     else bindP (esc M password) (\<lambda>ep.
     bindP (mysql_query M (''INSERT INTO users (username,password_hash) VALUES ('' @ sq @ eu @ sq @ '',SHA2('' @ sq @ ep @ sq @ '',256))''))
     (\<lambda>ok. if \<not> ok then ret (-1) else mysql_insert_id M)))))"

definition mysql_verify_login :: "'m mysql_lib \<Rightarrow> string \<Rightarrow> string \<Rightarrow> ('t, 'm, int) db_prog" where
  "mysql_verify_login M username password = bindP (ensure_connected M) (\<lambda>c.
     if \<not> c then ret (-1)
     else bindP (esc M username) (\<lambda>eu. bindP (esc M password) (\<lambda>ep.
     bindP (mysql_query M (''SELECT uid FROM users WHERE username='' @ sq @ eu @ sq @
       '' AND password_hash=SHA2('' @ sq @ ep @ sq @ '',256)'')) (\<lambda>ok.
     if \<not> ok then ret (-1)
     else bindP (mysql_store_result M) (\<lambda>res. case res of
       None \<Rightarrow> ret (-1)
     | Some [] \<Rightarrow> ret (-1)
     | Some (r # rs) \<Rightarrow> stoi (col r 0))))))"

definition mysql_query_offline_messages :: "'m mysql_lib \<Rightarrow> int \<Rightarrow> ('t, 'm, DBChatMessage list) db_prog" where
  "mysql_query_offline_messages M uid = bindP (ensure_connected M) (\<lambda>c.
     if \<not> c then ret []
     else query_rows M (''SELECT id,from_uid,to_uid,content FROM messages WHERE to_uid='' @ to_string uid @
       '' AND delivered=0 ORDER BY id'') (\<lambda>r.
       bindP (stoll (col r 0)) (\<lambda>i. bindP (stoi (col r 1)) (\<lambda>f. bindP (stoi (col r 2)) (\<lambda>t.
       ret \<lparr>dm_id = i, dm_from_uid = f, dm_to_uid = t, dm_content = text_col r 3, dm_delivered = False\<rparr>)))))"

definition mysql_search_users :: "'m mysql_lib \<Rightarrow> string \<Rightarrow> ('t, 'm, (int \<times> string) list) db_prog" where
  "mysql_search_users M keyword = bindP (ensure_connected M) (\<lambda>c.
     if \<not> c then ret []
     else bindP (esc M keyword) (\<lambda>ek.
     query_rows M (''SELECT uid,username FROM users WHERE username LIKE '' @ sq @ ''%'' @ ek @ ''%'' @ sq @ '' LIMIT 20'')
       (\<lambda>r. bindP (stoi (col r 0)) (\<lambda>i. ret (i, text_col r 1)))))"

definition mysql_add_friend_request :: "'m mysql_lib \<Rightarrow> int \<Rightarrow> int \<Rightarrow> string \<Rightarrow> ('t, 'm, int) db_prog" where
  "mysql_add_friend_request M from_uid to_uid msg = bindP (ensure_connected M) (\<lambda>c.
     if \<not> c then ret (-1)
     else bindP (query_has_rows M (''SELECT id FROM friends WHERE (uid1=LEAST('' @ to_string from_uid @ '','' @
       to_string to_uid @ '') AND uid2=GREATEST('' @ to_string from_uid @ '','' @ to_string to_uid @ ''))'')) (\<lambda>friends.
     if friends then ret (-2)
     else bindP (query_has_rows M (''SELECT id FROM friend_requests WHERE from_uid='' @ to_string from_uid @
       '' AND to_uid='' @ to_string to_uid @ '' AND status=0'')) (\<lambda>dup.
     if dup then ret (-3)
     else bindP (esc M msg) (\<lambda>em.
     bindP (mysql_query M (''INSERT INTO friend_requests (from_uid,to_uid,message) VALUES ('' @ to_string from_uid @
       '','' @ to_string to_uid @ '','' @ sq @ em @ sq @ '')'')) (\<lambda>ok.
     if \<not> ok then ret (-1) else mysql_insert_id M)))))"

definition mysql_accept_friend_request :: "'m mysql_lib \<Rightarrow> int \<Rightarrow> int \<Rightarrow> ('t, 'm, int) db_prog" where
  "mysql_accept_friend_request M request_id acceptor_uid = bindP (ensure_connected M) (\<lambda>c.
     if \<not> c then ret (-1)
     else bindP (mysql_query M (''SELECT from_uid,to_uid FROM friend_requests WHERE id='' @ to_string request_id @
       '' AND to_uid='' @ to_string acceptor_uid @ '' AND status=0'')) (\<lambda>ok.
     if \<not> ok then ret (-1)
     else bindP (mysql_store_result M) (\<lambda>res. case res of
       None \<Rightarrow> ret (-1)
     | Some [] \<Rightarrow> ret (-1)
     | Some (r # rs) \<Rightarrow>
         bindP (stoi (col r 0)) (\<lambda>from_uid. bindP (stoi (col r 1)) (\<lambda>to_uid.
         bindP (mysql_query M (''UPDATE friend_requests SET status=1 WHERE id='' @ to_string request_id)) (\<lambda>_.
         bindP (mysql_query M (''INSERT INTO friends (uid1,uid2) VALUES ('' @ to_string (min from_uid to_uid) @
           '','' @ to_string (max from_uid to_uid) @ '')'')) (\<lambda>ok.
         if \<not> ok then ret (-1) else ret from_uid)))))))"

definition mysql_get_friends :: "'m mysql_lib \<Rightarrow> int \<Rightarrow> ('t, 'm, (int \<times> string) list) db_prog" where
  "mysql_get_friends M uid = bindP (ensure_connected M) (\<lambda>c.
     if \<not> c then ret []
     else query_rows M (''SELECT u.uid,u.username FROM users u INNER JOIN friends f ON '' @
       ''(u.uid=f.uid1 OR u.uid=f.uid2) WHERE (f.uid1='' @ to_string uid @ '' OR f.uid2='' @ to_string uid @
       '') AND u.uid!='' @ to_string uid)
       (\<lambda>r. bindP (stoi (col r 0)) (\<lambda>i. ret (i, text_col r 1))))"

definition mysql_get_pending_requests ::
  "'m mysql_lib \<Rightarrow> int \<Rightarrow> ('t, 'm, (int \<times> int \<times> string \<times> string) list) db_prog" where
  "mysql_get_pending_requests M uid = bindP (ensure_connected M) (\<lambda>c.
     if \<not> c then ret []
     else query_rows M (''SELECT fr.id,fr.from_uid,u.username,fr.message FROM friend_requests fr '' @
       ''INNER JOIN users u ON fr.from_uid=u.uid WHERE fr.to_uid='' @ to_string uid @
       '' AND fr.status=0 ORDER BY fr.id DESC'')
       (\<lambda>r. bindP (stoi (col r 0)) (\<lambda>i. bindP (stoi (col r 1)) (\<lambda>f.
         ret (i, f, text_col r 2, text_col r 3)))))"

definition mysql_get_username :: "'m mysql_lib \<Rightarrow> int \<Rightarrow> ('t, 'm, string) db_prog" where
  "mysql_get_username M uid = bindP (ensure_connected M) (\<lambda>c.
     if \<not> c then ret []
     else bindP (mysql_query M (''SELECT username FROM users WHERE uid='' @ to_string uid)) (\<lambda>ok.
     if \<not> ok then ret []
     else bindP (mysql_store_result M) (\<lambda>res. case res of
       None \<Rightarrow> ret []
     | Some [] \<Rightarrow> ret []
     | Some (r # rs) \<Rightarrow> ret (text_col r 0))))"

definition mysql_mark_delivered :: "'m mysql_lib \<Rightarrow> int \<Rightarrow> int \<Rightarrow> ('t, 'm, unit) db_prog" where
  "mysql_mark_delivered M uid max_id = bindP (ensure_connected M) (\<lambda>c.
     if \<not> c then ret ()
     else bindP (mysql_query M (''UPDATE messages SET delivered=1 WHERE to_uid='' @ to_string uid @
       '' AND delivered=0 AND id<='' @ to_string max_id)) (\<lambda>_. ret ()))"

text \<open>The MySQL branch of one round of \<open>DBBatchWriter::loop\<close>: one \<open>INSERT\<close> for the whole batch.\<close>

fun batch_values :: "'m mysql_lib \<Rightarrow> bool \<Rightarrow> DBChatMessage list \<Rightarrow> ('t, 'm, string) db_prog" where
  "batch_values M first [] = ret []"
| "batch_values M first (m # ms) = bindP (esc M (dm_content m)) (\<lambda>ec.
     bindP (batch_values M False ms) (\<lambda>rest.
     ret ((if first then [] else '','') @ ''('' @ to_string (dm_from_uid m) @ '','' @ to_string (dm_to_uid m) @ '','' @ sq @
       ec @ sq @ '','' @ (if dm_delivered m then ''1'' else ''0'') @ '')'' @ rest)))"

definition mysql_store_batch :: "'m mysql_lib \<Rightarrow> DBChatMessage list \<Rightarrow> ('t, 'm, unit) db_prog" where
  "mysql_store_batch M batch = bindP (ensure_connected M) (\<lambda>c.
     if c then bindP (batch_values M True batch) (\<lambda>vs.
       bindP (mysql_query M (''INSERT INTO messages (from_uid,to_uid,content,delivered) VALUES '' @ vs)) (\<lambda>_. ret ()))
     else ret ())"

end
