(* ===== verification/Db_Writer.thy ===== *)
theory Db_Writer
  imports Db_Mysql
begin

text \<open>
  The interface of \<open>DBBatchWriter\<close> (\<open>include/db_writer.h\<close>, \<open>src/db_writer.cpp\<close>): every operation looks
  at \<open>use_file_storage_\<close> and runs the file branch or the MySQL branch; chat messages go through a
  queue that a thread of its own empties in batches.
\<close>

section \<open>Operations\<close>

definition dispatch :: "('t, 'm, 'a) db_prog \<Rightarrow> ('t, 'm, 'a) db_prog \<Rightarrow> ('t, 'm, 'a) db_prog" where
  "dispatch file_branch mysql_branch = bindP (getsP use_file_storage) (\<lambda>f. if f then file_branch else mysql_branch)"

definition register_user :: "('j, 't, 'm) externals \<Rightarrow> string \<Rightarrow> string \<Rightarrow> ('t, 'm, int) db_prog" where
  "register_user X username password =
     dispatch (file_register_user X username password) (mysql_register_user (x_mysql X) username password)"

definition verify_login :: "('j, 't, 'm) externals \<Rightarrow> string \<Rightarrow> string \<Rightarrow> ('t, 'm, int) db_prog" where
  "verify_login X username password =
     dispatch (file_verify_login X username password) (mysql_verify_login (x_mysql X) username password)"

definition query_offline_messages :: "('j, 't, 'm) externals \<Rightarrow> int \<Rightarrow> ('t, 'm, DBChatMessage list) db_prog" where
  "query_offline_messages X uid =
     dispatch (file_query_offline_messages uid) (mysql_query_offline_messages (x_mysql X) uid)"

definition search_users :: "('j, 't, 'm) externals \<Rightarrow> string \<Rightarrow> ('t, 'm, (int \<times> string) list) db_prog" where
  "search_users X keyword = dispatch (file_search_users keyword) (mysql_search_users (x_mysql X) keyword)"

definition add_friend_request :: "('j, 't, 'm) externals \<Rightarrow> int \<Rightarrow> int \<Rightarrow> string \<Rightarrow> ('t, 'm, int) db_prog" where
  "add_friend_request X from_uid to_uid msg =
     dispatch (file_add_friend_request X from_uid to_uid msg) (mysql_add_friend_request (x_mysql X) from_uid to_uid msg)"

definition accept_friend_request :: "('j, 't, 'm) externals \<Rightarrow> int \<Rightarrow> int \<Rightarrow> ('t, 'm, int) db_prog" where
  "accept_friend_request X request_id acceptor_uid =
     dispatch (file_accept_friend_request X request_id acceptor_uid)
       (mysql_accept_friend_request (x_mysql X) request_id acceptor_uid)"

definition get_friends :: "('j, 't, 'm) externals \<Rightarrow> int \<Rightarrow> ('t, 'm, (int \<times> string) list) db_prog" where
  "get_friends X uid = dispatch (file_get_friends uid) (mysql_get_friends (x_mysql X) uid)"

definition get_pending_requests ::
  "('j, 't, 'm) externals \<Rightarrow> int \<Rightarrow> ('t, 'm, (int \<times> int \<times> string \<times> string) list) db_prog" where
  "get_pending_requests X uid = dispatch (file_get_pending_requests uid) (mysql_get_pending_requests (x_mysql X) uid)"

definition get_username :: "('j, 't, 'm) externals \<Rightarrow> int \<Rightarrow> ('t, 'm, string) db_prog" where
  "get_username X uid = dispatch (file_get_username uid) (mysql_get_username (x_mysql X) uid)"

definition mark_delivered :: "('j, 't, 'm) externals \<Rightarrow> int \<Rightarrow> int \<Rightarrow> ('t, 'm, unit) db_prog" where
  "mark_delivered X uid max_id = dispatch (file_mark_delivered X uid max_id) (mysql_mark_delivered (x_mysql X) uid max_id)"

section \<open>The batch queue\<close>

definition submit :: "DBChatMessage \<Rightarrow> ('t, 'm, unit) db_prog" where
  "submit m = modifyP (\<lambda>s. s\<lparr>db_queue := db_queue s @ [m]\<rparr>)"

text \<open>
  One round of \<open>loop\<close>, after the wait: at most 100 messages leave the queue and are stored together.
  The vector \<open>batch\<close> is empty when a round begins.
\<close>

definition loop_round :: "('j, 't, 'm) externals \<Rightarrow> ('t, 'm, unit) db_prog" where
  "loop_round X = bindP (getsP (\<lambda>s. take 100 (db_queue s))) (\<lambda>batch.
     seqP (modifyP (\<lambda>s. s\<lparr>db_queue := drop 100 (db_queue s)\<rparr>))
     (if batch = [] then ret ()
      else dispatch (file_store_batch X batch) (mysql_store_batch (x_mysql X) batch)))"

text \<open>The thread: an exception that leaves \<open>loop\<close> ends the process.\<close>

definition writer_round :: "('j, 't, 'm) externals \<Rightarrow> ('t, 'm, unit) db_prog" where
  "writer_round X = threadP (bindP (getsP db_running) (\<lambda>r. if r then loop_round X else ret ()))"

section \<open>Life cycle\<close>

definition DBBatchWriter :: "('j, 't, 'm) externals \<Rightarrow> ('t, 'm, unit) db_prog" where
  "DBBatchWriter X = bindP (connect_db (x_mysql X)) (\<lambda>ok.
     if \<not> ok then seqP (modifyP (\<lambda>s. s\<lparr>use_file_storage := True\<rparr>)) (load_file_data (x_json X))
     else ret ())"

text \<open>The object before its constructor's body runs, on a machine with files \<open>d\<close> and database \<open>w\<close>.\<close>

definition new_db :: "(string \<rightharpoonup> 't) \<Rightarrow> (string \<Rightarrow> bool) \<Rightarrow> 'm \<Rightarrow> ('t, 'm) db" where
  "new_db d cw w = \<lparr>use_file_storage = False, file_users = [], file_friends = [], file_friend_reqs = [],
     file_messages = [], file_next_uid = 1000, file_next_req_id = 1, file_next_msg_id = 1, db_queue = [],
     db_running = True, disk = d, can_write = cw, mysql_set = False, mysql_world = w\<rparr>"

end
