(* ===== verification/Db_Correct.thy ===== *)
theory Db_Correct
  imports Db_Writer
begin

text \<open>
  What \<open>DBBatchWriter\<close> guarantees: the invariant of the file storage, accounts (contract
  \<open>account_store\<close>), search, friendships, offline messages and the batch queue.
\<close>

section \<open>The invariant of the file storage\<close>

definition file_inv :: "('t, 'm) db \<Rightarrow> bool" where
  "file_inv s \<longleftrightarrow>
     distinct (map fu_username (file_users s)) \<and> distinct (map fu_uid (file_users s)) \<and>
     (\<forall>u \<in> set (file_users s). 0 < fu_uid u \<and> fu_uid u < file_next_uid s) \<and> 0 < file_next_uid s \<and>
     distinct (map fq_id (file_friend_reqs s)) \<and>
     (\<forall>r \<in> set (file_friend_reqs s). fq_id r < file_next_req_id s) \<and> 0 < file_next_req_id s \<and>
     sorted_wrt (<) (map fm_id (file_messages s)) \<and>
     (\<forall>m \<in> set (file_messages s). fm_id m < file_next_msg_id s) \<and>
     (\<forall>p \<in> set (file_friends s). fst p \<le> snd p)"

definition file_mode :: "('t, 'm) db \<Rightarrow> bool" where
  "file_mode s \<longleftrightarrow> use_file_storage s \<and> file_inv s"

lemma file_inv_new: "file_inv (new_db d cw w)"
  by (simp add: file_inv_def new_db_def)

lemma file_mode_disk [simp]: "file_mode (s\<lparr>disk := d\<rparr>) = file_mode s"
  by (simp add: file_mode_def file_inv_def)

lemma file_mode_same_data: "same_data s s' \<Longrightarrow> file_mode s \<Longrightarrow> file_mode s'"
  by (auto simp: same_data_def)

lemma keeps_same_data:
  fixes m :: "('t, 'm, 'a) db_prog"
  assumes "\<And>s r s'. m s = (r, s') \<Longrightarrow> same_data s s'"
  shows "keeps file_mode m"
proof (rule keepsI)
  fix s :: "('t, 'm) db"
  assume "file_mode s"
  moreover have "same_data s (snd (m s))" using assms [of s "fst (m s)" "snd (m s)"] by simp
  ultimately show "file_mode (snd (m s))" by (simp add: file_mode_same_data)
qed

lemma keeps_save [keeps_intros]:
  "keeps file_mode (save_users_file J)" "keeps file_mode (save_friends_file J)"
  "keeps file_mode (save_friend_reqs_file J)" "keeps file_mode (save_messages_file J)"
  by (auto intro!: keeps_same_data dest: save_data)

text \<open>In file mode only the file branch of an operation matters.\<close>

lemma keeps_dispatch [keeps_intros]: "keeps file_mode f \<Longrightarrow> keeps file_mode (dispatch f m)"
  by (auto simp: keeps_def dispatch_def run_bindP file_mode_def)

lemma keeps_getsP_bind:
  "(\<And>s. I s \<Longrightarrow> I (snd (f (g s) s))) \<Longrightarrow> keeps I (bindP (getsP g) f)"
  by (simp add: keeps_def run_bindP)

lemma file_mode_add_user:
  assumes "file_mode s" "username \<notin> fu_username ` set (file_users s)"
  shows "file_mode (s\<lparr>file_next_uid := file_next_uid s + 1, file_users := file_users s @
    [\<lparr>fu_uid = file_next_uid s, fu_username = username, fu_password_hash = h\<rparr>]\<rparr>)"
  using assms by (force simp: file_mode_def file_inv_def)

lemma keeps_register_user [keeps_intros]: "keeps file_mode (register_user X u p)"
  unfolding register_user_def file_register_user_def
proof (intro keeps_dispatch keeps_getsP_bind, goal_cases)
  case (1 s)
  show ?case
  proof (cases "u \<in> fu_username ` set (file_users s)")
    case True
    then show ?thesis using 1 by (auto simp: list_ex_iff)
  next
    case False
    with 1 file_mode_add_user have "file_mode (s\<lparr>file_next_uid := file_next_uid s + 1, file_users := file_users s @
        [\<lparr>fu_uid = file_next_uid s, fu_username = u, fu_password_hash = file_hash (x_hash X) p\<rparr>]\<rparr>)" by blast
    moreover have "keeps file_mode (seqP (save_users_file (x_json X)) (ret (file_next_uid s)))"
      by (intro keeps_intros)
    ultimately show ?thesis using False
      by (auto simp: list_ex_iff Let_def intro: keepsD)
  qed
qed

lemma file_mode_add_req:
  assumes "file_mode s"
  shows "file_mode (s\<lparr>file_next_req_id := file_next_req_id s + 1, file_friend_reqs := file_friend_reqs s @
    [\<lparr>fq_id = file_next_req_id s, fq_from_uid = f, fq_to_uid = t, fq_message = m, fq_status = st\<rparr>]\<rparr>)"
  using assms by (force simp: file_mode_def file_inv_def)

lemma keeps_add_friend_request [keeps_intros]: "keeps file_mode (add_friend_request X f t m)"
  unfolding add_friend_request_def file_add_friend_request_def
proof (intro keeps_dispatch keeps_getsP_bind, goal_cases)
  case (1 s)
  have "keeps file_mode (seqP (save_friend_reqs_file (x_json X)) (ret (file_next_req_id s)))"
    by (intro keeps_intros)
  with file_mode_add_req [OF 1] 1 show ?case
    by (auto simp: Let_def intro: keepsD)
qed

lemma accept_loop_ids: "accept_loop i a rs = (f, rs') \<Longrightarrow> map fq_id rs' = map fq_id rs"
  by (induction rs arbitrary: f rs') (auto split: if_splits prod.splits)

lemma map_ids_bounded: "map f xs = map f ys \<Longrightarrow> (\<forall>x \<in> set xs. f x < b) = (\<forall>y \<in> set ys. f y < b)"
  by (drule arg_cong [of _ _ "\<lambda>zs. \<forall>z \<in> set zs. z < b"]) simp

lemma file_mode_upd_reqs:
  "file_mode s \<Longrightarrow> map fq_id rs = map fq_id (file_friend_reqs s) \<Longrightarrow> file_mode (s\<lparr>file_friend_reqs := rs\<rparr>)"
  using map_ids_bounded [of fq_id rs "file_friend_reqs s"] by (simp add: file_mode_def file_inv_def)

lemma file_mode_add_friend: "file_mode s \<Longrightarrow> a \<le> b \<Longrightarrow> file_mode (s\<lparr>file_friends := file_friends s @ [(a, b)]\<rparr>)"
  by (auto simp: file_mode_def file_inv_def)

lemma keeps_accept_friend_request [keeps_intros]: "keeps file_mode (accept_friend_request X i a)"
  unfolding accept_friend_request_def file_accept_friend_request_def
proof (intro keeps_dispatch keeps_getsP_bind, goal_cases)
  case (1 s)
  obtain f rs where loop: "accept_loop i a (file_friend_reqs s) = (f, rs)" by fastforce
  have k: "keeps file_mode (if f < 0 then ret (-1) else
      (let lo = min f a; hi = max f a in seqP (modifyP (\<lambda>s. s\<lparr>file_friends := file_friends s @ [(lo, hi)]\<rparr>))
       (seqP (save_friend_reqs_file (x_json X)) (seqP (save_friends_file (x_json X)) (ret f)))))"
    unfolding Let_def by (intro keeps_intros keeps_modify file_mode_add_friend) auto
  have "file_mode (s\<lparr>file_friend_reqs := rs\<rparr>)"
    using 1 loop by (auto intro: file_mode_upd_reqs dest: accept_loop_ids)
  from keepsD [OF k this] show ?case by (simp add: loop)
qed

lemma mark_ids:
  "map (fm_id \<circ> (\<lambda>m. if P m then m\<lparr>fm_delivered := True\<rparr> else m)) ms = map fm_id ms"
  by (induction ms) auto

lemma keeps_mark_delivered [keeps_intros]: "keeps file_mode (mark_delivered X uid n)"
  unfolding mark_delivered_def file_mark_delivered_def
  by (intro keeps_intros keeps_modify) (auto simp: file_mode_def file_inv_def mark_ids)

lemma file_mode_store_message: "file_mode s \<Longrightarrow> file_mode (store_message m s)"
  by (force simp: file_mode_def file_inv_def store_message_def sorted_wrt_append)

lemma file_mode_queue [simp]: "file_mode (s\<lparr>db_queue := xs\<rparr>) = file_mode s"
  by (simp add: file_mode_def file_inv_def)

lemma keeps_submit [keeps_intros]: "keeps file_mode (submit m)"
  unfolding submit_def by (intro keeps_modify) simp

lemma keeps_file_store_batch [keeps_intros]: "keeps file_mode (file_store_batch X b)"
  unfolding file_store_batch_def by (intro keeps_intros keeps_modify file_mode_store_message)

lemma keeps_writer_round [keeps_intros]: "keeps file_mode (writer_round X)"
  unfolding writer_round_def loop_round_def by (intro keeps_intros keeps_modify) simp

lemmas query_defs = verify_login_def file_verify_login_def query_offline_messages_def
  file_query_offline_messages_def search_users_def file_search_users_def get_friends_def
  file_get_friends_def get_pending_requests_def file_get_pending_requests_def get_username_def
  file_get_username_def

lemma keeps_queries [keeps_intros]:
  "keeps file_mode (verify_login X u p)" "keeps file_mode (query_offline_messages X i)"
  "keeps file_mode (search_users X k)" "keeps file_mode (get_friends X i)"
  "keeps file_mode (get_pending_requests X i)" "keeps file_mode (get_username X i)"
  unfolding query_defs by (intro keeps_intros)+

text \<open>
  The operations of \<open>DBBatchWriter\<close> as one type, so that a history of the storage is a list.
\<close>

datatype db_op = Register string string | Login string string | AddFriend int int string
  | AcceptFriend int int | Submit DBChatMessage | MarkDelivered int int | WriterRound

fun db_step :: "('j, 't, 'm) externals \<Rightarrow> db_op \<Rightarrow> ('t, 'm) db \<Rightarrow> ('t, 'm) db" where
  "db_step X (Register u p) s = snd (register_user X u p s)"
| "db_step X (Login u p) s = snd (verify_login X u p s)"
| "db_step X (AddFriend f t m) s = snd (add_friend_request X f t m s)"
| "db_step X (AcceptFriend i a) s = snd (accept_friend_request X i a s)"
| "db_step X (Submit m) s = snd (submit m s)"
| "db_step X (MarkDelivered u n) s = snd (mark_delivered X u n s)"
| "db_step X WriterRound s = snd (writer_round X s)"

lemma file_mode_db_step: "file_mode s \<Longrightarrow> file_mode (db_step X op s)"
  by (cases op) (auto intro!: keepsD [of file_mode] keeps_intros)

section \<open>What an operation does to the data in memory\<close>

text \<open>Forgetting the disk, each operation in file mode is a plain function of the state.\<close>

definition data :: "('t, 'm) db \<Rightarrow> ('t, 'm) db" where
  "data s = s\<lparr>disk := Map.empty\<rparr>"

lemma data_sel [simp]:
  "file_users (data s) = file_users s" "file_friends (data s) = file_friends s"
  "file_friend_reqs (data s) = file_friend_reqs s" "file_messages (data s) = file_messages s"
  "file_next_uid (data s) = file_next_uid s" "file_next_req_id (data s) = file_next_req_id s"
  "file_next_msg_id (data s) = file_next_msg_id s" "db_queue (data s) = db_queue s"
  "use_file_storage (data s) = use_file_storage s" "db_running (data s) = db_running s"
  by (simp_all add: data_def)

lemma data_same: "same_data s s' \<Longrightarrow> data s' = data s"
  by (auto simp: same_data_def data_def)

lemma data_saves [simp]:
  "data (snd (save_users_file J s)) = data s" "data (snd (save_friends_file J s)) = data s"
  "data (snd (save_friend_reqs_file J s)) = data s" "data (snd (save_messages_file J s)) = data s"
  by (metis data_same prod.collapse save_data)+

lemma data_seq_ret [simp]: "data (snd (seqP m (ret x) s)) = data (snd (m s))"
  by (cases "m s") (auto simp: run_seqP split: outcome.splits)

lemma data_seq_frame:
  assumes "\<And>t. data (snd (n t)) = data t"
  shows "data (snd (seqP m n s)) = data (snd (m s))"
  using assms by (cases "m s") (auto simp: run_seqP split: outcome.splits)

lemma dispatch_file: "use_file_storage s \<Longrightarrow> dispatch f m s = f s"
  by (simp add: dispatch_def)

lemma data_register_user:
  "use_file_storage s \<Longrightarrow> data (snd (register_user X u p s)) =
     (if u \<in> fu_username ` set (file_users s) then data s
      else data (s\<lparr>file_next_uid := file_next_uid s + 1, file_users := file_users s @
        [\<lparr>fu_uid = file_next_uid s, fu_username = u, fu_password_hash = file_hash (x_hash X) p\<rparr>]\<rparr>))"
  by (auto simp: register_user_def dispatch_file file_register_user_def list_ex_iff Let_def)

lemma data_add_friend_request:
  "use_file_storage s \<Longrightarrow> data (snd (add_friend_request X f t m s)) =
     (if (min f t, max f t) \<in> set (file_friends s) \<or>
         (\<exists>r \<in> set (file_friend_reqs s). fq_from_uid r = f \<and> fq_to_uid r = t \<and> fq_status r = 0) then data s
      else data (s\<lparr>file_next_req_id := file_next_req_id s + 1, file_friend_reqs := file_friend_reqs s @
        [\<lparr>fq_id = file_next_req_id s, fq_from_uid = f, fq_to_uid = t, fq_message = m, fq_status = 0\<rparr>]\<rparr>))"
  by (force simp: add_friend_request_def dispatch_file file_add_friend_request_def list_ex_iff Let_def)

lemma data_accept_friend_request:
  "use_file_storage s \<Longrightarrow> accept_loop i a (file_friend_reqs s) = (f, rs) \<Longrightarrow>
   data (snd (accept_friend_request X i a s)) =
     data (s\<lparr>file_friend_reqs := rs, file_friends :=
       file_friends s @ (if f < 0 then [] else [(min f a, max f a)])\<rparr>)"
  by (simp add: accept_friend_request_def dispatch_file file_accept_friend_request_def Let_def
      data_seq_frame [where n = "seqP _ _"])

lemma data_mark_delivered:
  "use_file_storage s \<Longrightarrow> data (snd (mark_delivered X uid n s)) =
     data (s\<lparr>file_messages := map (\<lambda>m. if fm_to_uid m = uid \<and> fm_id m \<le> n
       then m\<lparr>fm_delivered := True\<rparr> else m) (file_messages s)\<rparr>)"
  by (simp add: mark_delivered_def dispatch_file file_mark_delivered_def)

lemma data_threadP: "data (snd (threadP m s)) = data (snd (m s))"
  by (cases "m s") (auto simp: threadP_def run_catchP split: outcome.splits)

lemma data_writer_round:
  "use_file_storage s \<Longrightarrow> data (snd (writer_round X s)) =
     (if db_running s then data (fold store_message (take 100 (db_queue s)) (s\<lparr>db_queue := drop 100 (db_queue s)\<rparr>))
      else data s)"
  by (simp add: writer_round_def loop_round_def data_threadP dispatch_file file_store_batch_def
      run_seqP run_forP_modify)

lemma verify_login_unchanged [simp]: "use_file_storage s \<Longrightarrow> snd (verify_login X u p s) = s"
  by (simp add: verify_login_def dispatch_file file_verify_login_def)

section \<open>A small storage\<close>

text \<open>A storage in file mode with no files yet, over the instance of the external code.\<close>

definition fresh_db :: "(json, unit) db" where
  "fresh_db = (new_db Map.empty (\<lambda>_. True) ())\<lparr>use_file_storage := True\<rparr>"

lemma fresh_db_mode: "file_mode fresh_db"
  by (simp add: fresh_db_def file_mode_def file_inv_def new_db_def)

lemmas fresh_db_run = fresh_db_def new_db_def dispatch_def file_register_user_def file_add_friend_request_def
  file_accept_friend_request_def save_defs write_json_def run_seqP Let_def

end
