(* ===== verification/Db_Durable.thy ===== *)
theory Db_Durable
  imports Db_Correct
begin

text \<open>
  Durability of the file storage: over any history of operations that do not fail, the files hold
  what is in memory, so that a new process continues where the old one stopped. Only the queue of
  messages that were not stored yet is lost.
\<close>

section \<open>Operations that succeed\<close>

fun db_ok :: "('j, 't, 'm) externals \<Rightarrow> db_op \<Rightarrow> ('t, 'm) db \<Rightarrow> bool" where
  "db_ok X (Register u p) s = is_val (fst (register_user X u p s))"
| "db_ok X (Login u p) s = is_val (fst (verify_login X u p s))"
| "db_ok X (AddFriend f t m) s = is_val (fst (add_friend_request X f t m s))"
| "db_ok X (AcceptFriend i a) s = is_val (fst (accept_friend_request X i a s))"
| "db_ok X (Submit m) s = is_val (fst (submit m s))"
| "db_ok X (MarkDelivered u n) s = is_val (fst (mark_delivered X u n s))"
| "db_ok X WriterRound s = is_val (fst (writer_round X s))"

fun clean_run :: "('j, 't, 'm) externals \<Rightarrow> db_op list \<Rightarrow> ('t, 'm) db \<Rightarrow> bool" where
  "clean_run X [] s = True"
| "clean_run X (op # ops) s = (db_ok X op s \<and> clean_run X ops (db_step X op s))"

text \<open>
  A user id of the server is not negative. A request that came from a negative id would be marked as accepted in memory only: \<open>accept_friend_request\<close>
  takes a negative sender for "no such request" and returns before it saves.
\<close>

fun sender_ok :: "db_op \<Rightarrow> bool" where
  "sender_ok (AddFriend f t m) = (0 \<le> f)"
| "sender_ok _ = True"

section \<open>What the files hold\<close>

definition durable :: "('j, 't) json_lib \<Rightarrow> ('t, 'm) db \<Rightarrow> bool" where
  "durable J s \<longleftrightarrow> use_file_storage s \<and> (\<forall>p. can_write s p) \<and> held J s \<and>
     (\<forall>r \<in> set (file_friend_reqs s). 0 \<le> fq_from_uid r)"

lemma file_path_eq [simp]: "file_path a = file_path b \<longleftrightarrow> a = b"
  by (simp add: file_path_def)

lemma write_json_val:
  "\<forall>p. can_write s p \<Longrightarrow> write_json J fn j s = (r, s') \<Longrightarrow> is_val r \<Longrightarrow>
   \<exists>t. jl_dump J j = Some t \<and> r = Val () \<and> s' = s\<lparr>disk := (disk s)(file_path fn \<mapsto> t)\<rparr>"
  by (auto simp: write_json_def Let_def split: option.splits)

lemmas state_json_defs = users_json_def friends_json_def reqs_json_def msgs_json_def

lemma held_written:
  "held_users J (s\<lparr>disk := (disk s)(file_path fn \<mapsto> t)\<rparr>) =
     (if fn = ''users.json'' then Some t = jl_dump J (users_json J s) else held_users J s)"
  "held_friends J (s\<lparr>disk := (disk s)(file_path fn \<mapsto> t)\<rparr>) =
     (if fn = ''friends.json'' then Some t = jl_dump J (friends_json J s) else held_friends J s)"
  "held_reqs J (s\<lparr>disk := (disk s)(file_path fn \<mapsto> t)\<rparr>) =
     (if fn = ''friend_requests.json'' then Some t = jl_dump J (reqs_json J s) else held_reqs J s)"
  "held_msgs J (s\<lparr>disk := (disk s)(file_path fn \<mapsto> t)\<rparr>) =
     (if fn = ''messages.json'' then Some t = jl_dump J (msgs_json J s) else held_msgs J s)"
  by (simp_all add: held_defs state_json_defs)

lemma held_save_users:
  assumes "\<forall>p. can_write s p" "save_users_file J s = (r, s')" "is_val r"
    and "held_friends J s" "held_reqs J s" "held_msgs J s"
  shows "held J s' \<and> same_data s s'"
  using assms by (auto simp: save_defs held_def held_written same_data_def dest!: write_json_val)

lemma held_save_friends:
  assumes "\<forall>p. can_write s p" "save_friends_file J s = (r, s')" "is_val r"
    and "held_users J s" "held_reqs J s" "held_msgs J s"
  shows "held J s' \<and> same_data s s'"
  using assms by (auto simp: save_defs held_def held_written same_data_def dest!: write_json_val)

lemma held_save_reqs:
  assumes "\<forall>p. can_write s p" "save_friend_reqs_file J s = (r, s')" "is_val r"
    and "held_users J s" "held_msgs J s"
  shows "held_reqs J s' \<and> held_users J s' \<and> held_msgs J s' \<and> (held_friends J s \<longrightarrow> held_friends J s') \<and> same_data s s'"
  using assms by (auto simp: save_defs held_def held_written same_data_def dest!: write_json_val)

lemma held_save_messages:
  assumes "\<forall>p. can_write s p" "save_messages_file J s = (r, s')" "is_val r"
    and "held_users J s" "held_friends J s" "held_reqs J s"
  shows "held J s' \<and> same_data s s'"
  using assms by (auto simp: save_defs held_def held_written same_data_def dest!: write_json_val)

section \<open>Every operation that succeeds keeps the files up to date\<close>

text \<open>How a program that ends with a save ends: the save succeeded.\<close>

lemma seqP_ret_val: "seqP m (ret x) s = (r, s') \<Longrightarrow> is_val r \<Longrightarrow> m s = (Val (), s') \<and> r = Val x"
  by (cases "m s") (auto simp: run_seqP split: outcome.splits)

lemma durable_register:
  assumes "durable J s" "J = x_json X" "register_user X u p s = (r, s')" "is_val r"
  shows "durable J s'"
proof (cases "u \<in> fu_username ` set (file_users s)")
  case True
  then have "list_ex (\<lambda>x. fu_username x = u) (file_users s)" by (auto simp: list_ex_iff)
  then have "s' = s"
    using assms(1-3) by (simp add: register_user_def dispatch_file durable_def file_register_user_def)
  then show ?thesis using assms(1) by simp
next
  case False
  let ?t = "s\<lparr>file_next_uid := file_next_uid s + 1, file_users := file_users s @
    [\<lparr>fu_uid = file_next_uid s, fu_username = u, fu_password_hash = file_hash (x_hash X) p\<rparr>]\<rparr>"
  have not_ex: "\<not> list_ex (\<lambda>x. fu_username x = u) (file_users s)" using False by (auto simp: list_ex_iff)
  have "seqP (save_users_file J) (ret (file_next_uid s)) ?t = (r, s')"
    using assms(1-3) not_ex by (simp add: register_user_def dispatch_file durable_def file_register_user_def Let_def)
  then have "save_users_file J ?t = (Val (), s')" using assms(4) by (auto dest: seqP_ret_val)
  moreover have "held_friends J ?t" "held_reqs J ?t" "held_msgs J ?t" "\<forall>p. can_write ?t p"
    using assms(1) by (simp_all add: durable_def held_defs state_json_defs)
  ultimately have "held J s'" "same_data ?t s'" using held_save_users [of ?t J "Val ()" s'] by simp_all
  then show ?thesis using assms(1) by (auto simp: durable_def same_data_def)
qed

lemma durable_add_friend:
  assumes "durable J s" "J = x_json X" "add_friend_request X f t m s = (r, s')" "is_val r" "0 \<le> f"
  shows "durable J s'"
proof (cases "list_ex (\<lambda>p. fst p = min f t \<and> snd p = max f t) (file_friends s) \<or>
    list_ex (\<lambda>q. fq_from_uid q = f \<and> fq_to_uid q = t \<and> fq_status q = 0) (file_friend_reqs s)")
  case True
  then have "s' = s"
    using assms(1-3)
    by (auto simp: add_friend_request_def dispatch_file durable_def file_add_friend_request_def Let_def
        split: if_splits)
  then show ?thesis using assms(1) by simp
next
  case False
  let ?t = "s\<lparr>file_next_req_id := file_next_req_id s + 1, file_friend_reqs := file_friend_reqs s @
    [\<lparr>fq_id = file_next_req_id s, fq_from_uid = f, fq_to_uid = t, fq_message = m, fq_status = 0\<rparr>]\<rparr>"
  have "seqP (save_friend_reqs_file J) (ret (file_next_req_id s)) ?t = (r, s')"
    using assms(1-3) False
    by (simp add: add_friend_request_def dispatch_file durable_def file_add_friend_request_def Let_def)
  then have "save_friend_reqs_file J ?t = (Val (), s')" using assms(4) by (auto dest: seqP_ret_val)
  moreover have "held_friends J ?t" "held_users J ?t" "held_msgs J ?t" "\<forall>p. can_write ?t p"
    using assms(1) by (simp_all add: durable_def held_defs state_json_defs)
  ultimately have "held J s'" "same_data ?t s'"
    using held_save_reqs [of ?t J "Val ()" s'] by (simp_all add: held_def)
  then show ?thesis using assms(1,5) by (auto simp: durable_def same_data_def)
qed

lemma accept_loop_from:
  "accept_loop i a rs = (f, rs') \<Longrightarrow> \<forall>q \<in> set rs. 0 \<le> fq_from_uid q \<Longrightarrow>
   (\<forall>q \<in> set rs'. 0 \<le> fq_from_uid q) \<and> (f < 0 \<longrightarrow> rs' = rs)"
  by (induction rs arbitrary: f rs') (auto split: if_splits prod.splits)

lemma durable_accept:
  assumes "durable J s" "J = x_json X" "accept_friend_request X i a s = (r, s')" "is_val r"
  shows "durable J s'"
proof -
  obtain f rs where loop: "accept_loop i a (file_friend_reqs s) = (f, rs)" by fastforce
  with assms(1) have sender: "\<forall>q \<in> set rs. 0 \<le> fq_from_uid q" "f < 0 \<Longrightarrow> rs = file_friend_reqs s"
    using accept_loop_from [OF loop] by (auto simp: durable_def)
  show ?thesis
  proof (cases "f < 0")
    case True
    then have "s' = s"
      using assms(1-3) sender(2) loop
      by (simp add: accept_friend_request_def dispatch_file durable_def file_accept_friend_request_def)
    then show ?thesis using assms(1) by simp
  next
    case False
    let ?t = "s\<lparr>file_friend_reqs := rs, file_friends := file_friends s @ [(min f a, max f a)]\<rparr>"
    have run: "seqP (save_friend_reqs_file J) (seqP (save_friends_file J) (ret f)) ?t = (r, s')"
      using assms(1-3) loop False
      by (simp add: accept_friend_request_def dispatch_file durable_def file_accept_friend_request_def Let_def)
    then obtain t1 where t1: "save_friend_reqs_file J ?t = (Val (), t1)" "save_friends_file J t1 = (Val (), s')"
      using assms(4) by (cases "save_friend_reqs_file J ?t")
        (auto simp: run_seqP [of "save_friend_reqs_file J"] split: outcome.splits dest: seqP_ret_val)
    have "held_users J ?t" "held_msgs J ?t" "\<forall>p. can_write ?t p"
      using assms(1) by (simp_all add: durable_def held_defs state_json_defs)
    then have h1: "held_reqs J t1" "held_users J t1" "held_msgs J t1" "same_data ?t t1"
      using held_save_reqs [of ?t J "Val ()" t1] t1(1) by simp_all
    moreover from h1(4) have "\<forall>p. can_write t1 p" using \<open>\<forall>p. can_write ?t p\<close> by (simp add: same_data_sel)
    ultimately have "held J s'" "same_data t1 s'" using held_save_friends [of t1 J "Val ()" s'] t1(2) by simp_all
    then show ?thesis using assms(1) sender(1) h1(4) by (auto simp: durable_def same_data_def)
  qed
qed

lemma durable_mark:
  assumes "durable J s" "J = x_json X" "mark_delivered X uid n s = (r, s')" "is_val r"
  shows "durable J s'"
proof -
  let ?t = "s\<lparr>file_messages := map (\<lambda>m. if fm_to_uid m = uid \<and> fm_id m \<le> n then m\<lparr>fm_delivered := True\<rparr> else m) (file_messages s)\<rparr>"
  have "save_messages_file J ?t = (r, s')"
    using assms(1-3) by (simp add: mark_delivered_def dispatch_file durable_def file_mark_delivered_def)
  moreover have "held_users J ?t" "held_friends J ?t" "held_reqs J ?t" "\<forall>p. can_write ?t p"
    using assms(1) by (simp_all add: durable_def held_defs state_json_defs)
  ultimately have "held J s'" "same_data ?t s'" using held_save_messages [of ?t J r s'] assms(4) by simp_all
  then show ?thesis using assms(1) by (auto simp: durable_def same_data_def)
qed

lemma fold_store_other:
  "file_users (fold store_message ms s) = file_users s" "file_friends (fold store_message ms s) = file_friends s"
  "file_friend_reqs (fold store_message ms s) = file_friend_reqs s" "disk (fold store_message ms s) = disk s"
  "file_next_uid (fold store_message ms s) = file_next_uid s" "can_write (fold store_message ms s) = can_write s"
  "file_next_req_id (fold store_message ms s) = file_next_req_id s"
  "use_file_storage (fold store_message ms s) = use_file_storage s"
  by (induction ms arbitrary: s) (simp_all add: store_message_def)

lemma durable_queue: "durable J (s\<lparr>db_queue := q\<rparr>) = durable J s"
  by (simp add: durable_def held_defs state_json_defs)

lemma durable_writer:
  assumes "durable J s" "J = x_json X" "writer_round X s = (r, s')" "is_val r"
  shows "durable J s'"
proof (cases "db_running s \<and> db_queue s \<noteq> []")
  case False
  then have "s' = s \<or> s' = s\<lparr>db_queue := []\<rparr>"
    using assms(3) by (cases "db_running s") (simp_all add: writer_round_def threadP_def run_catchP loop_round_def)
  then show ?thesis using assms(1) durable_queue by fastforce
next
  case True
  let ?t = "fold store_message (take 100 (db_queue s)) (s\<lparr>db_queue := drop 100 (db_queue s)\<rparr>)"
  have fs: "use_file_storage s" using assms(1) by (simp add: durable_def)
  have "threadP (save_messages_file J) ?t = (r, s')"
    using assms(2,3) True fs
    by (simp add: writer_round_def threadP_def run_catchP loop_round_def dispatch_file file_store_batch_def
        run_seqP run_forP_modify)
  then have "save_messages_file J ?t = (Val (), s')"
    using assms(4) by (auto simp: threadP_def run_catchP split: prod.splits outcome.splits)
  moreover have "held_users J ?t" "held_friends J ?t" "held_reqs J ?t" "\<forall>p. can_write ?t p"
    using assms(1) by (simp_all add: durable_def held_defs state_json_defs fold_store_other)
  ultimately have "held J s'" "same_data ?t s'" using held_save_messages [of ?t J "Val ()" s'] by simp_all
  then show ?thesis using assms(1) by (auto simp: durable_def same_data_def fold_store_other)
qed

lemma durable_step:
  assumes "durable (x_json X) s" "db_ok X op s" "sender_ok op"
  shows "durable (x_json X) (db_step X op s)"
proof (cases op)
  case (Login u p)
  then show ?thesis using assms by (simp add: durable_def)
next
  case (Submit m)
  then show ?thesis using assms by (simp add: submit_def durable_def held_defs state_json_defs)
qed (use assms in \<open>auto intro: durable_register [OF _ refl prod.collapse [symmetric]]
      durable_add_friend [OF _ refl prod.collapse [symmetric]] durable_accept [OF _ refl prod.collapse [symmetric]]
      durable_mark [OF _ refl prod.collapse [symmetric]] durable_writer [OF _ refl prod.collapse [symmetric]]\<close>)

lemma durable_history: "durable (x_json X) s \<Longrightarrow> clean_run X ops s \<Longrightarrow> list_all sender_ok ops \<Longrightarrow> durable (x_json X) (fold (db_step X) ops s)"
  by (induction ops arbitrary: s) (simp_all add: durable_step)

section \<open>Restart\<close>

text \<open>
  C26. Restarting loses nothing that was stored: after any history of operations that return and in which friend requests
  come from ids that are not negative (as the ids of all users are), from empty files on a disk that can be written, a new process that finds no MySQL server loads from the
  files exactly the users, friendships, requests, messages and counters that the old process had in
  memory.
\<close>

theorem restart_restores:
  assumes "json_laws (x_json X)"
    and "my_init (x_mysql X) w' = (True, w1)" "my_real_connect (x_mysql X) w1 = (False, w'')"
    and "s = fold (db_step X) ops ((new_db Map.empty (\<lambda>_. True) w)\<lparr>use_file_storage := True\<rparr>)"
    and "clean_run X ops ((new_db Map.empty (\<lambda>_. True) w)\<lparr>use_file_storage := True\<rparr>)"
    and "list_all sender_ok ops" "db_ints_ok s"
  shows "DBBatchWriter X (new_db (disk s) cw w') = (Val (), (new_db (disk s) cw w'')\<lparr>use_file_storage := True, mysql_set := True,
    file_users := file_users s, file_friends := file_friends s, file_friend_reqs := file_friend_reqs s,
    file_messages := file_messages s, file_next_uid := file_next_uid s, file_next_req_id := file_next_req_id s,
    file_next_msg_id := file_next_msg_id s\<rparr>)"
proof -
  have "durable (x_json X) ((new_db Map.empty (\<lambda>_. True) w)\<lparr>use_file_storage := True\<rparr>)"
    by (simp add: durable_def new_db_def held_defs)
  from durable_history [OF this assms(5,6)] have "held (x_json X) s" by (simp add: durable_def assms(4))
  from load_held [OF assms(1,7) this] show ?thesis
    using assms(2,3) by (simp add: DBBatchWriter_def connect_db_def run_bindP new_db_def)
qed

theorem restart_restores_witness:
  "let s0 = (new_db Map.empty (\<lambda>_. True) ())\<lparr>use_file_storage := True\<rparr>;
       s = fold (db_step externals_ref) [Register ''ann'' ''pw'', AddFriend 1000 7 ''hi''] s0
   in DBBatchWriter externals_ref (new_db (disk s) (\<lambda>_. False) ()) =
     (Val (), (new_db (disk s) (\<lambda>_. False) ())\<lparr>use_file_storage := True, mysql_set := True,
    file_users := file_users s, file_friends := file_friends s, file_friend_reqs := file_friend_reqs s,
    file_messages := file_messages s, file_next_uid := file_next_uid s, file_next_req_id := file_next_req_id s,
    file_next_msg_id := file_next_msg_id s\<rparr>)"
  unfolding Let_def
  by (rule restart_restores [OF _ _ _ refl])
    (simp_all add: json_laws_ref mysql_down_def new_db_def register_user_def add_friend_request_def dispatch_def
      file_register_user_def file_add_friend_request_def save_defs write_json_def run_seqP
      db_ints_ok_def int_ok_def INT_MIN_def INT_MAX_def Let_def)

end
