(* ===== verification/Incremental.thy ===== *)
theory Incremental
  imports Prelude
begin

text \<open>
  The contract of a parser that is fed a byte stream in pieces. Three loops of the program have
  this shape: the packet loop of the server's \<open>TcpConnection::handle_read\<close>, the packet loop of the
  test client's \<open>receive_loop\<close>, and the line loop of \<open>LlamaClient::stream_write_cb\<close>. Each looks at the
  front of a buffer and either waits for more bytes, takes one message off, drops some bytes, or
  gives up. The network cuts the stream wherever it likes, so what the loop makes of the stream
  must not depend on the cuts: that is proved once here, from the laws of one step.
\<close>

datatype 'm pstep = NeedMore | Emit 'm string | Skip string | Abort

text \<open>Running the loop: the messages taken off, what is left, and whether the stream is still good.\<close>

type_synonym 'm prun = "'m list \<times> string \<times> bool"

locale incremental_parser =
  fixes pstep :: "string \<Rightarrow> 'm pstep"
    and prun :: "string \<Rightarrow> 'm prun"
  assumes emit_shorter: "pstep b = Emit m r \<Longrightarrow> length r < length b"
    and skip_shorter: "pstep b = Skip r \<Longrightarrow> length r < length b"
    and emit_extend: "pstep b = Emit m r \<Longrightarrow> pstep (b @ x) = Emit m (r @ x)"
    and skip_extend: "pstep b = Skip r \<Longrightarrow> pstep (b @ x) = Skip (r @ x)"
    and abort_extend: "pstep b = Abort \<Longrightarrow> pstep (b @ x) = Abort"
    and prun_needmore: "pstep b = NeedMore \<Longrightarrow> prun b = ([], b, True)"
    and prun_emit: "pstep b = Emit m r \<Longrightarrow> prun b = (case prun r of (ms, r', ok) \<Rightarrow> (m # ms, r', ok))"
    and prun_skip: "pstep b = Skip r \<Longrightarrow> prun b = prun r"
    and prun_abort: "pstep b = Abort \<Longrightarrow> prun b = ([], b, False)"
begin

lemmas prun_simps = prun_needmore prun_emit prun_skip prun_abort

lemma prun_induct [case_names NeedMore Emit Skip Abort]:
  assumes "\<And>b. pstep b = NeedMore \<Longrightarrow> P b"
    and "\<And>b m r. pstep b = Emit m r \<Longrightarrow> P r \<Longrightarrow> P b"
    and "\<And>b r. pstep b = Skip r \<Longrightarrow> P r \<Longrightarrow> P b"
    and "\<And>b. pstep b = Abort \<Longrightarrow> P b"
  shows "P b"
proof (induction b rule: length_induct)
  case (1 b)
  then show ?case
    by (cases "pstep b") (blast intro: assms dest: emit_shorter skip_shorter)+
qed

text \<open>What is left on a good stream is a buffer that waits for more.\<close>

lemma prun_stops: "prun b = (ms, r, True) \<Longrightarrow> pstep r = NeedMore"
  by (induction b arbitrary: ms rule: prun_induct) (auto simp: prun_simps split: prod.splits)

text \<open>Bytes that arrive later only add to what was already understood.\<close>

lemma prun_append:
  "prun b = (ms, r, True) \<Longrightarrow>
   prun (b @ x) = (case prun (r @ x) of (ms', r', ok) \<Rightarrow> (ms @ ms', r', ok))"
proof (induction b arbitrary: ms rule: prun_induct)
  case (NeedMore b)
  then show ?case by (auto simp: prun_simps split: prod.splits)
next
  case (Emit b m r')
  then show ?case
    by (auto simp: prun_simps emit_extend split: prod.splits)
next
  case (Skip b r')
  then show ?case by (simp add: prun_simps skip_extend)
next
  case (Abort b)
  then show ?case by (simp add: prun_simps)
qed

lemma prun_append_bad:
  "prun b = (ms, r, False) \<Longrightarrow> prun (b @ x) = (ms, r @ x, False)"
proof (induction b arbitrary: ms rule: prun_induct)
  case (Emit b m r')
  then show ?case by (auto simp: prun_simps emit_extend split: prod.splits)
next
  case (Skip b r')
  then show ?case by (simp add: prun_simps skip_extend)
qed (simp_all add: prun_simps abort_extend)

text \<open>
  Feeding a list of pieces: run the loop after each piece on what was left before it, and stop at
  the first piece after which the stream is bad.
\<close>

primrec feed :: "string \<Rightarrow> string list \<Rightarrow> 'm prun" where
  "feed r [] = ([], r, True)"
| "feed r (c # cs) = (case prun (r @ c) of
     (ms, r', ok) \<Rightarrow> if ok then (case feed r' cs of (ms', r'', ok') \<Rightarrow> (ms @ ms', r'', ok'))
                     else (ms, r' @ concat cs, False))"

theorem feed_concat:
  assumes "pstep r = NeedMore"
  shows "feed r cs = prun (r @ concat cs)"
  using assms
proof (induction cs arbitrary: r)
  case Nil
  then show ?case by (simp add: prun_simps)
next
  case (Cons c cs)
  obtain ms r' ok where run: "prun (r @ c) = (ms, r', ok)" by (cases "prun (r @ c)") auto
  show ?case
  proof (cases ok)
    case True
    with run have "prun (r @ c @ concat cs) =
        (case prun (r' @ concat cs) of (ms', r'', ok') \<Rightarrow> (ms @ ms', r'', ok'))"
      using prun_append [of "r @ c" ms r' "concat cs"] by simp
    moreover from run True have "feed r' cs = prun (r' @ concat cs)"
      by (intro Cons.IH) (simp add: prun_stops)
    ultimately show ?thesis using run True by simp
  next
    case False
    with run have "prun (r @ c @ concat cs) = (ms, r' @ concat cs, False)"
      using prun_append_bad [of "r @ c" ms r' "concat cs"] by simp
    with run False show ?thesis by simp
  qed
qed

end

end
