(* ===== verification/Framing.thy ===== *)
theory Framing
  imports Protocol Incremental
begin

text \<open>
  Packets on the byte stream, server side: the packet that \<open>Worker::send_packet_in_loop\<close> puts on the
  wire and the loop of \<open>TcpConnection::handle_read\<close> that takes packets off the receive buffer. The
  loop is an instance of \<open>incremental_parser\<close>.
\<close>

type_synonym packet = "PacketHeader \<times> string"

text \<open>The bytes that \<open>send_packet_in_loop\<close> hands to \<open>TcpConnection::send\<close>.\<close>

definition make_packet :: "u32 \<Rightarrow> u32 \<Rightarrow> string \<Rightarrow> string" where
  "make_packet c s body =
     header_bytes \<lparr>magic = PROTO_MAGIC, body_len = of_nat (length body), cmd = c, seq = s\<rparr> @ body"

text \<open>One round of the loop over \<open>recv_buf\<close>.\<close>

definition read_packet :: "string \<Rightarrow> packet pstep" where
  "read_packet buf =
     (if length buf < sizeof_PacketHeader then NeedMore
      else let hdr = bytes_header buf in
        if magic hdr \<noteq> PROTO_MAGIC \<or> body_len hdr > MAX_BODY_LEN then Abort
        else let n = unat (body_len hdr) in
          if length buf < sizeof_PacketHeader + n then NeedMore
          else Emit (hdr, take n (drop sizeof_PacketHeader buf)) (drop (sizeof_PacketHeader + n) buf))"

lemma read_packet_shorter:
  "read_packet b = Emit m r \<Longrightarrow> length r < length b"
  by (auto simp: read_packet_def Let_def sizeof_PacketHeader_def split: if_splits)

function read_packets :: "string \<Rightarrow> packet prun" where
  "read_packets buf = (case read_packet buf of
     NeedMore \<Rightarrow> ([], buf, True)
   | Emit p rest \<Rightarrow> (case read_packets rest of (ps, r, ok) \<Rightarrow> (p # ps, r, ok))
   | Skip rest \<Rightarrow> ([], buf, False)
   | Abort \<Rightarrow> ([], buf, False))"
  by pat_completeness auto
termination
  by (relation "measure length") (auto dest: read_packet_shorter)

declare read_packets.simps [simp del]

lemma read_packet_never_skips: "read_packet b \<noteq> Skip r"
  by (simp add: read_packet_def Let_def)

lemma read_packet_extend:
  "read_packet b = Emit m r \<Longrightarrow> read_packet (b @ x) = Emit m (r @ x)"
  by (auto simp: read_packet_def Let_def sizeof_PacketHeader_def bytes_header_extend split: if_splits)

lemma read_packet_abort_extend:
  "read_packet b = Abort \<Longrightarrow> read_packet (b @ x) = Abort"
  by (auto simp: read_packet_def Let_def sizeof_PacketHeader_def bytes_header_extend split: if_splits)

interpretation server_stream: incremental_parser read_packet read_packets
  by unfold_locales
    (auto simp: read_packets.simps read_packet_never_skips
      dest: read_packet_shorter read_packet_extend read_packet_abort_extend)

section \<open>What the framing guarantees\<close>

text \<open>A body that fits in \<open>MAX_BODY_LEN\<close> goes over the wire unchanged.\<close>

lemma unat_of_nat_body: "length body \<le> 65535 \<Longrightarrow> unat (of_nat (length body) :: u32) = length body"
  by (simp add: unat_of_nat)

lemma read_make_packet:
  assumes "length body \<le> 65535"
  shows "read_packet (make_packet c s body @ rest) =
    Emit (\<lparr>magic = PROTO_MAGIC, body_len = of_nat (length body), cmd = c, seq = s\<rparr>, body) rest"
proof -
  have "of_nat (length body) \<le> (65535 :: u32)"
    using assms by (simp add: word_le_nat_alt unat_of_nat_body)
  then show ?thesis
    using assms by (simp add: read_packet_def make_packet_def sizeof_PacketHeader_def Let_def
        unat_of_nat_body MAX_BODY_LEN_def linorder_not_less)
qed

text \<open>A list of packets to send: command, sequence number and body of each.\<close>

type_synonym outgoing = "u32 \<times> u32 \<times> string"

definition wire :: "outgoing list \<Rightarrow> string" where
  "wire ps = concat (map (\<lambda>(c, s, body). make_packet c s body) ps)"

definition received :: "outgoing list \<Rightarrow> packet list" where
  "received ps = map (\<lambda>(c, s, body).
     (\<lparr>magic = PROTO_MAGIC, body_len = of_nat (length body), cmd = c, seq = s\<rparr>, body)) ps"

lemma read_packets_wire:
  assumes "\<forall>(c, s, body) \<in> set ps. length body \<le> 65535"
  shows "read_packets (wire ps) = (received ps, [], True)"
  using assms
proof (induction ps)
  case Nil
  then show ?case
    by (simp add: wire_def received_def read_packets.simps read_packet_def sizeof_PacketHeader_def)
next
  case (Cons p ps)
  obtain c s body where p: "p = (c, s, body)" by (cases p) auto
  with Cons.prems have "length body \<le> 65535" by simp
  then have "read_packet (make_packet c s body @ wire ps) =
      Emit (\<lparr>magic = PROTO_MAGIC, body_len = of_nat (length body), cmd = c, seq = s\<rparr>, body) (wire ps)"
    by (rule read_make_packet)
  from server_stream.prun_emit [OF this] Cons show ?case
    by (simp add: p wire_def received_def)
qed

section \<open>Arbitrary pieces\<close>

text \<open>
  A connection's life as far as its stream goes: each piece is what one call of \<open>handle_read\<close> found in
  the socket; it is appended to \<open>recv_buf\<close> and the loop runs. When the stream is bad the connection is
  closed and what comes after is not looked at.
\<close>

fun deliver :: "string \<Rightarrow> string list \<Rightarrow> packet prun" where
  "deliver buf [] = ([], buf, True)"
| "deliver buf (piece # pieces) = (case read_packets (buf @ piece) of
     (ps, buf', ok) \<Rightarrow> if ok then (case deliver buf' pieces of (qs, buf'', ok') \<Rightarrow> (ps @ qs, buf'', ok'))
                      else (ps, buf' @ concat pieces, False))"

lemma deliver_feed: "deliver buf pieces = server_stream.feed buf pieces"
  by (induction pieces arbitrary: buf) (auto split: prod.splits)

lemma read_packet_Nil: "read_packet [] = NeedMore"
  by (simp add: read_packet_def sizeof_PacketHeader_def)

text \<open>
  C3. However the network cuts the stream, the server takes off exactly the packets that were sent:
  for every list of packets with bodies of at most 65535 bytes and every way to cut their bytes into
  pieces, the headers and bodies come out as they were put in, in order, and nothing is left over.
\<close>

theorem framing_roundtrip:
  assumes "\<forall>(c, s, body) \<in> set ps. length body \<le> 65535" "concat pieces = wire ps"
  shows "deliver [] pieces = (received ps, [], True)"
  using server_stream.feed_concat [OF read_packet_Nil, of pieces] assms
  by (simp add: deliver_feed read_packets_wire)

lemma read_packets_length:
  "read_packets b = (ps, r, ok) \<Longrightarrow>
   (ok \<longrightarrow> length r < 16 + 65535) \<and> (\<forall>p \<in> set ps. length (snd p) \<le> 65535)"
proof (induction b arbitrary: ps rule: server_stream.prun_induct)
  case (NeedMore b)
  have le: "unat (w :: u32) \<le> 65535" if "w \<le> 65535" for w
    using that by (simp add: word_le_nat_alt)
  from NeedMore.hyps have "length b < 16 + 65535"
    by (auto simp: read_packet_def Let_def sizeof_PacketHeader_def MAX_BODY_LEN_def linorder_not_less
        dest!: le split: if_splits)
  with NeedMore show ?case by (auto simp: server_stream.prun_needmore)
next
  case (Emit b p r')
  have le: "unat (w :: u32) \<le> 65535" if "w \<le> 65535" for w
    using that by (simp add: word_le_nat_alt)
  from Emit.hyps have "length (snd p) \<le> 65535"
    by (auto simp: read_packet_def Let_def MAX_BODY_LEN_def linorder_not_less split: if_splits dest!: le)
  moreover obtain ps' where "read_packets r' = (ps', r, ok)" "ps = p # ps'"
    using Emit.prems Emit.hyps by (auto simp: server_stream.prun_emit split: prod.splits)
  ultimately show ?case using Emit.IH by auto
next
  case (Skip b r')
  then show ?case by (simp add: read_packet_never_skips)
next
  case (Abort b)
  then show ?case by (auto simp: server_stream.prun_abort)
qed

text \<open>
  A client cannot make the server buffer without limit: whatever bytes arrive in whatever pieces,
  the bytes kept between two reads are fewer than one header and one maximal body, no body handed to
  the business layer is longer than 65535 bytes, and on a bad header reading stops for good.
\<close>

theorem framing_bounded:
  assumes "length buf < 16 + 65535" "deliver buf pieces = (ps, r, ok)"
  shows "(ok \<longrightarrow> length r < 16 + 65535) \<and> (\<forall>p \<in> set ps. length (snd p) \<le> 65535) \<and>
    (\<not> ok \<longrightarrow> deliver buf (pieces @ later) = (ps, r @ concat later, False))"
  using assms
proof (induction pieces arbitrary: buf ps)
  case (Cons piece pieces)
  obtain qs buf' ok' where run: "read_packets (buf @ piece) = (qs, buf', ok')" by (cases "read_packets (buf @ piece)") auto
  note bounds = read_packets_length [OF run]
  show ?case
  proof (cases ok')
    case True
    obtain rs where rest: "deliver buf' pieces = (rs, r, ok)" "ps = qs @ rs"
      using Cons.prems(2) run True by (auto split: prod.splits)
    have "length buf' < 16 + 65535" using bounds True by simp
    from Cons.IH [OF this rest(1)] bounds rest(2) show ?thesis by (auto simp: run True)
  next
    case False
    then show ?thesis using Cons.prems(2) run bounds by auto
  qed
qed simp

section \<open>Examples\<close>

theorem framing_roundtrip_witness:
  "deliver [] [take 5 (wire [(4, 7, ''hi''), (1, 8, [])]), drop 5 (wire [(4, 7, ''hi''), (1, 8, [])])] =
    (received [(4, 7, ''hi''), (1, 8, [])], [], True)"
  by (rule framing_roundtrip) simp_all

lemma bad_stream: "deliver [] [replicate 16 (CHR ''x'')] = ([], replicate 16 (CHR ''x''), False)"
proof -
  have "magic (bytes_header (replicate 16 (CHR ''x''))) \<noteq> PROTO_MAGIC"
    by (simp add: bytes_header_def bytes_u32_def PROTO_MAGIC_def)
  then have "read_packet (replicate 16 (CHR ''x'')) = Abort"
    by (simp add: read_packet_def sizeof_PacketHeader_def Let_def)
  then show ?thesis by (simp add: server_stream.prun_abort)
qed

theorem framing_bounded_witness:
  "deliver [] ([replicate 16 (CHR ''x'')] @ [''more'']) = ([], replicate 16 (CHR ''x'') @ concat [''more''], False)"
  using framing_bounded [of "[]" "[replicate 16 (CHR ''x'')]" "[]" "replicate 16 (CHR ''x'')" False "[''more'']"]
    bad_stream
  by simp

end
