(* ===== verification/Timers.thy ===== *)
theory Timers
  imports Prelude
begin

text \<open>
  \<open>include/timer.h\<close>: timer nodes ordered by expiry and then by id, kept in a \<open>std::set\<close>. The set is a
  list of (key, callback) pairs in ascending order of the keys; the callback is a value of an
  arbitrary type, which the owner of the timer runs. The contract that the owner relies on is the
  locale \<open>timer_queue\<close>; the timer is its instance.
\<close>

section \<open>The order on timer nodes\<close>

datatype TimerNodeBase = TimerNodeBase (expire: int) (node_id: int)

definition node_less :: "TimerNodeBase \<Rightarrow> TimerNodeBase \<Rightarrow> bool" where
  "node_less a b = (if expire a \<noteq> expire b then expire a < expire b else node_id a < node_id b)"

instantiation TimerNodeBase :: linorder
begin

definition less_TimerNodeBase :: "TimerNodeBase \<Rightarrow> TimerNodeBase \<Rightarrow> bool" where
  "less_TimerNodeBase a b = node_less a b"

definition less_eq_TimerNodeBase :: "TimerNodeBase \<Rightarrow> TimerNodeBase \<Rightarrow> bool" where
  "less_eq_TimerNodeBase a b = (a = b \<or> node_less a b)"

instance
  by standard
    (auto simp: less_TimerNodeBase_def less_eq_TimerNodeBase_def node_less_def
      TimerNodeBase.expand split: if_splits)

end

lemma node_le_expire: "a \<le> b \<Longrightarrow> expire a \<le> expire b" for a b :: TimerNodeBase
  by (auto simp: less_eq_TimerNodeBase_def node_less_def split: if_splits)

section \<open>The timer\<close>

record 'f timer =
  gid :: int
  timermap :: "(TimerNodeBase \<times> 'f) list"

definition new_timer :: "'f timer" where
  "new_timer = \<lparr>gid = 0, timermap = []\<rparr>"

text \<open>\<open>std::set::insert\<close> and \<open>std::set::erase\<close> of the element with a given key.\<close>

fun tset_insert :: "TimerNodeBase \<Rightarrow> 'f \<Rightarrow> (TimerNodeBase \<times> 'f) list \<Rightarrow> (TimerNodeBase \<times> 'f) list" where
  "tset_insert k f [] = [(k, f)]"
| "tset_insert k f ((k', f') # xs) =
     (if k < k' then (k, f) # (k', f') # xs
      else if k' < k then (k', f') # tset_insert k f xs
      else (k', f') # xs)"

fun tset_erase :: "TimerNodeBase \<Rightarrow> (TimerNodeBase \<times> 'f) list \<Rightarrow> (TimerNodeBase \<times> 'f) list" where
  "tset_erase k [] = []"
| "tset_erase k ((k', f') # xs) = (if k = k' then xs else (k', f') # tset_erase k xs)"

text \<open>\<open>now\<close> is what \<open>GetTick()\<close> returns.\<close>

definition AddTimer :: "int \<Rightarrow> int \<Rightarrow> 'f \<Rightarrow> 'f timer \<Rightarrow> TimerNodeBase \<times> 'f timer" where
  "AddTimer now msec func t =
     (let g = gid t + 1; tnode = TimerNodeBase (now + msec) g
      in (tnode, t\<lparr>gid := g, timermap := tset_insert tnode func (timermap t)\<rparr>))"

definition DelTimer :: "TimerNodeBase \<Rightarrow> 'f timer \<Rightarrow> bool \<times> 'f timer" where
  "DelTimer node t =
     (if node \<in> fst ` set (timermap t)
      then (True, t\<lparr>timermap := tset_erase node (timermap t)\<rparr>)
      else (False, t))"

text \<open>
  \<open>CheckTimer\<close> up to the call of the callback: \<open>Some\<close> where the code returns \<open>true\<close>, with the node that
  was taken out, its callback (which the caller runs) and the timer.
\<close>

definition CheckTimer :: "int \<Rightarrow> 'f timer \<Rightarrow> (TimerNodeBase \<times> 'f \<times> 'f timer) option" where
  "CheckTimer now t = (case timermap t of
     [] \<Rightarrow> None
   | (k, f) # rest \<Rightarrow> if expire k \<le> now then Some (k, f, t\<lparr>timermap := rest\<rparr>) else None)"

definition TimeToSleep :: "int \<Rightarrow> 'f timer \<Rightarrow> int" where
  "TimeToSleep now t = (case timermap t of
     [] \<Rightarrow> -1
   | (k, f) # rest \<Rightarrow> let diss = expire k - now in if diss > 0 then cast_i32 diss else 0)"

section \<open>Its invariant\<close>

definition timer_inv :: "'f timer \<Rightarrow> bool" where
  "timer_inv t \<longleftrightarrow> sorted_wrt (<) (map fst (timermap t)) \<and> (\<forall>k \<in> fst ` set (timermap t). node_id k \<le> gid t)"

definition timer_entries :: "'f timer \<Rightarrow> TimerNodeBase \<rightharpoonup> 'f" where
  "timer_entries t = map_of (timermap t)"

lemma tset_insert_keys: "fst ` set (tset_insert k f xs) = insert k (fst ` set xs)"
proof (induction xs)
  case (Cons x xs)
  obtain k' f' where "x = (k', f')" by fastforce
  with Cons show ?case
    by (cases k k' rule: linorder_cases) (simp_all add: insert_commute)
qed simp

lemma tset_insert_sorted:
  "sorted_wrt (<) (map fst xs) \<Longrightarrow> sorted_wrt (<) (map fst (tset_insert k f xs))"
proof (induction xs)
  case (Cons x xs)
  obtain k' f' where x: "x = (k', f')" by fastforce
  have "\<And>y. y \<in> fst ` set (tset_insert k f xs) \<Longrightarrow> y = k \<or> y \<in> fst ` set xs"
    by (simp add: tset_insert_keys)
  with Cons show ?case by (fastforce simp: x)
qed simp

lemma tset_insert_map_of:
  "k \<notin> fst ` set xs \<Longrightarrow> map_of (tset_insert k f xs) = (map_of xs)(k \<mapsto> f)"
  by (induction xs) (auto simp: fun_eq_iff)

lemma tset_erase_subset: "fst ` set (tset_erase k xs) \<subseteq> fst ` set xs"
  by (induction k xs rule: tset_erase.induct) auto

lemma tset_erase_sorted:
  "sorted_wrt (<) (map fst xs) \<Longrightarrow> sorted_wrt (<) (map fst (tset_erase k xs))"
proof (induction xs)
  case (Cons x xs)
  with tset_erase_subset [of k xs] show ?case by (cases x) fastforce
qed simp

lemma tset_erase_map_of:
  "sorted_wrt (<) (map fst xs) \<Longrightarrow> map_of (tset_erase k xs) = (map_of xs)(k := None)"
proof (induction xs)
  case (Cons x xs)
  obtain k' f' where x: "x = (k', f')" by fastforce
  with Cons.prems have "k' \<notin> fst ` set xs" by auto
  then have "map_of xs k' = None" by (simp add: map_of_eq_None_iff)
  with Cons show ?case by (auto simp: x fun_eq_iff)
qed auto

section \<open>The contract\<close>

locale timer_queue =
  fixes entries :: "'t \<Rightarrow> TimerNodeBase \<rightharpoonup> 'f"
    and inv :: "'t \<Rightarrow> bool"
    and add :: "int \<Rightarrow> int \<Rightarrow> 'f \<Rightarrow> 't \<Rightarrow> TimerNodeBase \<times> 't"
    and del :: "TimerNodeBase \<Rightarrow> 't \<Rightarrow> bool \<times> 't"
    and check :: "int \<Rightarrow> 't \<Rightarrow> (TimerNodeBase \<times> 'f \<times> 't) option"
  assumes add_law: "inv t \<Longrightarrow> add now ms f t = (k, t') \<Longrightarrow>
      inv t' \<and> expire k = now + ms \<and> entries t k = None \<and> entries t' = (entries t)(k \<mapsto> f)"
    and del_law: "inv t \<Longrightarrow> del k t = (b, t') \<Longrightarrow>
      inv t' \<and> (b \<longleftrightarrow> entries t k \<noteq> None) \<and> entries t' = (entries t)(k := None)"
    and check_due: "inv t \<Longrightarrow> check now t = Some (k, f, t') \<Longrightarrow>
      inv t' \<and> expire k \<le> now \<and> entries t k = Some f \<and> entries t' = (entries t)(k := None) \<and>
      (\<forall>k' \<in> dom (entries t). k \<le> k')"
    and check_idle: "inv t \<Longrightarrow> check now t = None \<Longrightarrow> \<forall>k \<in> dom (entries t). now < expire k"
    and entries_finite: "finite (dom (entries t))"
begin

text \<open>Moving a deadline: cancel the old node, add a new one. Exactly one of the two is pending.\<close>

lemma rearm:
  assumes "inv t" "entries t k = Some f" "del k t = (b, t1)" "add now ms g t1 = (k', t2)"
  shows "inv t2 \<and> entries t2 = (entries t)(k := None, k' \<mapsto> g) \<and> expire k' = now + ms"
  using del_law [OF assms(1,3)] add_law [OF _ assms(4)] by simp

lemma check_shrinks:
  assumes "inv t" "check now t = Some (k, f, t')"
  shows "card (dom (entries t')) < card (dom (entries t))"
proof -
  from check_due [OF assms] have "dom (entries t') \<subset> dom (entries t)" by auto
  then show ?thesis using entries_finite [of t] by (rule psubset_card_mono [rotated])
qed

text \<open>
  The loop \<open>while (CheckTimer());\<close> with callbacks that leave the timer alone: it takes out the due
  entries, all of them, earliest first.
\<close>

primrec drain :: "nat \<Rightarrow> int \<Rightarrow> 't \<Rightarrow> TimerNodeBase list \<times> 't" where
  "drain 0 now t = ([], t)"
| "drain (Suc n) now t = (case check now t of
     None \<Rightarrow> ([], t)
   | Some (k, f, t') \<Rightarrow> (case drain n now t' of (ks, t'') \<Rightarrow> (k # ks, t'')))"

theorem drain_takes_due:
  assumes "inv t" "card (dom (entries t)) \<le> n" "drain n now t = (ks, t')"
  shows "sorted_wrt (<) ks \<and> set ks = {k \<in> dom (entries t). expire k \<le> now} \<and>
    entries t' = entries t |` {k. now < expire k}"
  using assms
proof (induction n arbitrary: t ks t')
  case 0
  then have "dom (entries t) = {}" using entries_finite [of t] by simp
  with 0 show ?case by (auto simp: restrict_map_def fun_eq_iff)
next
  case (Suc n)
  show ?case
  proof (cases "check now t")
    case None
    note idle = check_idle [OF Suc.prems(1) None]
    have "(entries t |` {k. now < expire k}) k = entries t k" for k
      using idle by (cases "entries t k") (auto simp: restrict_map_def)
    moreover have "{k \<in> dom (entries t). expire k \<le> now} = {}" using idle by force
    ultimately show ?thesis using Suc.prems(3) None by (auto simp: fun_eq_iff)
  next
    case (Some r)
    obtain k f t1 where r: "r = (k, f, t1)" by (cases r) auto
    obtain ks1 where ks1: "drain n now t1 = (ks1, t')" "ks = k # ks1"
      using Suc.prems(3) Some r by (auto split: prod.splits)
    note due = check_due [OF Suc.prems(1) Some [unfolded r]]
    have card: "card (dom (entries t1)) \<le> n"
      using check_shrinks [OF Suc.prems(1) Some [unfolded r]] Suc.prems(2) by simp
    have "inv t1" using due by blast
    then have IH: "sorted_wrt (<) ks1 \<and> set ks1 = {k \<in> dom (entries t1). expire k \<le> now} \<and>
        entries t' = entries t1 |` {k. now < expire k}"
      using card ks1(1) by (rule Suc.IH)
    have "k < k'" if "k' \<in> set ks1" for k'
      using that IH due by (auto intro: le_neq_trans)
    moreover have "entries t' = entries t |` {k. now < expire k}"
      using IH due by (intro ext) (auto simp: restrict_map_def)
    moreover have "set ks = {k \<in> dom (entries t). expire k \<le> now}"
      using IH due ks1(2) by (auto split: if_splits)
    ultimately show ?thesis using IH ks1(2) by simp
  qed
qed

end

lemma timer_inv_new: "timer_inv new_timer"
  by (simp add: timer_inv_def new_timer_def)

lemma AddTimer_fresh: "timer_inv t \<Longrightarrow> TimerNodeBase e (gid t + 1) \<notin> fst ` set (timermap t)"
  by (fastforce simp: timer_inv_def)

interpretation std_timer: timer_queue timer_entries timer_inv AddTimer DelTimer CheckTimer
proof (unfold_locales, goal_cases)
  case (1 t now ms f k t')
  then have t': "k = TimerNodeBase (now + ms) (gid t + 1)"
    "t' = t\<lparr>gid := gid t + 1, timermap := tset_insert k f (timermap t)\<rparr>"
    by (auto simp: AddTimer_def Let_def)
  moreover have "k \<notin> fst ` set (timermap t)" using 1(1) t'(1) by (simp add: AddTimer_fresh)
  ultimately show ?case using 1(1)
    by (auto simp: timer_inv_def timer_entries_def tset_insert_sorted tset_insert_keys
        tset_insert_map_of map_of_eq_None_iff)
next
  case (2 t k b t')
  show ?case
  proof (cases "k \<in> fst ` set (timermap t)")
    case True
    then have "map_of (timermap t) k \<noteq> None" by (simp add: map_of_eq_None_iff)
    moreover have "b" and t': "t' = t\<lparr>timermap := tset_erase k (timermap t)\<rparr>"
      using 2(2) True by (simp_all add: DelTimer_def)
    moreover have "\<forall>k' \<in> fst ` set (tset_erase k (timermap t)). node_id k' \<le> gid t"
      using 2(1) tset_erase_subset [of k "timermap t"] unfolding timer_inv_def by blast
    then have "timer_inv t'"
      using 2(1) by (simp add: timer_inv_def t' tset_erase_sorted)
    ultimately show ?thesis
      using 2(1) by (simp add: timer_inv_def timer_entries_def tset_erase_map_of)
  next
    case False
    then have "map_of (timermap t) k = None" by (simp add: map_of_eq_None_iff)
    with 2 False show ?thesis
      by (auto simp: DelTimer_def timer_entries_def fun_eq_iff)
  qed
next
  case (3 t now k f t')
  then obtain rest where "timermap t = (k, f) # rest" "expire k \<le> now" "t' = t\<lparr>timermap := rest\<rparr>"
    by (auto simp: CheckTimer_def split: list.splits if_splits)
  moreover from this 3(1) have "map_of rest k = None"
    by (auto simp: timer_inv_def map_of_eq_None_iff)
  ultimately show ?case using 3(1)
    by (auto simp: timer_inv_def timer_entries_def fun_eq_iff dest!: map_of_SomeD split: if_splits)
next
  case (4 t now)
  show ?case
  proof (cases "timermap t")
    case Nil
    then show ?thesis by (simp add: timer_entries_def)
  next
    case (Cons x rest)
    obtain k f where x: "x = (k, f)" by fastforce
    with 4(2) Cons have "now < expire k" by (auto simp: CheckTimer_def split: if_splits)
    moreover have "k \<le> k'" if "k' \<in> fst ` set (timermap t)" for k'
      using that 4(1) Cons x by (auto simp: timer_inv_def)
    ultimately have "now < expire k'" if "k' \<in> fst ` set (timermap t)" for k'
      using that by (blast intro: less_le_trans node_le_expire)
    then show ?thesis
      by (simp add: timer_entries_def dom_map_of_conv_image_fst)
  qed
next
  case (5 t)
  then show ?case by (simp add: timer_entries_def finite_dom_map_of)
qed

section \<open>The timer's promises\<close>

text \<open>\<open>while (timer_.CheckTimer());\<close> for callbacks that leave the timer alone; \<open>n\<close> bounds the rounds.\<close>

fun run_due :: "nat \<Rightarrow> int \<Rightarrow> 'f timer \<Rightarrow> (TimerNodeBase \<times> 'f) list \<times> 'f timer" where
  "run_due 0 now t = ([], t)"
| "run_due (Suc n) now t = (case CheckTimer now t of
     None \<Rightarrow> ([], t)
   | Some (k, f, t') \<Rightarrow> (case run_due n now t' of (fired, t'') \<Rightarrow> ((k, f) # fired, t'')))"

lemma run_due_drain: "std_timer.drain n now t = (map fst (fst (run_due n now t)), snd (run_due n now t))"
  by (induction n arbitrary: t) (auto split: option.splits prod.splits)

lemma CheckTimer_SomeD:
  "CheckTimer now t = Some (k, f, t') \<Longrightarrow> timermap t = (k, f) # timermap t' \<and> expire k \<le> now"
  by (auto simp: CheckTimer_def split: list.splits if_splits)

lemma run_due_callbacks: "set (fst (run_due n now t)) \<subseteq> set (timermap t)"
proof (induction n arbitrary: t)
  case (Suc n)
  show ?case
  proof (cases "CheckTimer now t")
    case (Some r)
    then obtain k f t' where "CheckTimer now t = Some (k, f, t')" by (cases r) auto
    then show ?thesis
      using CheckTimer_SomeD [of now t k f t'] Suc.IH [of t'] by (auto split: prod.splits)
  qed simp
qed simp

lemma card_entries: "card (dom (timer_entries t)) \<le> length (timermap t)"
  unfolding timer_entries_def dom_map_of_conv_image_fst
  by (metis card_length length_map list.set_map)

text \<open>
  Every round of the event loop runs exactly the timers that are due, each once, in the order of
  their deadlines (of two with the same deadline, the one added first), with the callback it was
  added with; the others stay. There are no more rounds than timers.
\<close>

theorem due_timers_fire:
  assumes "timer_inv t" "run_due (length (timermap t)) now t = (fired, t')"
  shows "sorted_wrt (<) (map fst fired) \<and> set fired = {(k, f). timer_entries t k = Some f \<and> expire k \<le> now} \<and>
    timer_entries t' = timer_entries t |` {k. now < expire k}"
proof -
  have "std_timer.drain (length (timermap t)) now t = (map fst fired, t')"
    using assms(2) by (simp add: run_due_drain)
  from std_timer.drain_takes_due [OF assms(1) card_entries this]
  have due: "sorted_wrt (<) (map fst fired)" "fst ` set fired = {k \<in> dom (timer_entries t). expire k \<le> now}"
    "timer_entries t' = timer_entries t |` {k. now < expire k}" by simp_all
  have dist: "distinct (map fst (timermap t))"
    using assms(1) by (auto simp: timer_inv_def strict_sorted_iff)
  have called: "timer_entries t k = Some f" if "(k, f) \<in> set fired" for k f
    using run_due_callbacks [of "length (timermap t)" now t] that assms(2) dist
    by (auto simp: timer_entries_def)
  have "(k, f) \<in> set fired" if "timer_entries t k = Some f" "expire k \<le> now" for k f
  proof -
    have "k \<in> fst ` set fired" using that due(2) by auto
    then obtain g where "(k, g) \<in> set fired" by auto
    with called [OF this] that(1) show ?thesis by simp
  qed
  moreover have "expire k \<le> now" if "(k, f) \<in> set fired" for k f
    using that due(2) by (metis (mono_tags, lifting) fst_conv image_eqI mem_Collect_eq)
  ultimately show ?thesis using due called by blast
qed

text \<open>
  The event loop never sleeps past a deadline: \<open>TimeToSleep\<close> is the time to the earliest one (0 when
  it has passed), and -1, which means no limit, only when no timer is set, as long as the earliest
  deadline is less than \<open>2 ^ 31\<close> milliseconds away.
\<close>

theorem time_to_sleep_earliest:
  assumes "timer_inv t" "\<exists>k \<in> dom (timer_entries t). expire k - now < 2 ^ 31"
  shows "0 \<le> TimeToSleep now t \<and> (\<forall>k \<in> dom (timer_entries t). TimeToSleep now t \<le> max 0 (expire k - now)) \<and>
    (\<exists>k \<in> dom (timer_entries t). TimeToSleep now t = max 0 (expire k - now))"
proof -
  obtain k0 f0 rest where t: "timermap t = (k0, f0) # rest"
    using assms(2) by (cases "timermap t") (auto simp: timer_entries_def)
  have least: "expire k0 \<le> expire k" if "k \<in> dom (timer_entries t)" for k
    using that assms(1) t unfolding timer_entries_def dom_map_of_conv_image_fst
    by (intro node_le_expire) (auto simp: timer_inv_def)
  with assms(2) have "expire k0 - now < 2 ^ 31" by fastforce
  then have sleep: "TimeToSleep now t = max 0 (expire k0 - now)"
    by (simp add: TimeToSleep_def t Let_def cast_i32_id)
  have "k0 \<in> dom (timer_entries t)" by (simp add: timer_entries_def t)
  with sleep least show ?thesis by force
qed

text \<open>
  The bound in the last property is needed: 2147483648 milliseconds away, which a heartbeat
  setting above 2147483 seconds reaches, the cast to \<open>int\<close> gives a negative number, which \<open>epoll_wait\<close>
  takes as "no limit", although a timer is set.
\<close>

theorem time_to_sleep_overflow:
  "TimeToSleep now (snd (AddTimer now 2147483648 f new_timer)) = -2147483648"
  by (simp add: TimeToSleep_def AddTimer_def new_timer_def Let_def cast_i32_def signed_take_bit_eq_if_negative)

section \<open>Examples\<close>

definition two_timers :: "string timer" where
  "two_timers = snd (AddTimer 0 20 ''late'' (snd (AddTimer 0 10 ''early'' new_timer)))"

lemma two_timers_inv: "timer_inv two_timers"
  by (simp add: two_timers_def timer_inv_def AddTimer_def new_timer_def Let_def less_TimerNodeBase_def node_less_def)

lemma two_timers_map:
  "timermap two_timers = [(TimerNodeBase 10 1, ''early''), (TimerNodeBase 20 2, ''late'')]"
  by (simp add: two_timers_def AddTimer_def new_timer_def Let_def less_TimerNodeBase_def node_less_def)

theorem due_timers_fire_witness:
  "set [(TimerNodeBase 10 1, ''early'')] = {(k, f). timer_entries two_timers k = Some f \<and> expire k \<le> 15}"
  using due_timers_fire [OF two_timers_inv, of 15 "[(TimerNodeBase 10 1, ''early'')]"
      "two_timers\<lparr>timermap := [(TimerNodeBase 20 2, ''late'')]\<rparr>"]
  by (simp add: two_timers_map CheckTimer_def numeral_2_eq_2)

theorem time_to_sleep_earliest_witness: "TimeToSleep 3 two_timers = 7"
proof -
  have dom: "dom (timer_entries two_timers) = {TimerNodeBase 10 1, TimerNodeBase 20 2}"
    by (auto simp: timer_entries_def two_timers_map dom_def)
  show ?thesis using time_to_sleep_earliest [OF two_timers_inv, of 3] by (auto simp: dom)
qed

end
