(* ===== verification/Thread_Pool.thy ===== *)
theory Thread_Pool
  imports Prelude
begin

text \<open>
  \<open>include/thread_pool.h\<close>, and the contract of a bounded first-in-first-out queue that it offers to
  the rest of the server (locale \<open>bounded_fifo\<close>). A task is a value of an arbitrary type.
\<close>

section \<open>Bounded queues\<close>

datatype 'a qop = Enq 'a | Deq

locale bounded_fifo =
  fixes enq :: "'a \<Rightarrow> 'q \<Rightarrow> bool \<times> 'q"
    and deq :: "'q \<Rightarrow> ('a \<times> 'q) option"
    and items :: "'q \<Rightarrow> 'a list"
    and cap :: nat
  assumes enq_accept: "length (items q) < cap \<Longrightarrow> enq x q = (b, q') \<Longrightarrow> b \<and> items q' = items q @ [x]"
    and enq_refuse: "cap \<le> length (items q) \<Longrightarrow> enq x q = (b, q') \<Longrightarrow> \<not> b \<and> q' = q"
    and deq_none: "deq q = None \<Longrightarrow> items q = []"
    and deq_some: "deq q = Some (x, q') \<Longrightarrow> items q = x # items q'"
begin

text \<open>A run of operations: what was accepted, what was taken out, and the queue at the end.\<close>

fun run :: "'q \<Rightarrow> 'a qop list \<Rightarrow> 'a list \<times> 'a list \<times> 'q" where
  "run q [] = ([], [], q)"
| "run q (Enq x # ops) = (case enq x q of
     (b, q') \<Rightarrow> (case run q' ops of (acc, out, q'') \<Rightarrow> (if b then x # acc else acc, out, q'')))"
| "run q (Deq # ops) = (case deq q of
     None \<Rightarrow> run q ops
   | Some (x, q') \<Rightarrow> (case run q' ops of (acc, out, q'') \<Rightarrow> (acc, x # out, q'')))"

text \<open>Nothing accepted is lost, duplicated or reordered.\<close>

theorem run_fifo: "run q ops = (acc, out, q') \<Longrightarrow> out @ items q' = items q @ acc"
proof (induction q ops arbitrary: acc out rule: run.induct)
  case (1 q)
  then show ?case by simp
next
  case (2 q x ops)
  obtain b q1 where enq: "enq x q = (b, q1)" by fastforce
  obtain acc1 where run: "run q1 ops = (acc1, out, q')" "acc = (if b then x # acc1 else acc1)"
    using "2.prems" enq by (auto split: prod.splits)
  have "out @ items q' = items q1 @ acc1" using "2.IH" [OF enq [symmetric] run(1)] by simp
  then show ?case
    using run(2) enq_accept [OF _ enq] enq_refuse [OF _ enq] by (cases "length (items q) < cap") auto
next
  case (3 q ops)
  then show ?case
    by (fastforce split: option.splits prod.splits dest: deq_some deq_none)
qed

theorem run_bounded:
  "length (items q) \<le> cap \<Longrightarrow> run q ops = (acc, out, q') \<Longrightarrow> length (items q') \<le> cap"
proof (induction q ops arbitrary: acc out rule: run.induct)
  case (1 q)
  then show ?case by simp
next
  case (2 q x ops)
  obtain b q1 where enq: "enq x q = (b, q1)" by fastforce
  obtain acc1 where run: "run q1 ops = (acc1, out, q')"
    using "2.prems" enq by (auto split: prod.splits)
  have "length (items q1) \<le> cap"
    using "2.prems"(1) enq_accept [OF _ enq] enq_refuse [OF _ enq]
    by (cases "length (items q) < cap") auto
  then show ?case using "2.IH" [OF enq [symmetric] _ run] by simp
next
  case (3 q ops)
  then show ?case
    by (fastforce split: option.splits prod.splits dest: deq_some)
qed

end

section \<open>The pool\<close>

record 'a thread_pool =
  tasks :: "'a list"
  stop :: bool

definition new_pool :: "'a thread_pool" where
  "new_pool = \<lparr>tasks = [], stop = False\<rparr>"

definition enqueue :: "'a \<Rightarrow> 'a thread_pool \<Rightarrow> bool \<times> 'a thread_pool" where
  "enqueue task p =
     (if length (tasks p) > 200000 then (False, p) else (True, p\<lparr>tasks := tasks p @ [task]\<rparr>))"

text \<open>
  What a pool thread does each time it holds the lock: wait on the condition variable, leave, or
  take the oldest task (which it then runs without the lock).
\<close>

datatype 'a pool_action = Wait | Leave | Run 'a

definition thread_step :: "'a thread_pool \<Rightarrow> 'a pool_action \<times> 'a thread_pool" where
  "thread_step p =
     (if \<not> stop p \<and> tasks p = [] then (Wait, p)
      else if stop p \<and> tasks p = [] then (Leave, p)
      else (Run (hd (tasks p)), p\<lparr>tasks := tl (tasks p)\<rparr>))"

definition pool_shutdown :: "'a thread_pool \<Rightarrow> 'a thread_pool" where
  "pool_shutdown p = p\<lparr>stop := True\<rparr>"

definition take_task :: "'a thread_pool \<Rightarrow> ('a \<times> 'a thread_pool) option" where
  "take_task p = (case thread_step p of (Run t, p') \<Rightarrow> Some (t, p') | _ \<Rightarrow> None)"

lemma take_task_Nil: "tasks p = [] \<Longrightarrow> take_task p = None"
  by (simp add: take_task_def thread_step_def)

lemma take_task_Cons: "tasks p = t # ts \<Longrightarrow> take_task p = Some (t, p\<lparr>tasks := ts\<rparr>)"
  by (simp add: take_task_def thread_step_def)

interpretation pool_queue: bounded_fifo enqueue take_task tasks 200001
  by unfold_locales
    (auto simp: enqueue_def take_task_def thread_step_def neq_Nil_conv split: if_splits)

text \<open>
  The destructor sets \<open>stop_\<close> and joins. A thread that keeps taking tasks runs every one that is
  queued before it leaves, and it does leave.
\<close>

fun drain_pool :: "nat \<Rightarrow> 'a thread_pool \<Rightarrow> 'a list option" where
  "drain_pool 0 p = None"
| "drain_pool (Suc fuel) p = (case thread_step p of
     (Wait, p') \<Rightarrow> None
   | (Leave, p') \<Rightarrow> Some []
   | (Run t, p') \<Rightarrow> map_option ((#) t) (drain_pool fuel p'))"

lemma drain_pool_all:
  "stop p \<Longrightarrow> length (tasks p) < fuel \<Longrightarrow> drain_pool fuel p = Some (tasks p)"
proof (induction fuel arbitrary: p)
  case (Suc fuel)
  then show ?case by (cases "tasks p") (simp_all add: thread_step_def)
qed simp

section \<open>The pool's promises\<close>

text \<open>A history of the pool: tasks handed in by \<open>enqueue\<close> and tasks taken by its threads.\<close>

fun pool_run :: "'a thread_pool \<Rightarrow> 'a qop list \<Rightarrow> 'a list \<times> 'a list \<times> 'a thread_pool" where
  "pool_run p [] = ([], [], p)"
| "pool_run p (Enq x # ops) = (case enqueue x p of
     (b, p') \<Rightarrow> (case pool_run p' ops of (acc, out, p'') \<Rightarrow> (if b then x # acc else acc, out, p'')))"
| "pool_run p (Deq # ops) = (case thread_step p of
     (Run x, p') \<Rightarrow> (case pool_run p' ops of (acc, out, p'') \<Rightarrow> (acc, x # out, p''))
   | (_, p') \<Rightarrow> pool_run p' ops)"

lemma pool_run_queue: "pool_run p ops = pool_queue.run p ops"
proof (induction p ops rule: pool_run.induct)
  case (2 p x ops)
  then show ?case by (cases "enqueue x p") simp
next
  case (3 p ops)
  then show ?case
    by (cases "tasks p"; cases "stop p")
      (simp_all add: take_task_Nil take_task_Cons, simp_all add: thread_step_def)
qed simp

text \<open>
  The thread pool is a bounded first-in-first-out queue: over any history, the tasks that were
  accepted are, in order, those that were taken followed by those still waiting; there are never more
  than 200001 waiting, and a task is refused only when there are that many.
\<close>

theorem pool_fifo:
  assumes "pool_run new_pool ops = (acc, out, p)"
  shows "out @ tasks p = acc \<and> length (tasks p) \<le> 200001 \<and>
    (fst (enqueue x p) \<longleftrightarrow> length (tasks p) < 200001)"
  using pool_queue.run_fifo [of new_pool ops acc out p] pool_queue.run_bounded [of new_pool ops acc out p] assms
  by (auto simp: pool_run_queue new_pool_def enqueue_def)

text \<open>
  Shutting down loses no task: after the destructor has set \<open>stop_\<close>, a thread runs every task that
  was accepted and is still waiting, in order, and then leaves.
\<close>

theorem shutdown_runs_all:
  assumes "pool_run new_pool ops = (acc, out, p)"
  shows "\<exists>done. drain_pool (length (tasks p) + 1) (pool_shutdown p) = Some done \<and> out @ done = acc"
  using pool_queue.run_fifo [of new_pool ops acc out p] assms
    drain_pool_all [of "pool_shutdown p" "length (tasks p) + 1"]
  by (auto simp: pool_run_queue new_pool_def pool_shutdown_def)

section \<open>Examples\<close>

lemma small_run: "pool_run new_pool [Enq 1, Enq 2, Deq] = ([1, 2], [1], \<lparr>tasks = [2::int], stop = False\<rparr>)"
  by (simp add: new_pool_def enqueue_def thread_step_def)

theorem pool_fifo_witness:
  "[1] @ [2] = [1, 2::int] \<and> length [2::int] \<le> 200001 \<and>
   (fst (enqueue 3 \<lparr>tasks = [2::int], stop = False\<rparr>) \<longleftrightarrow> length [2::int] < 200001)"
  using pool_fifo [OF small_run, of 3] by simp

theorem shutdown_runs_all_witness:
  "\<exists>done. drain_pool 2 (pool_shutdown \<lparr>tasks = [2::int], stop = False\<rparr>) = Some done \<and> [1] @ done = [1, 2]"
  using shutdown_runs_all [OF small_run] by (simp add: numeral_2_eq_2)

end
