(* ===== verification/Context.thy ===== *)
theory Context
  imports Prelude
begin

text \<open>
  \<open>include/context.h\<close> and the first part of \<open>src/worker.cpp\<close>: the per-client context and the pool that
  recycles contexts. Contexts are shared objects (\<open>std::shared_ptr\<close>): they live in a heap, a function
  from references to contexts, and everything else holds references.
\<close>

type_synonym ctx_ref = nat

record ClientContext =
  cc_fd :: int
  cc_uid :: int
  cc_logged_in :: bool
  cc_last_active :: int
  cc_recv_buf :: string
  cc_send_buf :: string
  cc_writing :: bool
  cc_owner_worker :: "nat option"
  cc_pool_idx :: int
  cc_rate_window_start :: int
  cc_rate_msg_count :: int

definition new_ClientContext :: ClientContext where
  "new_ClientContext = \<lparr>cc_fd = -1, cc_uid = 0, cc_logged_in = False, cc_last_active = 0,
     cc_recv_buf = [], cc_send_buf = [], cc_writing = False, cc_owner_worker = None, cc_pool_idx = -1,
     cc_rate_window_start = 0, cc_rate_msg_count = 0\<rparr>"

definition ctx_reset :: "ClientContext \<Rightarrow> ClientContext" where
  "ctx_reset c = c\<lparr>cc_fd := -1, cc_uid := 0, cc_logged_in := False, cc_last_active := 0,
     cc_recv_buf := [], cc_send_buf := [], cc_writing := False,
     cc_rate_window_start := 0, cc_rate_msg_count := 0\<rparr>"

definition update_time :: "int \<Rightarrow> ClientContext \<Rightarrow> ClientContext" where
  "update_time now_sec c = c\<lparr>cc_last_active := now_sec\<rparr>"

section \<open>The heap of contexts\<close>

record ctx_heap =
  hp :: "ctx_ref \<Rightarrow> ClientContext"
  hp_next :: ctx_ref

definition make_shared :: "ClientContext \<Rightarrow> ctx_heap \<Rightarrow> ctx_ref \<times> ctx_heap" where
  "make_shared c h = (hp_next h, h\<lparr>hp := (hp h)(hp_next h := c), hp_next := hp_next h + 1\<rparr>)"

definition heap_upd :: "ctx_ref \<Rightarrow> (ClientContext \<Rightarrow> ClientContext) \<Rightarrow> ctx_heap \<Rightarrow> ctx_heap" where
  "heap_upd r f h = h\<lparr>hp := (hp h)(r := f (hp h r))\<rparr>"

lemma hp_heap_upd [simp]: "hp (heap_upd r f h) r' = (if r' = r then f (hp h r) else hp h r')"
  by (simp add: heap_upd_def)

lemma hp_next_heap_upd [simp]: "hp_next (heap_upd r f h) = hp_next h"
  by (simp add: heap_upd_def)

section \<open>The pool\<close>

record context_pool =
  storage :: "ctx_ref list"
  free_list :: "nat list"

text \<open>The constructor: \<open>size\<close> contexts of worker \<open>w\<close>, all of them free.\<close>

primrec ContextPool :: "nat \<Rightarrow> nat \<Rightarrow> ctx_heap \<Rightarrow> context_pool \<times> ctx_heap" where
  "ContextPool 0 w h = (\<lparr>storage = [], free_list = []\<rparr>, h)"
| "ContextPool (Suc i) w h = (case ContextPool i w h of (p, h1) \<Rightarrow>
     (case make_shared (new_ClientContext\<lparr>cc_owner_worker := Some w, cc_pool_idx := int i\<rparr>) h1 of
       (r, h2) \<Rightarrow> (p\<lparr>storage := storage p @ [r], free_list := free_list p @ [i]\<rparr>, h2)))"

text \<open>
  \<open>acquire\<close>: the context on top of the free list, or a fresh one with neither an owner nor a place in
  the pool when the list is empty.
\<close>

definition acquire :: "context_pool \<Rightarrow> ctx_heap \<Rightarrow> ctx_ref \<times> context_pool \<times> ctx_heap" where
  "acquire p h =
     (if free_list p = [] then (case make_shared new_ClientContext h of (r, h') \<Rightarrow> (r, p, h'))
      else let idx = last (free_list p) in
        (storage p ! idx, p\<lparr>free_list := butlast (free_list p)\<rparr>, h))"

definition release :: "ctx_ref \<Rightarrow> context_pool \<Rightarrow> ctx_heap \<Rightarrow> context_pool \<times> ctx_heap" where
  "release r p h =
     (if cc_pool_idx (hp h r) = -1 then (p, h)
      else (p\<lparr>free_list := free_list p @ [nat (cc_pool_idx (hp h r))]\<rparr>, heap_upd r ctx_reset h))"

section \<open>The pool's invariant\<close>

text \<open>
  Every place of the pool is either free or lent, never both and never twice: the free list and
  the list \<open>lent\<close> of the pooled contexts in use are, together, a permutation of the places. Each place
  holds a context of the pool's worker that knows its place.
\<close>

definition pool_inv :: "nat \<Rightarrow> nat list \<Rightarrow> context_pool \<Rightarrow> ctx_heap \<Rightarrow> bool" where
  "pool_inv w lent p h \<longleftrightarrow>
     distinct (storage p) \<and> (\<forall>r \<in> set (storage p). r < hp_next h) \<and>
     distinct (free_list p @ lent) \<and> set (free_list p @ lent) = {..<length (storage p)} \<and>
     (\<forall>i < length (storage p). cc_pool_idx (hp h (storage p ! i)) = int i \<and>
        cc_owner_worker (hp h (storage p ! i)) = Some w)"

lemma ContextPool_props:
  assumes "ContextPool n w h = (p, h')"
  shows "hp_next h' = hp_next h + n \<and> storage p = [hp_next h ..< hp_next h + n] \<and> free_list p = [0..<n] \<and>
    (\<forall>r < hp_next h. hp h' r = hp h r) \<and>
    (\<forall>i < n. hp h' (hp_next h + i) = new_ClientContext\<lparr>cc_owner_worker := Some w, cc_pool_idx := int i\<rparr>)"
  using assms
proof (induction n arbitrary: p h')
  case (Suc n)
  obtain p1 h1 where p1: "ContextPool n w h = (p1, h1)" by fastforce
  note IH = Suc.IH [OF p1]
  from Suc.prems p1 IH have "p = p1\<lparr>storage := storage p1 @ [hp_next h + n], free_list := free_list p1 @ [n]\<rparr>"
    "h' = h1\<lparr>hp := (hp h1)(hp_next h + n := new_ClientContext\<lparr>cc_owner_worker := Some w, cc_pool_idx := int n\<rparr>),
       hp_next := hp_next h + n + 1\<rparr>"
    by (auto simp: make_shared_def)
  with IH show ?case by (auto simp: less_Suc_eq)
qed simp

lemma pool_inv_new:
  assumes "ContextPool n w h = (p, h')"
  shows "pool_inv w [] p h'"
  using ContextPool_props [OF assms] by (auto simp: pool_inv_def new_ClientContext_def)

text \<open>Taking a context from a pool that has one: it moves from the free places to the lent ones.\<close>

lemma acquire_pooled:
  assumes "pool_inv w lent p h" "free_list p \<noteq> []" "acquire p h = (r, p', h')"
  shows "pool_inv w (last (free_list p) # lent) p' h' \<and> h' = h \<and> storage p' = storage p \<and>
    r = storage p ! last (free_list p) \<and> cc_owner_worker (hp h' r) = Some w \<and>
    cc_pool_idx (hp h' r) = int (last (free_list p)) \<and> last (free_list p) \<notin> set lent"
proof -
  obtain xs x where fl: "free_list p = xs @ [x]" using assms(2) by (cases "free_list p" rule: rev_cases) auto
  with assms(3) have eqs: "r = storage p ! x" "h' = h" "p' = p\<lparr>free_list := xs\<rparr>"
    by (simp_all add: acquire_def)
  from assms(1) fl have "x \<in> {..<length (storage p)}" unfolding pool_inv_def by (metis UnI1 in_set_conv_decomp set_append)
  with assms(1) fl eqs show ?thesis by (auto simp: pool_inv_def)
qed

lemma acquire_exhausted:
  assumes "free_list p = []" "acquire p h = (r, p', h')"
  shows "p' = p \<and> r = hp_next h \<and> hp h' = (hp h)(r := new_ClientContext) \<and> hp_next h' = hp_next h + 1"
  using assms by (auto simp: acquire_def make_shared_def)

text \<open>
  Giving a lent context back: its place is free again, and the context is as new but for its owner
  and place.
\<close>

lemma release_pooled:
  assumes "pool_inv w (xs @ i # ys) p h" "r = storage p ! i" "release r p h = (p', h')"
  shows "pool_inv w (xs @ ys) p' h' \<and> hp h' r = new_ClientContext\<lparr>cc_owner_worker := Some w, cc_pool_idx := int i\<rparr>
    \<and> (\<forall>r'. r' \<noteq> r \<longrightarrow> hp h' r' = hp h r') \<and> hp_next h' = hp_next h \<and> storage p' = storage p"
proof -
  have "i \<in> set (free_list p @ xs @ i # ys)" by simp
  then have i: "i < length (storage p)" using assms(1) unfolding pool_inv_def by (metis lessThan_iff)
  with assms(1,2) have idx: "cc_pool_idx (hp h r) = int i" "cc_owner_worker (hp h r) = Some w"
    by (auto simp: pool_inv_def)
  with assms(3) have eqs: "p' = p\<lparr>free_list := free_list p @ [i]\<rparr>" "h' = heap_upd r ctx_reset h"
    by (auto simp: release_def)
  have "hp h' r = new_ClientContext\<lparr>cc_owner_worker := Some w, cc_pool_idx := int i\<rparr>"
    using idx by (cases "hp h r") (simp add: eqs ctx_reset_def new_ClientContext_def)
  moreover have "pool_inv w (xs @ ys) p' h'"
    using assms(1) by (auto simp: pool_inv_def eqs ctx_reset_def)
  ultimately show ?thesis by (simp add: eqs)
qed

lemma release_unpooled: "cc_pool_idx (hp h r) = -1 \<Longrightarrow> release r p h = (p, h)"
  by (simp add: release_def)

end
