(* ===== verification/Session.thy ===== *)
theory Session
  imports Context Protocol
begin

text \<open>
  \<open>include/session_manager.h\<close>: the table of logged-in users, split into 1024 buckets by the user id.
  The bucket operations are here; \<open>bind\<close>, which also changes the context and may ask a worker to close
  a connection, is composed from them in \<open>Server\<close>. The split is an implementation detail: through the
  contract \<open>session_table\<close> the buckets are one map from user ids to contexts.
\<close>

text \<open>\<open>std::vector<Bucket> buckets_{1024}\<close>, which is never resized: a list of exactly 1024 maps.\<close>

typedef buckets = "{b :: (int \<rightharpoonup> ctx_ref) list. length b = 1024}"
  by (rule exI [of _ "replicate 1024 Map.empty"]) simp

setup_lifting type_definition_buckets

lift_definition no_sessions :: buckets is "replicate 1024 Map.empty"
  by simp

text \<open>\<open>static_cast<uint32_t>(uid) % 1024\<close>.\<close>

definition bucket_of :: "int \<Rightarrow> nat" where
  "bucket_of uid = unat (word_of_int uid :: u32) mod 1024"

lift_definition bucket_count :: "buckets \<Rightarrow> nat" is length .

lift_definition session_get :: "buckets \<Rightarrow> int \<Rightarrow> ctx_ref option" is "\<lambda>b uid. (b ! bucket_of uid) uid" .

lift_definition session_put :: "int \<Rightarrow> ctx_ref \<Rightarrow> buckets \<Rightarrow> buckets" is
  "\<lambda>uid c b. b[bucket_of uid := (b ! bucket_of uid)(uid \<mapsto> c)]"
  by simp

lift_definition unbind :: "int \<Rightarrow> buckets \<Rightarrow> buckets" is
  "\<lambda>uid b. b[bucket_of uid := (b ! bucket_of uid)(uid := None)]"
  by simp

lemma bucket_of_less: "bucket_of uid < 1024"
  by (simp add: bucket_of_def)

text \<open>The bucket of an id is its remainder, and the remainder of a negative id is not negative.\<close>

lemma bucket_of_mod: "int (bucket_of uid) = uid mod 1024"
proof -
  have "int (bucket_of uid) = uid mod 2 ^ 32 mod 1024"
    by (simp add: bucket_of_def zmod_int unsigned_of_int take_bit_eq_mod)
  also have "\<dots> = uid mod 1024" by (rule mod_mod_cancel) (simp add: dvd_def)
  finally show ?thesis .
qed

text \<open>Well-formed buckets: an id is only in its own bucket.\<close>

lift_definition session_inv :: "buckets \<Rightarrow> bool" is
  "\<lambda>b. \<forall>i uid. i < 1024 \<and> (b ! i) uid \<noteq> None \<longrightarrow> i = bucket_of uid" .

text \<open>The table the buckets stand for: what a scan of all of them would find.\<close>

lift_definition session_abs :: "buckets \<Rightarrow> int \<rightharpoonup> ctx_ref" is
  "\<lambda>b uid. case List.find (\<lambda>m. m uid \<noteq> None) b of None \<Rightarrow> None | Some m \<Rightarrow> m uid" .

lemma session_get_no [simp]: "session_get no_sessions u = None"
  by transfer (simp add: bucket_of_less)

section \<open>The contract\<close>

locale session_table =
  fixes empty :: 't
    and get :: "'t \<Rightarrow> int \<Rightarrow> 'c option"
    and put :: "int \<Rightarrow> 'c \<Rightarrow> 't \<Rightarrow> 't"
    and erase :: "int \<Rightarrow> 't \<Rightarrow> 't"
    and abs :: "'t \<Rightarrow> int \<rightharpoonup> 'c"
    and inv :: "'t \<Rightarrow> bool"
  assumes inv_empty: "inv empty"
    and abs_empty: "abs empty = Map.empty"
    and inv_put: "inv t \<Longrightarrow> inv (put u c t)"
    and inv_erase: "inv t \<Longrightarrow> inv (erase u t)"
    and get_abs: "inv t \<Longrightarrow> get t u = abs t u"
    and put_abs: "inv t \<Longrightarrow> abs (put u c t) = (abs t)(u \<mapsto> c)"
    and erase_abs: "inv t \<Longrightarrow> abs (erase u t) = (abs t)(u := None)"
begin

lemma get_put: "inv t \<Longrightarrow> get (put u c t) u' = (if u' = u then Some c else get t u')"
  by (simp add: get_abs inv_put put_abs)

lemma get_erase: "inv t \<Longrightarrow> get (erase u t) u' = (if u' = u then None else get t u')"
  by (simp add: get_abs inv_erase erase_abs)

text \<open>Operations on different users commute: no bucket is shared by accident.\<close>

lemma put_erase_other:
  "inv t \<Longrightarrow> u \<noteq> v \<Longrightarrow> get (put u c (erase v t)) w = get (erase v (put u c t)) w"
  by (auto simp: get_put get_erase inv_put inv_erase)

end

lemma session_abs_get:
  assumes "session_inv b"
  shows "session_abs b = session_get b"
  using assms
proof (transfer, intro ext)
  fix b :: "(int \<rightharpoonup> ctx_ref) list" and uid
  assume len: "length b = 1024" and inv: "\<forall>i uid. i < 1024 \<and> (b ! i) uid \<noteq> None \<longrightarrow> i = bucket_of uid"
  show "(case List.find (\<lambda>m. m uid \<noteq> None) b of None \<Rightarrow> None | Some m \<Rightarrow> m uid) = (b ! bucket_of uid) uid"
  proof (cases "List.find (\<lambda>m. m uid \<noteq> None) b")
    case None
    then have "(b ! bucket_of uid) uid = None"
      using bucket_of_less [of uid] len nth_mem [of "bucket_of uid" b] by (auto simp: find_None_iff)
    with None show ?thesis by simp
  next
    case (Some m)
    then obtain i where "i < 1024" "m = b ! i" "m uid \<noteq> None" using len by (auto simp: find_Some_iff)
    with inv have "m = b ! bucket_of uid" by auto
    with Some show ?thesis by simp
  qed
qed

lemma session_inv_put: "session_inv b \<Longrightarrow> session_inv (session_put uid c b)"
  by transfer (auto simp: nth_list_update bucket_of_less split: if_splits)

lemma session_inv_unbind: "session_inv b \<Longrightarrow> session_inv (unbind uid b)"
  by transfer (auto simp: nth_list_update bucket_of_less split: if_splits)

lemma session_get_put [simp]:
  "session_get (session_put uid c b) u = (if u = uid then Some c else session_get b u)"
  by transfer (simp add: nth_list_update bucket_of_less)

lemma session_get_unbind [simp]:
  "session_get (unbind uid b) u = (if u = uid then None else session_get b u)"
  by transfer (simp add: nth_list_update bucket_of_less)

interpretation sessions: session_table no_sessions session_get session_put unbind session_abs session_inv
proof (unfold_locales, goal_cases)
  case 1
  show ?case by transfer auto
next
  case 2
  show ?case by transfer (auto simp: fun_eq_iff find_Some_iff split: option.split)
next
  case (3 t u c)
  then show ?case by (rule session_inv_put)
next
  case (4 t u)
  then show ?case by (rule session_inv_unbind)
next
  case (5 t u)
  then show ?case by (simp add: session_abs_get)
next
  case (6 t u c)
  then show ?case by (simp add: session_abs_get session_inv_put fun_eq_iff)
next
  case (7 t u)
  then show ?case by (simp add: session_abs_get session_inv_unbind fun_eq_iff)
qed

section \<open>The buckets are one table\<close>

datatype session_op = PutSession int ctx_ref | EraseSession int

fun session_step :: "session_op \<Rightarrow> buckets \<Rightarrow> buckets" where
  "session_step (PutSession u c) b = session_put u c b"
| "session_step (EraseSession u) b = unbind u b"

fun table_step :: "session_op \<Rightarrow> (int \<rightharpoonup> ctx_ref) \<Rightarrow> (int \<rightharpoonup> ctx_ref)" where
  "table_step (PutSession u c) m = m(u \<mapsto> c)"
| "table_step (EraseSession u) m = m(u := None)"

lemma session_step_refines:
  "session_inv b \<Longrightarrow> session_inv (session_step op b) \<and> session_abs (session_step op b) = table_step op (session_abs b)"
  by (cases op) (simp_all add: sessions.inv_put sessions.inv_erase sessions.put_abs sessions.erase_abs)

lemma session_history:
  "session_inv b \<Longrightarrow> session_inv (fold session_step ops b) \<and>
   session_abs (fold session_step ops b) = fold table_step ops (session_abs b)"
  by (induction ops arbitrary: b) (simp_all add: session_step_refines)

text \<open>
  C32. The 1024 buckets behave as one table: the bucket of any id, negative ids included, is its remainder modulo 1024 and lies
  within the vector, and after any history of binds and unbinds, looking a user up in that bucket gives what a single map
  from user ids to contexts would give.
\<close>

theorem buckets_are_one_table:
  "bucket_of uid < bucket_count (fold session_step ops no_sessions) \<and> int (bucket_of uid) = uid mod 1024 \<and>
   session_get (fold session_step ops no_sessions) uid = fold table_step ops Map.empty uid"
proof -
  have "session_inv no_sessions" by (rule sessions.inv_empty)
  from session_history [OF this, of ops] have "session_get (fold session_step ops no_sessions) uid = fold table_step ops Map.empty uid"
    by (simp add: sessions.get_abs sessions.abs_empty)
  moreover have "bucket_count b = 1024" for b by transfer simp
  ultimately show ?thesis by (simp add: bucket_of_less bucket_of_mod)
qed

end
