(* ===== verification/Server.thy ===== *)
theory Server
  imports Framing Timers Thread_Pool Session Db_Writer
begin

text \<open>
  The state of the running server and the code of its worker threads: \<open>src/event_loop.cpp\<close>,
  \<open>src/worker.cpp\<close>, \<open>src/connection.cpp\<close>, \<open>SessionManager::bind\<close> and the part of the AI manager that a
  closing connection calls. One handler (an event of a connection, a timer, a queued functor) is one
  step: a worker thread runs them one after the other, and what the threads share (sessions, task
  queue, functor queues, AI manager) is locked inside each call.

  The clock does not move within a step. \<open>sv_tick\<close> is \<open>steady_clock\<close> in milliseconds and \<open>sv_wall\<close> is
  \<open>system_clock\<close> in milliseconds.
\<close>

unbundle bit_operations_syntax

section \<open>State\<close>

text \<open>The closures that are handed to \<open>EventLoop::queue_in_loop\<close>.\<close>

datatype loop_fn = FnAddConn int string u16 | FnSendPacket ctx_ref u32 u32 string | FnClose int

record TcpConnection =
  tc_fd :: int
  tc_ip :: string
  tc_port :: u16
  tc_ctx :: ctx_ref
  tc_closed :: bool

text \<open>
  A worker with its event loop. The callback of a timer is the descriptor that it closes; \<open>w_epoll\<close> is
  the interest list of the worker's epoll instance. The pointer that epoll keeps for a descriptor is
  the connection of that descriptor in \<open>w_connections\<close>. \<open>w_running\<close> is the local variable \<open>fs\<close> of
  \<open>do_pending_functors\<close>: the functors of the current round that did not run yet.
\<close>

record worker =
  w_pool :: context_pool
  w_connections :: "int \<rightharpoonup> TcpConnection"
  w_timer :: "int timer"
  w_heartbeat :: "int \<rightharpoonup> TimerNodeBase"
  w_pending :: "loop_fn list"
  w_running :: "loop_fn list"
  w_epoll :: "int \<rightharpoonup> u32"

record StreamRequest =
  sr_uid :: int
  sr_prompt :: string
  sr_ctx :: ctx_ref
  sr_timestamp :: int
  sr_seq :: int

record ai_manager =
  pending_requests :: "StreamRequest list"
  active_streams :: "(int \<times> StreamRequest) list"
  max_concurrent :: nat

text \<open>
  The local variables of a pool thread that is in \<open>process_stream_request\<close>; the \<open>stream_seq\<close> of the request
  counts the packets sent.
\<close>

record ai_stream =
  as_req :: StreamRequest
  as_buffer :: string
  as_last_flush :: int
  as_conn_lost :: bool

text \<open>What the thread pool runs.\<close>

datatype task = TaskBusiness ctx_ref PacketHeader string | TaskStream StreamRequest

text \<open>\<open>sv_open\<close> is the set of the process's open sockets.\<close>

record ('t, 'm) server =
  sv_env :: env
  sv_tick :: int
  sv_wall :: int
  sv_open :: "int set"
  sv_heap :: ctx_heap
  sv_worker :: "nat \<Rightarrow> worker"
  sv_sessions :: buckets
  sv_pool :: "task thread_pool"
  sv_db :: "('t, 'm) db option"
  sv_ai :: ai_manager
  sv_streams :: "ai_stream list"
  sv_conn_count :: int

type_synonym ('t, 'm, 'a) sprog = "(('t, 'm) server, 'a) prog"

definition upd_worker :: "nat \<Rightarrow> (worker \<Rightarrow> worker) \<Rightarrow> ('t, 'm) server \<Rightarrow> ('t, 'm) server" where
  "upd_worker w f s = s\<lparr>sv_worker := (sv_worker s)(w := f (sv_worker s w))\<rparr>"

definition upd_ctx :: "ctx_ref \<Rightarrow> (ClientContext \<Rightarrow> ClientContext) \<Rightarrow> ('t, 'm) server \<Rightarrow> ('t, 'm) server" where
  "upd_ctx r f s = s\<lparr>sv_heap := heap_upd r f (sv_heap s)\<rparr>"

abbreviation ctx_of :: "('t, 'm) server \<Rightarrow> ctx_ref \<Rightarrow> ClientContext" where
  "ctx_of s r \<equiv> hp (sv_heap s) r"

abbreviation conns :: "('t, 'm) server \<Rightarrow> nat \<Rightarrow> int \<rightharpoonup> TcpConnection" where
  "conns s w \<equiv> w_connections (sv_worker s w)"

lemma upd_worker_sel [simp]:
  "sv_worker (upd_worker w f s) w' = (if w' = w then f (sv_worker s w) else sv_worker s w')"
  "sv_env (upd_worker w f s) = sv_env s" "sv_tick (upd_worker w f s) = sv_tick s"
  "sv_wall (upd_worker w f s) = sv_wall s" "sv_open (upd_worker w f s) = sv_open s"
  "sv_heap (upd_worker w f s) = sv_heap s" "sv_sessions (upd_worker w f s) = sv_sessions s"
  "sv_pool (upd_worker w f s) = sv_pool s" "sv_db (upd_worker w f s) = sv_db s"
  "sv_ai (upd_worker w f s) = sv_ai s" "sv_streams (upd_worker w f s) = sv_streams s" "sv_conn_count (upd_worker w f s) = sv_conn_count s"
  by (simp_all add: upd_worker_def)

lemma upd_ctx_sel [simp]:
  "sv_worker (upd_ctx r f s) = sv_worker s" "sv_heap (upd_ctx r f s) = heap_upd r f (sv_heap s)"
  "sv_env (upd_ctx r f s) = sv_env s" "sv_tick (upd_ctx r f s) = sv_tick s"
  "sv_wall (upd_ctx r f s) = sv_wall s" "sv_open (upd_ctx r f s) = sv_open s"
  "sv_sessions (upd_ctx r f s) = sv_sessions s" "sv_pool (upd_ctx r f s) = sv_pool s"
  "sv_db (upd_ctx r f s) = sv_db s" "sv_ai (upd_ctx r f s) = sv_ai s"
  "sv_conn_count (upd_ctx r f s) = sv_conn_count s" "sv_streams (upd_ctx r f s) = sv_streams s"
  by (simp_all add: upd_ctx_def)

section \<open>Event loop\<close>

definition EPOLLIN :: u32 where "EPOLLIN = 0x001"
definition EPOLLOUT :: u32 where "EPOLLOUT = 0x004"
definition EPOLLERR :: u32 where "EPOLLERR = 0x008"
definition EPOLLHUP :: u32 where "EPOLLHUP = 0x010"
definition EPOLLRDHUP :: u32 where "EPOLLRDHUP = 0x2000"
definition EPOLLET :: u32 where "EPOLLET = 0x80000000"

definition queue_in_loop :: "nat \<Rightarrow> loop_fn \<Rightarrow> ('t, 'm) server \<Rightarrow> ('t, 'm) server" where
  "queue_in_loop w cb s = upd_worker w (\<lambda>wk. wk\<lparr>w_pending := w_pending wk @ [cb]\<rparr>) s"

text \<open>\<open>EPOLL_CTL_MOD\<close> fails, without effect, on a descriptor that is not registered.\<close>

definition update_event :: "nat \<Rightarrow> int \<Rightarrow> u32 \<Rightarrow> ('t, 'm) server \<Rightarrow> ('t, 'm) server" where
  "update_event w fd evs s = upd_worker w (\<lambda>wk.
     if w_epoll wk fd = None then wk else wk\<lparr>w_epoll := (w_epoll wk)(fd \<mapsto> evs)\<rparr>) s"

definition remove_event :: "nat \<Rightarrow> int \<Rightarrow> ('t, 'm) server \<Rightarrow> ('t, 'm) server" where
  "remove_event w fd s = upd_worker w (\<lambda>wk. wk\<lparr>w_epoll := (w_epoll wk)(fd := None)\<rparr>) s"

section \<open>Heartbeat timers\<close>

definition cancel_heartbeat_timer :: "nat \<Rightarrow> int \<Rightarrow> ('t, 'm) server \<Rightarrow> ('t, 'm) server" where
  "cancel_heartbeat_timer w fd s = upd_worker w (\<lambda>wk. case w_heartbeat wk fd of
     None \<Rightarrow> wk
   | Some node \<Rightarrow> wk\<lparr>w_timer := snd (DelTimer node (w_timer wk)), w_heartbeat := (w_heartbeat wk)(fd := None)\<rparr>) s"

definition start_heartbeat_timer :: "nat \<Rightarrow> int \<Rightarrow> ('t, 'm) server \<Rightarrow> ('t, 'm) server" where
  "start_heartbeat_timer w fd s =
     (let s1 = cancel_heartbeat_timer w fd s; ms = HEARTBEAT_SEC (sv_env s1) * 1000
      in upd_worker w (\<lambda>wk. case AddTimer (sv_tick s1) ms fd (w_timer wk) of
           (node, t) \<Rightarrow> wk\<lparr>w_timer := t, w_heartbeat := (w_heartbeat wk)(fd \<mapsto> node)\<rparr>) s1)"

section \<open>Opening and closing connections\<close>

definition conn_start :: "nat \<Rightarrow> int \<Rightarrow> ('t, 'm) server \<Rightarrow> ('t, 'm) server" where
  "conn_start w fd s = start_heartbeat_timer w fd
     (upd_worker w (\<lambda>wk. wk\<lparr>w_epoll := (w_epoll wk)(fd \<mapsto> EPOLLIN OR EPOLLRDHUP OR EPOLLET)\<rparr>) s)"

text \<open>
  The constructor of \<open>TcpConnection\<close>: it takes a context from the worker's pool and counts the
  connection.
\<close>

definition new_TcpConnection ::
  "nat \<Rightarrow> int \<Rightarrow> string \<Rightarrow> u16 \<Rightarrow> ('t, 'm) server \<Rightarrow> TcpConnection \<times> ('t, 'm) server" where
  "new_TcpConnection w fd ip port s =
     (case acquire (w_pool (sv_worker s w)) (sv_heap s) of (r, p, h) \<Rightarrow>
       (\<lparr>tc_fd = fd, tc_ip = ip, tc_port = port, tc_ctx = r, tc_closed = False\<rparr>,
        (upd_ctx r (\<lambda>c. update_time (sv_tick s div 1000) (c\<lparr>cc_fd := fd\<rparr>))
          (upd_worker w (\<lambda>wk. wk\<lparr>w_pool := p\<rparr>) (s\<lparr>sv_heap := h\<rparr>)))\<lparr>sv_conn_count := sv_conn_count s + 1\<rparr>))"

text \<open>
  The destructor, which runs when the last reference to a connection goes: for a connection that was
  not closed it closes the descriptor and takes it off the count.
\<close>

definition destroy_TcpConnection :: "TcpConnection \<Rightarrow> ('t, 'm) server \<Rightarrow> ('t, 'm) server" where
  "destroy_TcpConnection c s =
     (let s1 = (if tc_fd c \<ge> 0 then s\<lparr>sv_open := sv_open s - {tc_fd c}\<rparr> else s)
      in if \<not> tc_closed c then s1\<lparr>sv_conn_count := sv_conn_count s1 - 1\<rparr> else s1)"

text \<open>\<open>connections_[fd] = conn\<close> drops the connection that was there before, if there was one.\<close>

definition add_connection_in_loop ::
  "nat \<Rightarrow> int \<Rightarrow> string \<Rightarrow> u16 \<Rightarrow> ('t, 'm) server \<Rightarrow> ('t, 'm) server" where
  "add_connection_in_loop w fd ip port s =
     (case new_TcpConnection w fd ip port s of (conn, s1) \<Rightarrow>
       let s2 = (case conns s1 w fd of None \<Rightarrow> s1 | Some old \<Rightarrow> destroy_TcpConnection old s1)
       in conn_start w fd (upd_worker w (\<lambda>wk. wk\<lparr>w_connections := (w_connections wk)(fd \<mapsto> conn)\<rparr>) s2))"

definition cancel_request :: "int \<Rightarrow> ('t, 'm) server \<Rightarrow> ('t, 'm) server" where
  "cancel_request uid s = s\<lparr>sv_ai := (sv_ai s)\<lparr>active_streams :=
     filter (\<lambda>(fd, q). sr_uid q \<noteq> uid) (active_streams (sv_ai s))\<rparr>\<rparr>"

definition release_ctx :: "nat \<Rightarrow> ctx_ref \<Rightarrow> ('t, 'm) server \<Rightarrow> ('t, 'm) server" where
  "release_ctx w r s = (case release r (w_pool (sv_worker s w)) (sv_heap s) of (p, h) \<Rightarrow>
     upd_worker w (\<lambda>wk. wk\<lparr>w_pool := p\<rparr>) (s\<lparr>sv_heap := h\<rparr>))"

definition close_impl :: "nat \<Rightarrow> TcpConnection \<Rightarrow> ('t, 'm) server \<Rightarrow> ('t, 'm) server" where
  "close_impl w c s =
     (let fd = tc_fd c; r = tc_ctx c;
          s1 = remove_event w fd s;
          uid = cc_uid (ctx_of s1 r);
          s2 = (if uid > 0 then (cancel_request uid s1)\<lparr>sv_sessions := unbind uid (sv_sessions s1)\<rparr> else s1);
          s3 = cancel_heartbeat_timer w fd s2;
          s4 = s3\<lparr>sv_open := sv_open s3 - {fd}\<rparr>;
          s5 = upd_ctx r (\<lambda>x. x\<lparr>cc_fd := -1\<rparr>) s4;
          s6 = release_ctx w r s5
      in s6\<lparr>sv_conn_count := sv_conn_count s6 - 1\<rparr>)"

text \<open>\<open>do_force_close\<close>; the object that it marks as closed goes with the call of \<open>force_close_in_loop\<close>.\<close>

definition do_force_close :: "nat \<Rightarrow> TcpConnection \<Rightarrow> ('t, 'm) server \<Rightarrow> ('t, 'm) server" where
  "do_force_close w c s = (if tc_closed c then s else close_impl w (c\<lparr>tc_closed := True\<rparr>) s)"

text \<open>
  The local reference \<open>conn\<close> is the last one, so the object is gone when the call returns; its
  descriptor is -1 and \<open>closed_\<close> is set then, so the destructor does nothing.
\<close>

definition force_close_in_loop :: "nat \<Rightarrow> int \<Rightarrow> ('t, 'm) server \<Rightarrow> ('t, 'm) server" where
  "force_close_in_loop w fd s = (case conns s w fd of
     None \<Rightarrow> s
   | Some c \<Rightarrow>
       do_force_close w c (upd_worker w (\<lambda>wk. wk\<lparr>w_connections := (w_connections wk)(fd := None)\<rparr>) s))"

definition queue_add_connection :: "nat \<Rightarrow> int \<Rightarrow> string \<Rightarrow> u16 \<Rightarrow> ('t, 'm) server \<Rightarrow> ('t, 'm) server" where
  "queue_add_connection w fd ip port s = queue_in_loop w (FnAddConn fd ip port) s"

definition queue_close_connection :: "nat \<Rightarrow> int \<Rightarrow> ('t, 'm) server \<Rightarrow> ('t, 'm) server" where
  "queue_close_connection w fd s = queue_in_loop w (FnClose fd) s"

definition queue_send_packet ::
  "nat \<Rightarrow> ctx_ref \<Rightarrow> u32 \<Rightarrow> u32 \<Rightarrow> string \<Rightarrow> ('t, 'm) server \<Rightarrow> ('t, 'm) server" where
  "queue_send_packet w r c n b s = queue_in_loop w (FnSendPacket r c n b) s"

section \<open>Sending\<close>

definition send :: "nat \<Rightarrow> TcpConnection \<Rightarrow> string \<Rightarrow> ('t, 'm) server \<Rightarrow> ('t, 'm) server" where
  "send w c data s =
     (if tc_closed c then s
      else let r = tc_ctx c in
        if length (cc_send_buf (ctx_of s r)) + length data > MAX_SEND_BUF (sv_env s)
        then queue_close_connection w (tc_fd c) s
        else let s1 = upd_ctx r (\<lambda>x. x\<lparr>cc_send_buf := cc_send_buf x @ data\<rparr>) s in
          if \<not> cc_writing (ctx_of s1 r)
          then update_event w (tc_fd c) (EPOLLIN OR EPOLLRDHUP OR EPOLLET OR EPOLLOUT)
                 (upd_ctx r (\<lambda>x. x\<lparr>cc_writing := True\<rparr>) s1)
          else s1)"

definition send_packet_in_loop ::
  "nat \<Rightarrow> ctx_ref \<Rightarrow> u32 \<Rightarrow> u32 \<Rightarrow> string \<Rightarrow> ('t, 'm) server \<Rightarrow> ('t, 'm) server" where
  "send_packet_in_loop w r c n body s =
     (let fd = cc_fd (ctx_of s r) in
      if fd < 0 then s
      else (case conns s w fd of
        None \<Rightarrow> s
      | Some conn \<Rightarrow> send w conn (make_packet c n body) s))"

text \<open>
  What \<open>write\<close> answers, call by call: a number of bytes, \<open>EAGAIN\<close>, or another error. When the list is at
  its end the socket takes no more bytes, which is \<open>EAGAIN\<close>.
\<close>

datatype write_result = WOk nat | WAgain | WError

fun handle_write :: "nat \<Rightarrow> TcpConnection \<Rightarrow> write_result list \<Rightarrow> ('t, 'm) server \<Rightarrow> ('t, 'm) server" where
  "handle_write w c ws s =
     (if cc_send_buf (ctx_of s (tc_ctx c)) = []
      then update_event w (tc_fd c) (EPOLLIN OR EPOLLRDHUP OR EPOLLET)
             (upd_ctx (tc_ctx c) (\<lambda>x. x\<lparr>cc_writing := False\<rparr>) s)
      else (case ws of
        [] \<Rightarrow> s
      | WAgain # _ \<Rightarrow> s
      | WError # _ \<Rightarrow> force_close_in_loop w (tc_fd c) s
      | WOk n # ws' \<Rightarrow>
          if n = 0 then force_close_in_loop w (tc_fd c) s
          else handle_write w c ws' (upd_ctx (tc_ctx c) (\<lambda>x. x\<lparr>cc_send_buf := drop n (cc_send_buf x)\<rparr>) s)))"

declare handle_write.simps [simp del]

section \<open>Receiving\<close>

text \<open>What \<open>read\<close> answers: bytes (none at the end of the stream), \<open>EAGAIN\<close>, or another error.\<close>

datatype read_result = RData string | RAgain | RError

text \<open>The first loop of \<open>handle_read\<close>; the flag says whether the second loop runs.\<close>

fun read_socket :: "nat \<Rightarrow> TcpConnection \<Rightarrow> read_result list \<Rightarrow> ('t, 'm) server \<Rightarrow> bool \<times> ('t, 'm) server" where
  "read_socket w c [] s = (True, s)"
| "read_socket w c (RAgain # _) s = (True, s)"
| "read_socket w c (RError # _) s = (False, force_close_in_loop w (tc_fd c) s)"
| "read_socket w c (RData d # rs) s =
     (if d = [] then (False, force_close_in_loop w (tc_fd c) s)
      else read_socket w c rs (start_heartbeat_timer w (tc_fd c)
        (upd_ctx (tc_ctx c) (\<lambda>x. update_time (sv_tick s div 1000) (x\<lparr>cc_recv_buf := cc_recv_buf x @ d\<rparr>)) s)))"

text \<open>\<open>g_workers->enqueue\<close>: the answer is not looked at.\<close>

definition enqueue_task :: "task \<Rightarrow> ('t, 'm) server \<Rightarrow> ('t, 'm) server" where
  "enqueue_task t s = s\<lparr>sv_pool := snd (enqueue t (sv_pool s))\<rparr>"

text \<open>The second loop: packets off the receive buffer, a task for each.\<close>

definition take_packets :: "nat \<Rightarrow> TcpConnection \<Rightarrow> ('t, 'm) server \<Rightarrow> ('t, 'm) server" where
  "take_packets w c s =
     (case read_packets (cc_recv_buf (ctx_of s (tc_ctx c))) of (ps, rest, ok) \<Rightarrow>
       let s1 = fold (\<lambda>(hdr, body). enqueue_task (TaskBusiness (tc_ctx c) hdr body)) ps
                  (upd_ctx (tc_ctx c) (\<lambda>x. x\<lparr>cc_recv_buf := rest\<rparr>) s)
       in if ok then s1 else force_close_in_loop w (tc_fd c) s1)"

definition handle_read :: "nat \<Rightarrow> TcpConnection \<Rightarrow> read_result list \<Rightarrow> ('t, 'm) server \<Rightarrow> ('t, 'm) server" where
  "handle_read w c rs s = (case read_socket w c rs s of
     (go_on, s1) \<Rightarrow> if go_on then take_packets w c s1 else s1)"

section \<open>Events, timers, functors\<close>

text \<open>
  \<open>conn->handle_events(revents)\<close>. A connection that \<open>handle_read\<close> closed is gone, so \<open>handle_write\<close> on it
  is a use after free.
\<close>

definition handle_events ::
  "nat \<Rightarrow> int \<Rightarrow> u32 \<Rightarrow> read_result list \<Rightarrow> write_result list \<Rightarrow> ('t, 'm, unit) sprog" where
  "handle_events w fd revents rs ws = bindP (getsP (\<lambda>s. conns s w fd)) (\<lambda>conn. case conn of
     None \<Rightarrow> crashP UseAfterFree
   | Some c \<Rightarrow>
       if revents AND (EPOLLHUP OR EPOLLERR OR EPOLLRDHUP) \<noteq> 0 then modifyP (force_close_in_loop w fd)
       else seqP (if revents AND EPOLLIN \<noteq> 0 then modifyP (handle_read w c rs) else ret ())
         (if revents AND EPOLLOUT \<noteq> 0
          then bindP (getsP (\<lambda>s. conns s w fd)) (\<lambda>conn'. case conn' of
            None \<Rightarrow> crashP UseAfterFree
          | Some c' \<Rightarrow> modifyP (handle_write w c' ws))
          else ret ()))"

text \<open>One call of \<open>CheckTimer\<close>: the callback closes the connection of the timer.\<close>

definition check_timer :: "nat \<Rightarrow> ('t, 'm) server \<Rightarrow> bool \<times> ('t, 'm) server" where
  "check_timer w s = (case CheckTimer (sv_tick s) (w_timer (sv_worker s w)) of
     None \<Rightarrow> (False, s)
   | Some (k, fd, t) \<Rightarrow> (True, force_close_in_loop w fd (upd_worker w (\<lambda>wk. wk\<lparr>w_timer := t\<rparr>) s)))"

text \<open>
  \<open>while (timer_.CheckTimer());\<close>, which a worker runs once in every turn of its loop, with the number of turns
  given.
\<close>

primrec check_timers :: "nat \<Rightarrow> nat \<Rightarrow> ('t, 'm) server \<Rightarrow> ('t, 'm) server" where
  "check_timers 0 w s = s"
| "check_timers (Suc n) w s = (case check_timer w s of (fired, s1) \<Rightarrow> if fired then check_timers n w s1 else s1)"

fun run_functor :: "nat \<Rightarrow> loop_fn \<Rightarrow> ('t, 'm) server \<Rightarrow> ('t, 'm) server" where
  "run_functor w (FnAddConn fd ip port) s = add_connection_in_loop w fd ip port s"
| "run_functor w (FnSendPacket r c n b) s = send_packet_in_loop w r c n b s"
| "run_functor w (FnClose fd) s = force_close_in_loop w fd s"

text \<open>
  \<open>do_pending_functors\<close>: \<open>fs.swap(pending_functors_)\<close>, and then one functor after the other. Functors that
  are queued meanwhile wait for the next round.
\<close>

definition swap_functors :: "nat \<Rightarrow> ('t, 'm) server \<Rightarrow> ('t, 'm) server" where
  "swap_functors w s = upd_worker w (\<lambda>wk. wk\<lparr>w_running := w_pending wk, w_pending := []\<rparr>) s"

definition run_next_functor :: "nat \<Rightarrow> ('t, 'm) server \<Rightarrow> ('t, 'm) server" where
  "run_next_functor w s = (case w_running (sv_worker s w) of
     [] \<Rightarrow> s
   | f # fs \<Rightarrow> run_functor w f (upd_worker w (\<lambda>wk. wk\<lparr>w_running := fs\<rparr>) s))"

section \<open>Sessions\<close>

text \<open>
  \<open>ctx->owner_worker->queue_send_packet(ctx, ...)\<close>: a context that did not come from a pool has no owner.
\<close>

definition send_to :: "ctx_ref \<Rightarrow> u32 \<Rightarrow> u32 \<Rightarrow> string \<Rightarrow> ('t, 'm, unit) sprog" where
  "send_to r c n b = bindP (getsP (\<lambda>s. cc_owner_worker (ctx_of s r))) (\<lambda>owner. case owner of
     None \<Rightarrow> crashP NullDeref
   | Some w \<Rightarrow> modifyP (queue_send_packet w r c n b))"

definition bind :: "int \<Rightarrow> ctx_ref \<Rightarrow> ('t, 'm, unit) sprog" where
  "bind uid r = bindP (getsP id) (\<lambda>s.
     seqP (case session_get (sv_sessions s) uid of
         None \<Rightarrow> ret ()
       | Some old \<Rightarrow>
           if cc_fd (ctx_of s old) \<noteq> -1
           then (case cc_owner_worker (ctx_of s old) of
               None \<Rightarrow> crashP NullDeref
             | Some w \<Rightarrow> modifyP (queue_close_connection w (cc_fd (ctx_of s old))))
           else ret ())
     (modifyP (\<lambda>s. (upd_ctx r (\<lambda>x. x\<lparr>cc_uid := uid, cc_logged_in := True\<rparr>) s)\<lparr>sv_sessions :=
        session_put uid r (sv_sessions s)\<rparr>)))"

end
