(* ===== verification/Texts_Ai.thy ===== *)
theory Texts_Ai
  imports Prelude
begin

text \<open>
  The key words and answers of \<open>StreamingAIManager::generate_fallback_response\<close>, as lists of their UTF-8
  bytes, with their meaning beside them.
\<close>

definition kw_hello :: string where \<comment> \<open>hello\<close>
  "kw_hello =
    [CHR 0xE4, CHR 0xBD, CHR 0xA0, CHR 0xE5, CHR 0xA5, CHR 0xBD]"

definition kw_help :: string where \<comment> \<open>help\<close>
  "kw_help =
    [CHR 0xE5, CHR 0xB8, CHR 0xAE, CHR 0xE5, CHR 0x8A, CHR 0xA9]"

definition kw_time :: string where \<comment> \<open>time\<close>
  "kw_time =
    [CHR 0xE6, CHR 0x97, CHR 0xB6, CHR 0xE9, CHR 0x97, CHR 0xB4]"

definition kw_clock :: string where \<comment> \<open>what time is it\<close>
  "kw_clock =
    [CHR 0xE5, CHR 0x87, CHR 0xA0, CHR 0xE7, CHR 0x82, CHR 0xB9]"

definition kw_weather :: string where \<comment> \<open>weather\<close>
  "kw_weather =
    [CHR 0xE5, CHR 0xA4, CHR 0xA9, CHR 0xE6, CHR 0xB0, CHR 0x94]"

definition kw_who :: string where \<comment> \<open>who are you\<close>
  "kw_who =
    [CHR 0xE4, CHR 0xBD, CHR 0xA0, CHR 0xE6, CHR 0x98, CHR 0xAF, CHR 0xE8, CHR 0xB0, CHR 0x81]"

definition kw_what :: string where \<comment> \<open>what are you\<close>
  "kw_what =
    [CHR 0xE4, CHR 0xBD, CHR 0xA0, CHR 0xE6, CHR 0x98, CHR 0xAF, CHR 0xE4, CHR 0xBB, CHR 0x80, CHR 0xE4,
     CHR 0xB9, CHR 0x88]"

definition fb_hello :: string where \<comment> \<open>greeting, and what the assistant can do offline\<close>
  "fb_hello =
    [CHR 0xE4, CHR 0xBD, CHR 0xA0, CHR 0xE5, CHR 0xA5, CHR 0xBD, CHR 0xEF, CHR 0xBC, CHR 0x81, CHR 0xE6,
     CHR 0x88, CHR 0x91, CHR 0xE6, CHR 0x98, CHR 0xAF, CHR 0x20, CHR ''A'', CHR ''I'', CHR 0x20, CHR
     0xE5, CHR 0x8A, CHR 0xA9, CHR 0xE6, CHR 0x89, CHR 0x8B, CHR 0xE3, CHR 0x80, CHR 0x82, CHR 0xE8, CHR
     0x99, CHR 0xBD, CHR 0xE7, CHR 0x84, CHR 0xB6, CHR 0xE7, CHR 0x9B, CHR 0xAE, CHR 0xE5, CHR 0x89, CHR
     0x8D, CHR 0xE6, CHR 0xB2, CHR 0xA1, CHR 0xE6, CHR 0x9C, CHR 0x89, CHR 0xE8, CHR 0xBF, CHR 0x9E, CHR
     0xE6, CHR 0x8E, CHR 0xA5, CHR 0xE5, CHR 0x88, CHR 0xB0, CHR 0xE5, CHR 0xA4, CHR 0x96, CHR 0xE9, CHR
     0x83, CHR 0xA8, CHR 0x20, CHR ''A'', CHR ''I'', CHR 0x20, CHR 0xE6, CHR 0x9C, CHR 0x8D, CHR 0xE5,
     CHR 0x8A, CHR 0xA1, CHR 0xEF, CHR 0xBC, CHR 0x8C, CHR 0xE4, CHR 0xBD, CHR 0x86, CHR 0xE6, CHR 0x88,
     CHR 0x91, CHR 0xE5, CHR 0x8F, CHR 0xAF, CHR 0xE4, CHR 0xBB, CHR 0xA5, CHR 0xE5, CHR 0xB8, CHR 0xAE,
     CHR 0xE4, CHR 0xBD, CHR 0xA0, CHR 0xE8, CHR 0xA7, CHR 0xA3, CHR 0xE7, CHR 0xAD, CHR 0x94, CHR 0xE4,
     CHR 0xB8, CHR 0x80, CHR 0xE4, CHR 0xBA, CHR 0x9B, CHR 0xE5, CHR 0x9F, CHR 0xBA, CHR 0xE6, CHR 0x9C,
     CHR 0xAC, CHR 0xE9, CHR 0x97, CHR 0xAE, CHR 0xE9, CHR 0xA2, CHR 0x98, CHR 0xE3, CHR 0x80, CHR 0x82,
     CHR 0x0A, CHR 0x0A, CHR 0xE4, CHR 0xBD, CHR 0xA0, CHR 0xE5, CHR 0x8F, CHR 0xAF, CHR 0xE4, CHR 0xBB,
     CHR 0xA5, CHR 0xE5, CHR 0xB0, CHR 0x9D, CHR 0xE8, CHR 0xAF, CHR 0x95, CHR 0xEF, CHR 0xBC, CHR 0x9A,
     CHR 0x0A, CHR ''-'', CHR 0x20, CHR 0xE9, CHR 0x97, CHR 0xAE, CHR 0xE6, CHR 0x88, CHR 0x91, CHR 0xE5,
     CHR 0x85, CHR 0xB3, CHR 0xE4, CHR 0xBA, CHR 0x8E, CHR 0xE6, CHR 0x97, CHR 0xB6, CHR 0xE9, CHR 0x97,
     CHR 0xB4, CHR 0xE3, CHR 0x80, CHR 0x81, CHR 0xE6, CHR 0x97, CHR 0xA5, CHR 0xE6, CHR 0x9C, CHR 0x9F,
     CHR 0xE7, CHR 0x9A, CHR 0x84, CHR 0xE9, CHR 0x97, CHR 0xAE, CHR 0xE9, CHR 0xA2, CHR 0x98, CHR 0x0A,
     CHR ''-'', CHR 0x20, CHR 0xE8, CHR 0xB7, CHR 0x9F, CHR 0xE6, CHR 0x88, CHR 0x91, CHR 0xE8, CHR 0x81,
     CHR 0x8A, CHR 0xE5, CHR 0xA4, CHR 0xA9, CHR 0x0A, CHR ''-'', CHR 0x20, CHR 0xE6, CHR 0x88, CHR 0x96,
     CHR 0xE8, CHR 0x80, CHR 0x85, CHR 0xE9, CHR 0x85, CHR 0x8D, CHR 0xE7, CHR 0xBD, CHR 0xAE, CHR 0x20,
     CHR ''A'', CHR ''I'', CHR ''_'', CHR ''B'', CHR ''A'', CHR ''S'', CHR ''E'', CHR ''_'', CHR ''U'',
     CHR ''R'', CHR ''L'', CHR 0x20, CHR 0xE7, CHR 0x8E, CHR 0xAF, CHR 0xE5, CHR 0xA2, CHR 0x83, CHR
     0xE5, CHR 0x8F, CHR 0x98, CHR 0xE9, CHR 0x87, CHR 0x8F, CHR 0xE6, CHR 0x8E, CHR 0xA5, CHR 0xE5, CHR
     0x85, CHR 0xA5, CHR 0xE7, CHR 0x9C, CHR 0x9F, CHR 0xE6, CHR 0xAD, CHR 0xA3, CHR 0xE7, CHR 0x9A, CHR
     0x84, CHR 0x20, CHR ''A'', CHR ''I'', CHR 0x20, CHR 0xE6, CHR 0x9C, CHR 0x8D, CHR 0xE5, CHR 0x8A,
     CHR 0xA1]"

definition fb_help :: string where \<comment> \<open>how to connect a real AI service\<close>
  "fb_help =
    [CHR 0xE8, CHR 0xBF, CHR 0x99, CHR 0xE6, CHR 0x98, CHR 0xAF, CHR 0x20, CHR ''W'', CHR ''e'', CHR
     ''C'', CHR ''h'', CHR ''a'', CHR ''t'', CHR 0x20, CHR 0xE5, CHR 0x86, CHR 0x85, CHR 0xE7, CHR 0xBD,
     CHR 0xAE, CHR 0x20, CHR ''A'', CHR ''I'', CHR 0x20, CHR 0xE5, CHR 0x8A, CHR 0xA9, CHR 0xE6, CHR
     0x89, CHR 0x8B, CHR 0xE3, CHR 0x80, CHR 0x82, CHR 0x0A, CHR 0x0A, CHR 0xE5, CHR 0xBD, CHR 0x93, CHR
     0xE5, CHR 0x89, CHR 0x8D, CHR 0xE8, CHR 0xBF, CHR 0x90, CHR 0xE8, CHR 0xA1, CHR 0x8C, CHR 0xE5, CHR
     0x9C, CHR 0xA8, CHR 0xE7, CHR 0xA6, CHR 0xBB, CHR 0xE7, CHR 0xBA, CHR 0xBF, CHR 0xE6, CHR 0xA8, CHR
     0xA1, CHR 0xE5, CHR 0xBC, CHR 0x8F, CHR 0xEF, CHR 0xBC, CHR 0x8C, CHR 0xE8, CHR 0xA6, CHR 0x81, CHR
     0xE6, CHR 0x8E, CHR 0xA5, CHR 0xE5, CHR 0x85, CHR 0xA5, CHR 0xE7, CHR 0x9C, CHR 0x9F, CHR 0xE6, CHR
     0xAD, CHR 0xA3, CHR 0xE7, CHR 0x9A, CHR 0x84, CHR 0x20, CHR ''A'', CHR ''I'', CHR 0x20, CHR 0xE6,
     CHR 0x9C, CHR 0x8D, CHR 0xE5, CHR 0x8A, CHR 0xA1, CHR 0xEF, CHR 0xBC, CHR 0x8C, CHR 0xE8, CHR 0xAF,
     CHR 0xB7, CHR 0xE8, CHR 0xAE, CHR 0xBE, CHR 0xE7, CHR 0xBD, CHR 0xAE, CHR 0xE7, CHR 0x8E, CHR 0xAF,
     CHR 0xE5, CHR 0xA2, CHR 0x83, CHR 0xE5, CHR 0x8F, CHR 0x98, CHR 0xE9, CHR 0x87, CHR 0x8F, CHR 0xEF,
     CHR 0xBC, CHR 0x9A, CHR 0x0A, CHR 0x20, CHR 0x20, CHR ''e'', CHR ''x'', CHR ''p'', CHR ''o'', CHR
     ''r'', CHR ''t'', CHR 0x20, CHR ''A'', CHR ''I'', CHR ''_'', CHR ''B'', CHR ''A'', CHR ''S'', CHR
     ''E'', CHR ''_'', CHR ''U'', CHR ''R'', CHR ''L'', CHR ''='', CHR ''h'', CHR ''t'', CHR ''t'', CHR
     ''p'', CHR '':'', CHR ''/'', CHR ''/'', CHR ''y'', CHR ''o'', CHR ''u'', CHR ''r'', CHR ''-'', CHR
     ''l'', CHR ''l'', CHR ''m'', CHR ''-'', CHR ''s'', CHR ''e'', CHR ''r'', CHR ''v'', CHR ''e'', CHR
     ''r'', CHR '':'', CHR ''p'', CHR ''o'', CHR ''r'', CHR ''t'', CHR 0x0A, CHR 0x0A, CHR 0xE6, CHR
     0x94, CHR 0xAF, CHR 0xE6, CHR 0x8C, CHR 0x81, CHR 0xE7, CHR 0x9A, CHR 0x84, CHR 0x20, CHR ''A'', CHR
     ''P'', CHR ''I'', CHR 0x20, CHR 0xE6, CHR 0xA0, CHR 0xBC, CHR 0xE5, CHR 0xBC, CHR 0x8F, CHR 0xEF,
     CHR 0xBC, CHR 0x9A, CHR ''O'', CHR ''p'', CHR ''e'', CHR ''n'', CHR ''A'', CHR ''I'', CHR ''-'', CHR
     ''c'', CHR ''o'', CHR ''m'', CHR ''p'', CHR ''a'', CHR ''t'', CHR ''i'', CHR ''b'', CHR ''l'', CHR
     ''e'', CHR 0x20, CHR ''/'', CHR ''v'', CHR ''1'', CHR ''/'', CHR ''c'', CHR ''h'', CHR ''a'', CHR
     ''t'', CHR ''/'', CHR ''c'', CHR ''o'', CHR ''m'', CHR ''p'', CHR ''l'', CHR ''e'', CHR ''t'', CHR
     ''i'', CHR ''o'', CHR ''n'', CHR ''s'']"

definition fb_now :: string where \<comment> \<open>it is now\<close>
  "fb_now =
    [CHR 0xE7, CHR 0x8E, CHR 0xB0, CHR 0xE5, CHR 0x9C, CHR 0xA8, CHR 0xE6, CHR 0x98, CHR 0xAF, CHR '' '']"

definition fb_weather :: string where \<comment> \<open>no weather data\<close>
  "fb_weather =
    [CHR 0xE6, CHR 0x8A, CHR 0xB1, CHR 0xE6, CHR 0xAD, CHR 0x89, CHR 0xEF, CHR 0xBC, CHR 0x8C, CHR 0xE6,
     CHR 0x88, CHR 0x91, CHR 0xE7, CHR 0x9B, CHR 0xAE, CHR 0xE5, CHR 0x89, CHR 0x8D, CHR 0xE6, CHR 0x97,
     CHR 0xA0, CHR 0xE6, CHR 0xB3, CHR 0x95, CHR 0xE8, CHR 0x8E, CHR 0xB7, CHR 0xE5, CHR 0x8F, CHR 0x96,
     CHR 0xE5, CHR 0xAE, CHR 0x9E, CHR 0xE6, CHR 0x97, CHR 0xB6, CHR 0xE5, CHR 0xA4, CHR 0xA9, CHR 0xE6,
     CHR 0xB0, CHR 0x94, CHR 0xE6, CHR 0x95, CHR 0xB0, CHR 0xE6, CHR 0x8D, CHR 0xAE, CHR 0xE3, CHR 0x80,
     CHR 0x82, CHR 0xE8, CHR 0xA6, CHR 0x81, CHR 0xE8, CHR 0x8E, CHR 0xB7, CHR 0xE5, CHR 0xBE, CHR 0x97,
     CHR 0xE5, CHR 0xAE, CHR 0x8C, CHR 0xE6, CHR 0x95, CHR 0xB4, CHR 0xE7, CHR 0x9A, CHR 0x84, CHR 0x20,
     CHR ''A'', CHR ''I'', CHR 0x20, CHR 0xE5, CHR 0x8A, CHR 0x9F, CHR 0xE8, CHR 0x83, CHR 0xBD, CHR
     0xEF, CHR 0xBC, CHR 0x8C, CHR 0xE8, CHR 0xAF, CHR 0xB7, CHR 0xE9, CHR 0x85, CHR 0x8D, CHR 0xE7, CHR
     0xBD, CHR 0xAE, CHR 0x20, CHR ''A'', CHR ''I'', CHR ''_'', CHR ''B'', CHR ''A'', CHR ''S'', CHR
     ''E'', CHR ''_'', CHR ''U'', CHR ''R'', CHR ''L'', CHR 0x20, CHR 0xE7, CHR 0x8E, CHR 0xAF, CHR 0xE5,
     CHR 0xA2, CHR 0x83, CHR 0xE5, CHR 0x8F, CHR 0x98, CHR 0xE9, CHR 0x87, CHR 0x8F, CHR 0xE8, CHR 0xBF,
     CHR 0x9E, CHR 0xE6, CHR 0x8E, CHR 0xA5, CHR 0xE5, CHR 0x88, CHR 0xB0, CHR 0xE5, CHR 0xA4, CHR 0x96,
     CHR 0xE9, CHR 0x83, CHR 0xA8, CHR 0x20, CHR ''A'', CHR ''I'', CHR 0x20, CHR 0xE6, CHR 0x9C, CHR
     0x8D, CHR 0xE5, CHR 0x8A, CHR 0xA1, CHR 0xE3, CHR 0x80, CHR 0x82]"

definition fb_who :: string where \<comment> \<open>the assistant introduces itself\<close>
  "fb_who =
    [CHR 0xE6, CHR 0x88, CHR 0x91, CHR 0xE6, CHR 0x98, CHR 0xAF, CHR '' '', CHR ''W'', CHR ''e'', CHR
     ''C'', CHR ''h'', CHR ''a'', CHR ''t'', CHR '' '', CHR 0xE5, CHR 0x86, CHR 0x85, CHR 0xE7, CHR 0xBD,
     CHR 0xAE, CHR 0xE7, CHR 0x9A, CHR 0x84, CHR '' '', CHR ''A'', CHR ''I'', CHR '' '', CHR 0xE5, CHR
     0x8A, CHR 0xA9, CHR 0xE6, CHR 0x89, CHR 0x8B, CHR 0xE3, CHR 0x80, CHR 0x82, CHR 0xE5, CHR 0xBD, CHR
     0x93, CHR 0xE5, CHR 0x89, CHR 0x8D, CHR 0xE8, CHR 0xBF, CHR 0x90, CHR 0xE8, CHR 0xA1, CHR 0x8C, CHR
     0xE5, CHR 0x9C, CHR 0xA8, CHR 0xE7, CHR 0xA6, CHR 0xBB, CHR 0xE7, CHR 0xBA, CHR 0xBF, CHR 0xE6, CHR
     0xA8, CHR 0xA1, CHR 0xE5, CHR 0xBC, CHR 0x8F, CHR 0xEF, CHR 0xBC, CHR 0x8C, CHR 0xE5, CHR 0x8F, CHR
     0xAA, CHR 0xE8, CHR 0x83, CHR 0xBD, CHR 0xE6, CHR 0x8F, CHR 0x90, CHR 0xE4, CHR 0xBE, CHR 0x9B, CHR
     0xE5, CHR 0x9F, CHR 0xBA, CHR 0xE7, CHR 0xA1, CHR 0x80, CHR 0xE7, CHR 0x9A, CHR 0x84, CHR 0xE5, CHR
     0x9B, CHR 0x9E, CHR 0xE7, CHR 0xAD, CHR 0x94, CHR 0xE3, CHR 0x80, CHR 0x82, CHR 0x0A, CHR 0x0A, CHR
     0xE8, CHR 0xA6, CHR 0x81, CHR 0xE8, CHR 0x8E, CHR 0xB7, CHR 0xE5, CHR 0xBE, CHR 0x97, CHR 0xE6, CHR
     0x9B, CHR 0xB4, CHR 0xE5, CHR 0xBC, CHR 0xBA, CHR 0xE5, CHR 0xA4, CHR 0xA7, CHR 0xE7, CHR 0x9A, CHR
     0x84, CHR '' '', CHR ''A'', CHR ''I'', CHR '' '', CHR 0xE8, CHR 0x83, CHR 0xBD, CHR 0xE5, CHR 0x8A,
     CHR 0x9B, CHR 0xEF, CHR 0xBC, CHR 0x8C, CHR 0xE5, CHR 0x8F, CHR 0xAF, CHR 0xE4, CHR 0xBB, CHR 0xA5,
     CHR 0xE8, CHR 0xBF, CHR 0x9E, CHR 0xE6, CHR 0x8E, CHR 0xA5, CHR '' '', CHR ''O'', CHR ''p'', CHR
     ''e'', CHR ''n'', CHR ''A'', CHR ''I'', CHR '' '', CHR 0xE5, CHR 0x85, CHR 0xBC, CHR 0xE5, CHR 0xAE,
     CHR 0xB9, CHR 0xE7, CHR 0x9A, CHR 0x84, CHR '' '', CHR ''A'', CHR ''P'', CHR ''I'', CHR '' '', CHR
     0xE6, CHR 0x9C, CHR 0x8D, CHR 0xE5, CHR 0x8A, CHR 0xA1, CHR 0xEF, CHR 0xBC, CHR 0x8C, CHR 0xE4, CHR
     0xBE, CHR 0x8B, CHR 0xE5, CHR 0xA6, CHR 0x82, CHR 0xEF, CHR 0xBC, CHR 0x9A, CHR 0x0A, CHR ''-'', CHR
     ''_'', CHR ''O'', CHR ''l'', CHR ''l'', CHR ''a'', CHR ''m'', CHR ''a'', CHR 0x0A, CHR ''-'', CHR
     ''_'', CHR ''l'', CHR ''l'', CHR ''a'', CHR ''m'', CHR ''a'', CHR ''.'', CHR ''c'', CHR ''p'', CHR
     ''p'', CHR '' '', CHR ''s'', CHR ''e'', CHR ''r'', CHR ''v'', CHR ''e'', CHR ''r'', CHR 0x0A, CHR
     ''-'', CHR '' '', CHR ''v'', CHR ''L'', CHR ''L'', CHR ''M'', CHR 0x0A, CHR ''-'', CHR '' '', CHR
     0xE6, CHR 0x88, CHR 0x96, CHR 0xE5, CHR 0x85, CHR 0xB6, CHR 0xE4, CHR 0xBB, CHR 0x96, CHR 0xE5, CHR
     0x85, CHR 0xBC, CHR 0xE5, CHR 0xAE, CHR 0xB9, CHR '' '', CHR ''/'', CHR ''v'', CHR ''1'', CHR ''/'',
     CHR ''c'', CHR ''h'', CHR ''a'', CHR ''t'', CHR ''/'', CHR ''c'', CHR ''o'', CHR ''m'', CHR ''p'',
     CHR ''l'', CHR ''e'', CHR ''t'', CHR ''i'', CHR ''o'', CHR ''n'', CHR ''s'', CHR '' '', CHR 0xE7,
     CHR 0x9A, CHR 0x84, CHR 0xE6, CHR 0x9C, CHR 0x8D, CHR 0xE5, CHR 0x8A, CHR 0xA1]"

definition fb_short :: string where \<comment> \<open>how can I help\<close>
  "fb_short =
    [CHR 0xE4, CHR 0xBD, CHR 0xA0, CHR 0xE5, CHR 0xA5, CHR 0xBD, CHR 0xEF, CHR 0xBC, CHR 0x81, CHR 0xE6,
     CHR 0x9C, CHR 0x89, CHR 0xE4, CHR 0xBB, CHR 0x80, CHR 0xE4, CHR 0xB9, CHR 0x88, CHR 0xE6, CHR 0x88,
     CHR 0x91, CHR 0xE5, CHR 0x8F, CHR 0xAF, CHR 0xE4, CHR 0xBB, CHR 0xA5, CHR 0xE5, CHR 0xB8, CHR 0xAE,
     CHR 0xE4, CHR 0xBD, CHR 0xA0, CHR 0xE7, CHR 0x9A, CHR 0x84, CHR 0xE5, CHR 0x90, CHR 0x97, CHR 0xEF,
     CHR 0xBC, CHR 0x9F, CHR 0x0A, CHR 0x0A, CHR 0xE6, CHR 0x8F, CHR 0x90, CHR 0xE7, CHR 0xA4, CHR 0xBA,
     CHR 0xEF, CHR 0xBC, CHR 0x9A, CHR 0xE5, CHR 0xBD, CHR 0x93, CHR 0xE5, CHR 0x89, CHR 0x8D, CHR 0x20,
     CHR ''A'', CHR ''I'', CHR 0x20, CHR 0xE8, CHR 0xBF, CHR 0x90, CHR 0xE8, CHR 0xA1, CHR 0x8C, CHR
     0xE5, CHR 0x9C, CHR 0xA8, CHR 0xE7, CHR 0xA6, CHR 0xBB, CHR 0xE7, CHR 0xBA, CHR 0xBF, CHR 0xE6, CHR
     0xA8, CHR 0xA1, CHR 0xE5, CHR 0xBC, CHR 0x8F, CHR 0xEF, CHR 0xBC, CHR 0x8C, CHR 0xE5, CHR 0x9B, CHR
     0x9E, CHR 0xE7, CHR 0xAD, CHR 0x94, CHR 0xE8, CHR 0x83, CHR 0xBD, CHR 0xE5, CHR 0x8A, CHR 0x9B, CHR
     0xE6, CHR 0x9C, CHR 0x89, CHR 0xE9, CHR 0x99, CHR 0x90, CHR 0xE3, CHR 0x80, CHR 0x82, CHR 0xE8, CHR
     0xAF, CHR 0xB7, CHR 0xE8, CHR 0xAE, CHR 0xBE, CHR 0xE7, CHR 0xBD, CHR 0xAE, CHR 0x20, CHR ''A'', CHR
     ''I'', CHR ''_'', CHR ''B'', CHR ''A'', CHR ''S'', CHR ''E'', CHR ''_'', CHR ''U'', CHR ''R'', CHR
     ''L'', CHR 0x20, CHR 0xE6, CHR 0x8E, CHR 0xA5, CHR 0xE5, CHR 0x85, CHR 0xA5, CHR 0xE7, CHR 0x9C, CHR
     0x9F, CHR 0xE6, CHR 0xAD, CHR 0xA3, CHR 0xE7, CHR 0x9A, CHR 0x84, CHR 0x20, CHR ''A'', CHR ''I'',
     CHR 0x20, CHR 0xE6, CHR 0x9C, CHR 0x8D, CHR 0xE5, CHR 0x8A, CHR 0xA1, CHR 0xE3, CHR 0x80, CHR 0x82]"

definition fb_echo :: string where \<comment> \<open>received your message\<close>
  "fb_echo =
    [CHR 0xE6, CHR 0x94, CHR 0xB6, CHR 0xE5, CHR 0x88, CHR 0xB0, CHR 0xE4, CHR 0xBD, CHR 0xA0, CHR 0xE7,
     CHR 0x9A, CHR 0x84, CHR 0xE6, CHR 0xB6, CHR 0x88, CHR 0xE6, CHR 0x81, CHR 0xAF, CHR 0xEF, CHR 0xBC,
     CHR 0x9A, CHR 0xE3, CHR 0x80, CHR 0x8C]"

definition fb_offline :: string where \<comment> \<open>working offline, how to configure\<close>
  "fb_offline =
    [CHR 0xE3, CHR 0x80, CHR 0x8D, CHR 0x0A, CHR 0x0A, CHR 0xE5, CHR 0xBD, CHR 0x93, CHR 0xE5, CHR 0x89,
     CHR 0x8D, CHR 0x20, CHR ''A'', CHR ''I'', CHR 0x20, CHR 0xE6, CHR 0x9C, CHR 0x8D, CHR 0xE5, CHR
     0x8A, CHR 0xA1, CHR 0xE6, CHR 0x9C, CHR 0xAA, CHR 0xE8, CHR 0xBF, CHR 0x9E, CHR 0xE6, CHR 0x8E, CHR
     0xA5, CHR 0xEF, CHR 0xBC, CHR 0x8C, CHR 0xE6, CHR 0x88, CHR 0x91, CHR 0xE6, CHR 0xAD, CHR 0xA3, CHR
     0xE5, CHR 0x9C, CHR 0xA8, CHR 0xE7, CHR 0xA6, CHR 0xBB, CHR 0xE7, CHR 0xBA, CHR 0xBF, CHR 0xE6, CHR
     0xA8, CHR 0xA1, CHR 0xE5, CHR 0xBC, CHR 0x8F, CHR 0xE4, CHR 0xB8, CHR 0x8B, CHR 0xE5, CHR 0xB7, CHR
     0xA5, CHR 0xE4, CHR 0xBD, CHR 0x9C, CHR 0xE3, CHR 0x80, CHR 0x82, CHR 0x0A, CHR 0x0A, CHR 0xE8, CHR
     0xA6, CHR 0x81, CHR 0xE8, CHR 0x8E, CHR 0xB7, CHR 0xE5, CHR 0xBE, CHR 0x97, CHR 0xE6, CHR 0x99, CHR
     0xBA, CHR 0xE8, CHR 0x83, CHR 0xBD, CHR 0xE5, CHR 0x9B, CHR 0x9E, CHR 0xE5, CHR 0xA4, CHR 0x8D, CHR
     0xEF, CHR 0xBC, CHR 0x8C, CHR 0xE8, CHR 0xAF, CHR 0xB7, CHR 0xE9, CHR 0x85, CHR 0x8D, CHR 0xE7, CHR
     0xBD, CHR 0xAE, CHR 0x20, CHR ''A'', CHR ''I'', CHR ''_'', CHR ''B'', CHR ''A'', CHR ''S'', CHR
     ''E'', CHR ''_'', CHR ''U'', CHR ''R'', CHR ''L'', CHR 0x20, CHR 0xE7, CHR 0x8E, CHR 0xAF, CHR 0xE5,
     CHR 0xA2, CHR 0x83, CHR 0xE5, CHR 0x8F, CHR 0x98, CHR 0xE9, CHR 0x87, CHR 0x8F, CHR 0xEF, CHR 0xBC,
     CHR 0x9A, CHR 0x0A, CHR 0x20, CHR 0x20, CHR ''e'', CHR ''x'', CHR ''p'', CHR ''o'', CHR ''r'', CHR
     ''t'', CHR 0x20, CHR ''A'', CHR ''I'', CHR ''_'', CHR ''B'', CHR ''A'', CHR ''S'', CHR ''E'', CHR
     ''_'', CHR ''U'', CHR ''R'', CHR ''L'', CHR ''='', CHR ''h'', CHR ''t'', CHR ''t'', CHR ''p'', CHR
     '':'', CHR ''/'', CHR ''/'', CHR ''y'', CHR ''o'', CHR ''u'', CHR ''r'', CHR ''-'', CHR ''l'', CHR
     ''l'', CHR ''m'', CHR ''-'', CHR ''s'', CHR ''e'', CHR ''r'', CHR ''v'', CHR ''e'', CHR ''r'', CHR
     '':'', CHR ''p'', CHR ''o'', CHR ''r'', CHR ''t'', CHR 0x0A, CHR 0x0A, CHR 0xE7, CHR 0x84, CHR 0xB6,
     CHR 0xE5, CHR 0x90, CHR 0x8E, CHR 0xE9, CHR 0x87, CHR 0x8D, CHR 0xE5, CHR 0x90, CHR 0xAF, CHR 0xE6,
     CHR 0x9C, CHR 0x8D, CHR 0xE5, CHR 0x8A, CHR 0xA1, CHR 0xE5, CHR 0x99, CHR 0xA8, CHR 0xE5, CHR 0x8D,
     CHR 0xB3, CHR 0xE5, CHR 0x8F, CHR 0xAF, CHR 0xE3, CHR 0x80, CHR 0x82]"

end
