(* ===== verification/Texts_Llama.thy ===== *)
theory Texts_Llama
  imports Prelude
begin

text \<open>
  The texts of \<open>LlamaClient::stream_chat\<close>: the key words it looks for, the two system prompts and the fixed parts of
  the request, as lists of their UTF-8 bytes, with their meaning beside them.
\<close>

definition kw_code :: string where \<comment> \<open>code\<close>
  "kw_code =
    [CHR 0xE4, CHR 0xBB, CHR 0xA3, CHR 0xE7, CHR 0xA0, CHR 0x81]"

definition kw_write :: string where \<comment> \<open>write a\<close>
  "kw_write =
    [CHR 0xE5, CHR 0x86, CHR 0x99, CHR 0xE4, CHR 0xB8, CHR 0x80, CHR 0xE4, CHR 0xB8, CHR 0xAA]"

definition kw_implement :: string where \<comment> \<open>implement\<close>
  "kw_implement =
    [CHR 0xE5, CHR 0xAE, CHR 0x9E, CHR 0xE7, CHR 0x8E, CHR 0xB0]"

definition kw_program :: string where \<comment> \<open>programming\<close>
  "kw_program =
    [CHR 0xE7, CHR 0xBC, CHR 0x96, CHR 0xE7, CHR 0xA8, CHR 0x8B]"

definition kw_detailed :: string where \<comment> \<open>in detail\<close>
  "kw_detailed =
    [CHR 0xE8, CHR 0xAF, CHR 0xA6, CHR 0xE7, CHR 0xBB, CHR 0x86]"

definition kw_thorough :: string where \<comment> \<open>thorough\<close>
  "kw_thorough =
    [CHR 0xE5, CHR 0x85, CHR 0xA8, CHR 0xE9, CHR 0x9D, CHR 0xA2]"

definition kw_complete :: string where \<comment> \<open>complete\<close>
  "kw_complete =
    [CHR 0xE5, CHR 0xAE, CHR 0x8C, CHR 0xE6, CHR 0x95, CHR 0xB4]"

definition sys_long :: string where \<comment> \<open>the system prompt for long answers\<close>
  "sys_long =
    [CHR 0xE4, CHR 0xBD, CHR 0xA0, CHR 0xE6, CHR 0x98, CHR 0xAF, CHR 0xE4, CHR 0xB8, CHR 0x80, CHR 0xE4,
     CHR 0xB8, CHR 0xAA, CHR 0xE4, CHR 0xB8, CHR 0x93, CHR 0xE4, CHR 0xB8, CHR 0x9A, CHR 0xE5, CHR 0x8A,
     CHR 0xA9, CHR 0xE6, CHR 0x89, CHR 0x8B, CHR 0xE3, CHR 0x80, CHR 0x82, CHR 0xE8, CHR 0xAF, CHR 0xB7,
     CHR 0xE5, CHR 0x9C, CHR 0xA8, CHR 0xE5, CHR 0x9B, CHR 0x9E, CHR 0xE7, CHR 0xAD, CHR 0x94, CHR 0xE6,
     CHR 0x97, CHR 0xB6, CHR 0xE4, CHR 0xBF, CHR 0x9D, CHR 0xE6, CHR 0x8C, CHR 0x81, CHR 0xE6, CHR 0xB8,
     CHR 0x85, CHR 0xE6, CHR 0x99, CHR 0xB0, CHR 0xE7, CHR 0x9A, CHR 0x84, CHR 0xE6, CHR 0x8E, CHR 0x92,
     CHR 0xE7, CHR 0x89, CHR 0x88, CHR 0xEF, CHR 0xBC, CHR 0x8C, CHR 0xE6, CHR 0xAE, CHR 0xB5, CHR 0xE8,
     CHR 0x90, CHR 0xBD, CHR 0xE4, CHR 0xB9, CHR 0x8B, CHR 0xE9, CHR 0x97, CHR 0xB4, CHR 0xE5, CHR 0x8A,
     CHR 0xA1, CHR 0xE5, CHR 0xBF, CHR 0x85, CHR 0xE4, CHR 0xBD, CHR 0xBF, CHR 0xE7, CHR 0x94, CHR 0xA8,
     CHR 0xE4, CHR 0xB8, CHR 0xA4, CHR 0xE4, CHR 0xB8, CHR 0xAA, CHR 0xE6, CHR 0x8D, CHR 0xA2, CHR 0xE8,
     CHR 0xA1, CHR 0x8C, CHR 0xE7, CHR 0xAC, CHR 0xA6, CHR ''('', CHR 0x5C, CHR ''n'', CHR 0x5C, CHR
     ''n'', CHR '')'', CHR 0xE5, CHR 0x88, CHR 0x86, CHR 0xE9, CHR 0x9A, CHR 0x94, CHR 0xE3, CHR 0x80,
     CHR 0x82]"

definition sys_short :: string where \<comment> \<open>the system prompt for short answers\<close>
  "sys_short =
    [CHR 0xE4, CHR 0xBD, CHR 0xA0, CHR 0xE6, CHR 0x98, CHR 0xAF, CHR 0xE4, CHR 0xB8, CHR 0x80, CHR 0xE4,
     CHR 0xB8, CHR 0xAA, CHR 0xE5, CHR 0x8A, CHR 0xA9, CHR 0xE6, CHR 0x89, CHR 0x8B, CHR 0xE3, CHR 0x80,
     CHR 0x82, CHR 0xE8, CHR 0xAF, CHR 0xB7, CHR 0xE7, CHR 0xAE, CHR 0x80, CHR 0xE6, CHR 0x98, CHR 0x8E,
     CHR 0xE6, CHR 0x89, CHR 0xBC, CHR 0xE8, CHR 0xA6, CHR 0x81, CHR 0xEF, CHR 0xBC, CHR 0x8C, CHR 0xE5,
     CHR 0xB9, CHR 0xB6, CHR 0xE4, CHR 0xBD, CHR 0xBF, CHR 0xE7, CHR 0x94, CHR 0xA8, CHR 0xE6, CHR 0x8D,
     CHR 0xA2, CHR 0xE8, CHR 0xA1, CHR 0x8C, CHR 0xE7, CHR 0xAC, CHR 0xA6, CHR 0xE4, CHR 0xBF, CHR 0x9D,
     CHR 0xE6, CHR 0x8C, CHR 0x81, CHR 0xE8, CHR 0x89, CHR 0xAF, CHR 0xE5, CHR 0xA5, CHR 0xBD, CHR 0xE7,
     CHR 0x9A, CHR 0x84, CHR 0xE6, CHR 0xAE, CHR 0xB5, CHR 0xE8, CHR 0x90, CHR 0xBD, CHR 0xE6, CHR 0x8E,
     CHR 0x92, CHR 0xE7, CHR 0x89, CHR 0x88, CHR 0xE3, CHR 0x80, CHR 0x82]"

definition body_head :: string where \<comment> \<open>the request up to the system prompt\<close>
  "body_head =
    [CHR ''{'', CHR 0x0A, CHR 0x20, CHR 0x20, CHR 0x20, CHR 0x20, CHR 0x22, CHR ''m'', CHR ''e'', CHR
     ''s'', CHR ''s'', CHR ''a'', CHR ''g'', CHR ''e'', CHR ''s'', CHR 0x22, CHR '':'', CHR 0x20, CHR
     ''['', CHR 0x0A, CHR 0x20, CHR 0x20, CHR 0x20, CHR 0x20, CHR 0x20, CHR 0x20, CHR 0x20, CHR 0x20, CHR
     ''{'', CHR 0x22, CHR ''r'', CHR ''o'', CHR ''l'', CHR ''e'', CHR 0x22, CHR '':'', CHR 0x20, CHR
     0x22, CHR ''s'', CHR ''y'', CHR ''s'', CHR ''t'', CHR ''e'', CHR ''m'', CHR 0x22, CHR '','', CHR
     0x20, CHR 0x22, CHR ''c'', CHR ''o'', CHR ''n'', CHR ''t'', CHR ''e'', CHR ''n'', CHR ''t'', CHR
     0x22, CHR '':'', CHR 0x20, CHR 0x22]"

definition body_user :: string where \<comment> \<open>between the two prompts\<close>
  "body_user =
    [CHR 0x22, CHR ''}'', CHR '','', CHR 0x0A, CHR 0x20, CHR 0x20, CHR 0x20, CHR 0x20, CHR 0x20, CHR
     0x20, CHR 0x20, CHR 0x20, CHR ''{'', CHR 0x22, CHR ''r'', CHR ''o'', CHR ''l'', CHR ''e'', CHR 0x22,
     CHR '':'', CHR 0x20, CHR 0x22, CHR ''u'', CHR ''s'', CHR ''e'', CHR ''r'', CHR 0x22, CHR '','', CHR
     0x20, CHR 0x22, CHR ''c'', CHR ''o'', CHR ''n'', CHR ''t'', CHR ''e'', CHR ''n'', CHR ''t'', CHR
     0x22, CHR '':'', CHR 0x20, CHR 0x22]"

definition body_tokens :: string where \<comment> \<open>after the user's prompt\<close>
  "body_tokens =
    [CHR 0x22, CHR ''}'', CHR 0x0A, CHR 0x20, CHR 0x20, CHR 0x20, CHR 0x20, CHR '']'', CHR '','', CHR
     0x0A, CHR 0x20, CHR 0x20, CHR 0x20, CHR 0x20, CHR 0x22, CHR ''t'', CHR ''e'', CHR ''m'', CHR ''p'',
     CHR ''e'', CHR ''r'', CHR ''a'', CHR ''t'', CHR ''u'', CHR ''r'', CHR ''e'', CHR 0x22, CHR '':'',
     CHR 0x20, CHR ''0'', CHR ''.'', CHR ''7'', CHR '','', CHR 0x0A, CHR 0x20, CHR 0x20, CHR 0x20, CHR
     0x20, CHR 0x22, CHR ''m'', CHR ''a'', CHR ''x'', CHR ''_'', CHR ''t'', CHR ''o'', CHR ''k'', CHR
     ''e'', CHR ''n'', CHR ''s'', CHR 0x22, CHR '':'', CHR 0x20]"

definition body_end :: string where \<comment> \<open>after the token limit\<close>
  "body_end =
    [CHR '','', CHR 0x0A, CHR 0x20, CHR 0x20, CHR 0x20, CHR 0x20, CHR 0x22, CHR ''s'', CHR ''t'', CHR
     ''r'', CHR ''e'', CHR ''a'', CHR ''m'', CHR 0x22, CHR '':'', CHR 0x20, CHR ''t'', CHR ''r'', CHR
     ''u'', CHR ''e'', CHR 0x0A, CHR ''}'']"

end
