(* ===== verification/Llama_Client.thy ===== *)
theory Llama_Client
  imports Incremental Texts_Llama
begin

text \<open>
  \<open>include/llama_client.h\<close>: the HTTP client of the AI service. Modelled are the request it builds, the line loop that
  libcurl feeds with the answer (a stream of server-sent events), and the reading of one event. The transfer itself
  is libcurl's, and the JSON library is nlohmann's: both are parameters.
\<close>

section \<open>The JSON library\<close>

text \<open>
  What \<open>parse_stream_chunk\<close> uses of it. \<open>None\<close> is the exception that the library throws: the text is not JSON, a
  value is indexed that is no object or array, or a value is read as a string that is none. \<open>sj_member\<close> is
  \<open>operator[]\<close>, which yields null for a missing key.
\<close>

record 'j stream_json =
  sj_parse :: "string \<Rightarrow> 'j option"
  sj_contains :: "'j \<Rightarrow> string \<Rightarrow> bool"
  sj_member :: "'j \<Rightarrow> string \<Rightarrow> 'j option"
  sj_idx :: "'j \<Rightarrow> nat \<Rightarrow> 'j option"
  sj_is_array :: "'j \<Rightarrow> bool"
  sj_empty :: "'j \<Rightarrow> bool"
  sj_is_null :: "'j \<Rightarrow> bool"
  sj_get_string :: "'j \<Rightarrow> string option"

section \<open>The request\<close>

text \<open>\<open>escape\<close>, for a JSON string literal.\<close>

definition escape_char :: "char \<Rightarrow> string" where
  "escape_char c =
     (if c = CHR 0x22 then [CHR 0x5C, CHR 0x22]
      else if c = CHR 0x5C then [CHR 0x5C, CHR 0x5C]
      else if c = CHR 0x0A then [CHR 0x5C, CHR ''n'']
      else if c = CHR 0x0D then [CHR 0x5C, CHR ''r'']
      else if c = CHR 0x09 then [CHR 0x5C, CHR ''t'']
      else [c])"

fun escape :: "string \<Rightarrow> string" where
  "escape [] = []"
| "escape (c # cs) = escape_char c @ escape cs"

definition wants_code :: "string \<Rightarrow> bool" where
  "wants_code prompt \<longleftrightarrow> str_contains prompt kw_code \<or> str_contains prompt kw_write \<or>
     str_contains prompt kw_implement \<or> str_contains prompt kw_program"

definition wants_detail :: "string \<Rightarrow> bool" where
  "wants_detail prompt \<longleftrightarrow> str_contains prompt kw_detailed \<or> str_contains prompt kw_thorough \<or>
     str_contains prompt kw_complete"

text \<open>The three tests of \<open>stream_chat\<close>: the token limit and whether a long answer is wanted.\<close>

definition output_limits :: "string \<Rightarrow> int \<times> bool" where
  "output_limits prompt =
     (let (tokens0, long0) = (4096, False);
          (tokens1, long1) = (if wants_code prompt then (8196, True) else (tokens0, long0));
          tokens2 = (if wants_detail prompt then max tokens1 3072 else tokens1)
      in if length prompt > 300 then (max tokens2 3072, True) else (tokens2, long1))"

definition system_prompt :: "string \<Rightarrow> string" where
  "system_prompt prompt = (if snd (output_limits prompt) then sys_long else sys_short)"

definition request_body :: "string \<Rightarrow> string" where
  "request_body prompt =
     body_head @ escape (system_prompt prompt) @ body_user @ escape prompt @ body_tokens @
     to_string (fst (output_limits prompt)) @ body_end"

section \<open>The answer\<close>

text \<open>\<open>v.contains(k) && !v[k].is_null()\<close>; what contains a key is an object, so that \<open>v[k]\<close> does not throw.\<close>

definition non_null :: "'j stream_json \<Rightarrow> 'j \<Rightarrow> string \<Rightarrow> bool" where
  "non_null J v k \<longleftrightarrow> sj_contains J v k \<and> (case sj_member J v k of Some x \<Rightarrow> \<not> sj_is_null J x | None \<Rightarrow> False)"

text \<open>\<open>v[k].get<std::string>()\<close>.\<close>

definition get_text :: "'j stream_json \<Rightarrow> 'j \<Rightarrow> string \<Rightarrow> string option" where
  "get_text J v k = Option.bind (sj_member J v k) (sj_get_string J)"

definition delta_content :: "'j stream_json \<Rightarrow> 'j \<Rightarrow> string option" where
  "delta_content J delta =
     (if non_null J delta ''content'' then get_text J delta ''content''
      else if non_null J delta ''reasoning_content'' then get_text J delta ''reasoning_content''
      else Some [])"

text \<open>
  \<open>parse_stream_chunk\<close>: the text that it calls the callback with, if it does. An exception of the library ends it
  without a call.
\<close>

definition parse_stream_chunk :: "'j stream_json \<Rightarrow> string \<Rightarrow> string option" where
  "parse_stream_chunk J json_raw =
     Option.bind (sj_parse J json_raw) (\<lambda>j.
       if \<not> sj_contains J j ''choices'' then None
       else Option.bind (sj_member J j ''choices'') (\<lambda>choices.
         if \<not> sj_is_array J choices \<or> sj_empty J choices then None
         else Option.bind (sj_idx J choices 0) (\<lambda>choice.
           Option.bind (sj_member J choice ''delta'') (\<lambda>delta.
             Option.bind (delta_content J delta) (\<lambda>content.
               if content = [] then None else Some content)))))"

text \<open>One line, without its line feed: a carriage return at its end is dropped, and only \<open>data:\<close> lines count.\<close>

definition data_line :: string where "data_line = ''data: ''"

definition stream_line :: "'j stream_json \<Rightarrow> string \<Rightarrow> string option" where
  "stream_line J line0 =
     (let line = (if line0 \<noteq> [] \<and> last line0 = CHR 0x0D then butlast line0 else line0)
      in if str_prefix data_line line
         then let json_data = drop 6 line in if json_data = ''[DONE]'' then None else parse_stream_chunk J json_data
         else None)"

text \<open>One round of the loop of \<open>stream_write_cb\<close> over \<open>line_buffer\<close>, and the loop.\<close>

definition read_line :: "'j stream_json \<Rightarrow> string \<Rightarrow> string pstep" where
  "read_line J line_buffer =
     (if CHR 0x0A \<notin> set line_buffer then NeedMore
      else let line = takeWhile (\<lambda>c. c \<noteq> CHR 0x0A) line_buffer;
               rest = drop (length line + 1) line_buffer
           in (case stream_line J line of None \<Rightarrow> Skip rest | Some chunk \<Rightarrow> Emit chunk rest))"

lemma read_line_split:
  "CHR 0x0A \<notin> set l \<Longrightarrow>
   read_line J (l @ CHR 0x0A # r) = (case stream_line J l of None \<Rightarrow> Skip r | Some chunk \<Rightarrow> Emit chunk r)"
proof -
  assume "CHR 0x0A \<notin> set l"
  then have "takeWhile (\<lambda>c. c \<noteq> CHR 0x0A) (l @ CHR 0x0A # r) = l"
    by (subst takeWhile_append2) auto
  then show ?thesis by (simp add: read_line_def Let_def Suc_diff_le split: option.split)
qed

lemma read_line_cases:
  obtains (wait) "CHR 0x0A \<notin> set b" "read_line J b = NeedMore"
  | (line) l r where "CHR 0x0A \<notin> set l" "b = l @ CHR 0x0A # r"
proof (cases "CHR 0x0A \<in> set b")
  case True
  then obtain l r where "b = l @ CHR 0x0A # r" "CHR 0x0A \<notin> set l" by (metis split_list_first)
  then show thesis by (rule line [rotated])
qed (simp add: wait read_line_def)

lemma read_line_shorter:
  "read_line J b = Emit m r \<Longrightarrow> length r < length b" "read_line J b = Skip r \<Longrightarrow> length r < length b"
  by (cases rule: read_line_cases [of b J]; auto simp: read_line_split split: option.splits)+

function write_loop :: "'j stream_json \<Rightarrow> string \<Rightarrow> string prun" where
  "write_loop J line_buffer = (case read_line J line_buffer of
     NeedMore \<Rightarrow> ([], line_buffer, True)
   | Emit chunk rest \<Rightarrow> (case write_loop J rest of (cs, r, ok) \<Rightarrow> (chunk # cs, r, ok))
   | Skip rest \<Rightarrow> write_loop J rest
   | Abort \<Rightarrow> ([], line_buffer, False))"
  by pat_completeness auto
termination
  by (relation "measure (\<lambda>(J, b). length b)") (auto dest: read_line_shorter)

declare write_loop.simps [simp del]

lemma read_line_extend:
  "read_line J b = Emit m r \<Longrightarrow> read_line J (b @ x) = Emit m (r @ x)"
  "read_line J b = Skip r \<Longrightarrow> read_line J (b @ x) = Skip (r @ x)"
  by (cases rule: read_line_cases [of b J]; auto simp: read_line_split split: option.splits)+

lemma read_line_not_Abort: "read_line J b \<noteq> Abort"
  by (cases rule: read_line_cases [of b J]) (auto simp: read_line_split split: option.splits)

interpretation ai_stream_text: incremental_parser "read_line J" "write_loop J" for J :: "'j stream_json"
  by unfold_locales (auto simp: write_loop.simps [of J] read_line_not_Abort dest: read_line_shorter read_line_extend)

text \<open>
  \<open>stream_write_cb\<close>: libcurl hands over the next bytes of the answer; every chunk goes to the callback. The
  bytes arrive at a time, which the callback can read off the clock.
\<close>

definition stream_write_cb ::
  "'j stream_json \<Rightarrow> (int \<Rightarrow> string \<Rightarrow> 's \<Rightarrow> 's) \<Rightarrow> int \<times> string \<Rightarrow> string \<times> 's \<Rightarrow> string \<times> 's" where
  "stream_write_cb J on_chunk td ctx =
     (case (td, ctx) of ((t, bytes), (line_buffer, s)) \<Rightarrow>
       (case write_loop J (line_buffer @ bytes) of (chunks, rest, ok) \<Rightarrow> (rest, fold (on_chunk t) chunks s)))"

text \<open>What a C function sees of a string that is handed over with \<open>c_str\<close>: it ends at the first NUL.\<close>

definition c_str :: "string \<Rightarrow> string" where
  "c_str s = takeWhile (\<lambda>c. c \<noteq> CHR 0x00) s"

text \<open>
  \<open>stream_chat\<close>. The request goes to libcurl with \<open>c_str\<close> and without its length. \<open>has_curl\<close> says whether the constructor got a handle; \<open>perform\<close> stands for \<open>curl_easy_perform\<close> and the service:
  the pieces of the answer to a request at a URL, and whether the transfer succeeded.
\<close>

definition stream_chat ::
  "'j stream_json \<Rightarrow> bool \<Rightarrow> string \<Rightarrow> (string \<Rightarrow> string \<Rightarrow> (int \<times> string) list \<times> bool) \<Rightarrow> string \<Rightarrow> (int \<Rightarrow> string \<Rightarrow> 's \<Rightarrow> 's) \<Rightarrow>
   ('s \<Rightarrow> 's) \<Rightarrow> 's \<Rightarrow> bool \<times> 's" where
  "stream_chat J has_curl base_url perform prompt on_chunk on_complete s =
     (if \<not> has_curl then (False, s)
      else (case perform (base_url @ ''/v1/chat/completions'') (c_str (request_body prompt)) of (pieces, ok) \<Rightarrow>
        let s1 = snd (fold (stream_write_cb J on_chunk) pieces ([], s))
        in if \<not> ok then (False, s1) else (True, on_complete s1)))"

section \<open>The request carries the prompt\<close>

text \<open>
  Reading a JSON string literal (RFC 8259, section 7), from behind its opening quote: the string and what follows
  the closing quote. Control characters may not occur; of the escapes only those with one letter are read.
\<close>

fun json_literal :: "string \<Rightarrow> (string \<times> string) option" where
  "json_literal [] = None"
| "json_literal (c # cs) =
     (if c = CHR 0x22 then Some ([], cs)
      else if c = CHR 0x5C then (case cs of [] \<Rightarrow> None | e # es \<Rightarrow>
        (case map_of [(CHR 0x22, CHR 0x22), (CHR 0x5C, CHR 0x5C), (CHR ''/'', CHR ''/''), (CHR ''b'', CHR 0x08),
            (CHR ''f'', CHR 0x0C), (CHR ''n'', CHR 0x0A), (CHR ''r'', CHR 0x0D), (CHR ''t'', CHR 0x09)] e of
          None \<Rightarrow> None
        | Some d \<Rightarrow> map_option (\<lambda>(s, r). (d # s, r)) (json_literal es)))
      else if (of_char c :: nat) < 32 then None
      else map_option (\<lambda>(s, r). (c # s, r)) (json_literal cs))"

text \<open>The characters that \<open>escape\<close> can put into a literal.\<close>

definition json_safe :: "char \<Rightarrow> bool" where
  "json_safe c \<longleftrightarrow> 32 \<le> (of_char c :: nat) \<or> c \<in> {CHR 0x0A, CHR 0x0D, CHR 0x09}"

lemma json_literal_escape:
  "json_literal (escape s @ CHR 0x22 # rest) = (if list_all json_safe s then Some (s, rest) else None)"
proof (induction s)
  case (Cons c s)
  then show ?case by (auto simp: escape_char_def json_safe_def)
qed simp

text \<open>
  C29. The request carries the prompt and nothing of it gets out of its place: behind the fixed part of the
  request, the JSON reader finds a string literal that is exactly the prompt, and then the rest of the
  request. For a prompt with a control character other than line feed, carriage return and tab the
  request is not JSON: \<open>escape\<close> leaves these characters as they are.
\<close>

theorem request_carries_prompt:
  "json_literal (drop (length (body_head @ escape (system_prompt prompt) @ body_user)) (request_body prompt)) =
   (if list_all json_safe prompt
    then Some (prompt, tl body_tokens @ to_string (fst (output_limits prompt)) @ body_end) else None)"
proof -
  have "body_tokens = CHR 0x22 # tl body_tokens" by (simp add: body_tokens_def)
  then show ?thesis
    using json_literal_escape [of prompt "tl body_tokens @ to_string (fst (output_limits prompt)) @ body_end"]
    by (metis append.assoc append_Cons append_eq_conv_conj request_body_def)
qed

text \<open>
  The tests for a detailed answer and for a long prompt mean to raise the limit to 3072 tokens, but it already is 4096:
  only the words about code change it.
\<close>

lemma output_limits_tokens: "fst (output_limits prompt) = (if wants_code prompt then 8196 else 4096)"
  by (simp add: output_limits_def)

section \<open>The answer however it is cut\<close>

text \<open>Whole lines followed by the beginning of one.\<close>

definition sse_lines :: "string list \<Rightarrow> string \<Rightarrow> string" where
  "sse_lines ls partial = concat (map (\<lambda>l. l @ [CHR 0x0A]) ls) @ partial"

lemma write_loop_lines:
  assumes "\<forall>l \<in> set ls. CHR 0x0A \<notin> set l" "CHR 0x0A \<notin> set partial"
  shows "write_loop J (sse_lines ls partial) = (List.map_filter (stream_line J) ls, partial, True)"
  using assms(1)
proof (induction ls)
  case Nil
  then show ?case using assms(2) by (simp add: sse_lines_def write_loop.simps read_line_def List.map_filter_def)
next
  case (Cons l ls)
  have split: "sse_lines (l # ls) partial = l @ CHR 0x0A # sse_lines ls partial" by (simp add: sse_lines_def)
  show ?case using Cons
    by (subst write_loop.simps) (simp add: split read_line_split List.map_filter_simps split: option.split)
qed

lemma write_loop_good: "snd (snd (write_loop J b))"
proof (induction b rule: ai_stream_text.prun_induct [of J])
  case (Abort b)
  then show ?case by (simp add: read_line_not_Abort)
qed (auto simp: ai_stream_text.prun_simps split: prod.split)

text \<open>Feeding the callback piece by piece is feeding it the chunks of the whole, each at some time.\<close>

lemma write_pieces:
  assumes "read_line J buf = NeedMore"
  shows "\<exists>timed. map snd timed = fst (write_loop J (buf @ concat (map snd pieces))) \<and>
    snd (fold (stream_write_cb J on_chunk) pieces (buf, s)) = fold (\<lambda>(t, c). on_chunk t c) timed s"
  using assms
proof (induction pieces arbitrary: buf s)
  case Nil
  then show ?case by (intro exI [of _ "[]"]) (simp add: ai_stream_text.prun_needmore)
next
  case (Cons p pieces)
  obtain t bytes where p: "p = (t, bytes)" by (cases p)
  obtain cs r ok where run: "write_loop J (buf @ bytes) = (cs, r, ok)" by (cases "write_loop J (buf @ bytes)")
  then have ok by (metis snd_conv write_loop_good)
  with run have "read_line J r = NeedMore" by (metis ai_stream_text.prun_stops)
  from Cons.IH [OF this, of "fold (on_chunk t) cs s"] obtain timed where
    timed: "map snd timed = fst (write_loop J (r @ concat (map snd pieces)))"
      "snd (fold (stream_write_cb J on_chunk) pieces (r, fold (on_chunk t) cs s)) =
       fold (\<lambda>(t, c). on_chunk t c) timed (fold (on_chunk t) cs s)" by blast
  have "fst (write_loop J (buf @ concat (map snd (p # pieces)))) = cs @ map snd timed"
    using ai_stream_text.prun_append [of J "buf @ bytes" cs r "concat (map snd pieces)"] run \<open>ok\<close> timed(1)
    by (simp add: p split: prod.splits)
  moreover have "fold (\<lambda>(t, c). on_chunk t c) (map (Pair t) cs) s' = fold (on_chunk t) cs s'" for s'
    by (simp add: fold_map comp_def)
  ultimately show ?case using timed(2)
    by (intro exI [of _ "map (Pair t) cs @ timed"]) (simp add: p stream_write_cb_def [of _ _ "(t, bytes)"] run comp_def)
qed
end
