(* ===== verification/Ai_Manager.thy ===== *)
theory Ai_Manager
  imports Server Texts_Ai Llama_Client "HOL-Library.AList"
begin

text \<open>
  \<open>src/ai_manager.cpp\<close>: the queue of AI requests, the scheduler thread, and the streaming of one answer
  by a thread of the pool. The answer of the AI service arrives chunk by chunk; each chunk, and the end,
  is a step of its own, because connections come and go meanwhile. The exception that the chunk callback
  throws when it finds the connection closed does not leave \<open>LlamaClient::parse_stream_chunk\<close>, which
  catches every \<open>std::exception\<close>, so the callback returns like any other.
\<close>

section \<open>Requests\<close>

definition submit_stream_request :: "int \<Rightarrow> string \<Rightarrow> ctx_ref \<Rightarrow> ('t, 'm) server \<Rightarrow> bool \<times> ('t, 'm) server" where
  "submit_stream_request sender_uid prompt r s =
     (if cc_owner_worker (ctx_of s r) = None then (False, s)
      else let fd = cc_fd (ctx_of s r) in
        if fd < 0 then (False, s)
        else if fd \<in> fst ` set (active_streams (sv_ai s)) then (False, s)
        else if length (pending_requests (sv_ai s)) > 1000 then (False, s)
        else (True, s\<lparr>sv_ai := (sv_ai s)\<lparr>pending_requests := pending_requests (sv_ai s) @
          [\<lparr>sr_uid = sender_uid, sr_prompt = prompt, sr_ctx = r, sr_timestamp = sv_tick s, sr_seq = 0\<rparr>]\<rparr>\<rparr>))"

section \<open>Sending\<close>

definition send_stream_chunk ::
  "('j, 't, 'm) externals \<Rightarrow> int \<Rightarrow> ctx_ref \<Rightarrow> string \<Rightarrow> bool \<Rightarrow> bool \<Rightarrow> int \<Rightarrow> ('t, 'm) server \<Rightarrow> ('t, 'm) server" where
  "send_stream_chunk X uid r chunk is_first is_last stream_seq s =
     (case cc_owner_worker (ctx_of s r) of
       None \<Rightarrow> s
     | Some w \<Rightarrow>
         if chunk = [] \<and> \<not> is_last then s
         else let msg = new_ChatMessage\<lparr>cm_from_uid := 9999, cm_to_uid := uid, cm_content := chunk,
                cm_is_stream := (\<not> is_last \<or> chunk \<noteq> []), cm_is_last_chunk := is_last, cm_stream_seq := stream_seq,
                cm_timestamp := sv_wall s\<rparr>
           in queue_send_packet w r (cmd_code CHAT) 0 (ser_ChatMessage (x_codec X) msg) s)"

definition send_error_response ::
  "('j, 't, 'm) externals \<Rightarrow> StreamRequest \<Rightarrow> string \<Rightarrow> ('t, 'm) server \<Rightarrow> ('t, 'm) server" where
  "send_error_response X req error_msg s = send_stream_chunk X (sr_uid req) (sr_ctx req) error_msg False True (sr_seq req) s"

section \<open>The scheduler\<close>

text \<open>One round of \<open>schedule_requests\<close>.\<close>

definition schedule_requests :: "('j, 't, 'm) externals \<Rightarrow> ('t, 'm) server \<Rightarrow> ('t, 'm) server" where
  "schedule_requests X s =
     (case pending_requests (sv_ai s) of
       [] \<Rightarrow> s
     | req # rest \<Rightarrow>
         if length (active_streams (sv_ai s)) < max_concurrent (sv_ai s)
         then let s1 = s\<lparr>sv_ai := (sv_ai s)\<lparr>pending_requests := rest\<rparr>\<rparr>;
                  age = (sv_tick s - sr_timestamp req) div 1000 in
           if age > 30 then send_error_response X req txt_queue_timeout s1
           else let fd = cc_fd (ctx_of s1 (sr_ctx req)) in
             if fd < 0 then s1
             else enqueue_task (TaskStream req)
               (s1\<lparr>sv_ai := (sv_ai s1)\<lparr>active_streams := AList.update fd req (active_streams (sv_ai s1))\<rparr>\<rparr>)
         else s)"

section \<open>Streaming one answer\<close>

text \<open>\<open>active_streams_.erase(fd)\<close>, at the two ends of \<open>process_stream_request\<close>.\<close>

definition erase_stream :: "ctx_ref \<Rightarrow> ('t, 'm) server \<Rightarrow> ('t, 'm) server" where
  "erase_stream r s =
     (let fd = cc_fd (ctx_of s r) in
      if fd \<ge> 0 then s\<lparr>sv_ai := (sv_ai s)\<lparr>active_streams := AList.delete fd (active_streams (sv_ai s))\<rparr>\<rparr> else s)"

text \<open>\<open>process_stream_request\<close> up to the call of \<open>stream_chat\<close>.\<close>

definition stream_start :: "StreamRequest \<Rightarrow> ('t, 'm) server \<Rightarrow> ai_stream option \<times> ('t, 'm) server" where
  "stream_start req s =
     (if cc_fd (ctx_of s (sr_ctx req)) < 0 then (None, erase_stream (sr_ctx req) s)
      else (Some \<lparr>as_req = req, as_buffer = [], as_last_flush = sv_tick s, as_conn_lost = False\<rparr>, s))"

text \<open>
  \<open>rr_counter.fetch_add(1) % ai_clients_.size()\<close>: the HTTP client for the next answer, of \<open>n\<close>, and the next counter. Whether that client is in use is not
  looked at.
\<close>

definition pick_client :: "64 word \<Rightarrow> nat \<Rightarrow> crash + (nat \<times> 64 word)" where
  "pick_client counter n = (if n = 0 then Inl DivideByZero else Inr (unat counter mod n, counter + 1))"

definition MAX_CHUNK_SIZE :: nat where "MAX_CHUNK_SIZE = 50"
definition FLUSH_INTERVAL :: int where "FLUSH_INTERVAL = 80"

definition send_next :: "('j, 't, 'm) externals \<Rightarrow> ai_stream \<Rightarrow> string \<Rightarrow> bool \<Rightarrow> ('t, 'm) server \<Rightarrow> ai_stream \<times> ('t, 'm) server" where
  "send_next X st chunk is_last s =
     (let req = as_req st in
      (st\<lparr>as_req := req\<lparr>sr_seq := sr_seq req + 1\<rparr>\<rparr>,
       send_stream_chunk X (sr_uid req) (sr_ctx req) chunk False is_last (sr_seq req) s))"

text \<open>The chunk callback.\<close>

definition on_chunk :: "('j, 't, 'm) externals \<Rightarrow> string \<Rightarrow> ai_stream \<Rightarrow> ('t, 'm) server \<Rightarrow> ai_stream \<times> ('t, 'm) server" where
  "on_chunk X chunk st s =
     (let st1 = st\<lparr>as_buffer := as_buffer st @ chunk\<rparr> in
      if cc_fd (ctx_of s (sr_ctx (as_req st1))) < 0 then (st1\<lparr>as_conn_lost := True\<rparr>, s)
      else let has_newline = (CHR 0x0A \<in> set chunk) in
        if (length (as_buffer st1) \<ge> MAX_CHUNK_SIZE \<or> sv_tick s - as_last_flush st1 \<ge> FLUSH_INTERVAL \<or> has_newline) \<and>
           as_buffer st1 \<noteq> []
        then (case send_next X st1 (as_buffer st1) False s of
          (st2, s2) \<Rightarrow> (st2\<lparr>as_buffer := [], as_last_flush := sv_tick s\<rparr>, s2))
        else (st1, s))"

text \<open>The completion callback.\<close>

definition on_complete :: "('j, 't, 'm) externals \<Rightarrow> ai_stream \<Rightarrow> ('t, 'm) server \<Rightarrow> ai_stream \<times> ('t, 'm) server" where
  "on_complete X st s =
     (if cc_fd (ctx_of s (sr_ctx (as_req st))) < 0 then (st\<lparr>as_conn_lost := True\<rparr>, s)
      else (case send_next X st (as_buffer st) True s of (st2, s2) \<Rightarrow> (st2\<lparr>as_buffer := []\<rparr>, s2)))"

section \<open>Answers without an AI service\<close>

definition generate_fallback_response :: "('j, 't, 'm) externals \<Rightarrow> int \<Rightarrow> string \<Rightarrow> string" where
  "generate_fallback_response X wall prompt =
     (let lower = map tolower prompt in
      if str_contains lower kw_hello \<or> str_contains lower ''hi'' \<or> lower = ''hello'' then fb_hello
      else if str_contains lower kw_help \<or> str_contains lower ''help'' then fb_help
      else if str_contains lower kw_time \<or> str_contains lower kw_clock then fb_now @ x_put_time X wall
      else if str_contains lower kw_weather then fb_weather
      else if str_contains lower kw_who \<or> str_contains lower kw_what then fb_who
      else if length prompt < 5 then fb_short
      else fb_echo @ take 100 prompt @ (if length prompt > 100 then ''...'' else []) @ fb_offline)"

text \<open>The loop that sends it in pieces of 15 bytes; nothing is sent once the connection is closed.\<close>

fun send_fallback :: "('j, 't, 'm) externals \<Rightarrow> string \<Rightarrow> ai_stream \<Rightarrow> ('t, 'm) server \<Rightarrow> ai_stream \<times> ('t, 'm) server" where
  "send_fallback X text st s =
     (if text = [] then (st, s)
      else (case (if cc_fd (ctx_of s (sr_ctx (as_req st))) \<ge> 0
                  then send_next X st (take 15 text) (length text \<le> 15) s else (st, s)) of
        (st1, s1) \<Rightarrow> send_fallback X (drop 15 text) st1 s1))"

declare send_fallback.simps [simp del]

text \<open>\<open>process_stream_request\<close> after the call of \<open>stream_chat\<close>, whose result is \<open>ok\<close>.\<close>

definition stream_finish :: "('j, 't, 'm) externals \<Rightarrow> bool \<Rightarrow> ai_stream \<Rightarrow> ('t, 'm) server \<Rightarrow> ('t, 'm) server" where
  "stream_finish X ok st s =
     (case (if \<not> ok \<and> \<not> as_conn_lost st
            then send_fallback X (generate_fallback_response X (sv_wall s) (sr_prompt (as_req st))) st s
            else (st, s)) of
       (st1, s1) \<Rightarrow> erase_stream (sr_ctx (as_req st1)) s1)"

text \<open>The end of a transfer: \<open>stream_chat\<close> calls \<open>on_complete\<close> where it succeeded (\<open>CURLE_OK\<close>), and returns.\<close>

definition stream_end :: "('j, 't, 'm) externals \<Rightarrow> bool \<Rightarrow> ai_stream \<Rightarrow> ('t, 'm) server \<Rightarrow> ('t, 'm) server" where
  "stream_end X ok st s = (case (if ok then on_complete X st s else (st, s)) of (st1, s1) \<Rightarrow> stream_finish X ok st1 s1)"

text \<open>
  The whole of \<open>process_stream_request\<close>, for a transfer during which no other thread runs: \<open>perform\<close> stands for libcurl and the
  AI service, \<open>J\<close> for the JSON library.
\<close>

definition process_stream_request ::
  "('j, 't, 'm) externals \<Rightarrow> 'k stream_json \<Rightarrow> bool \<Rightarrow> (string \<Rightarrow> string \<Rightarrow> (int \<times> string) list \<times> bool) \<Rightarrow> StreamRequest \<Rightarrow>
   ('t, 'm) server \<Rightarrow> ('t, 'm) server" where
  "process_stream_request X J has_curl perform req s =
     (case stream_start req s of
       (None, s1) \<Rightarrow> s1
     | (Some st, s1) \<Rightarrow>
         (case stream_chat J has_curl (AI_BASE_URL (sv_env s)) perform (sr_prompt req) (\<lambda>t c (st, s). on_chunk X c st (s\<lparr>sv_tick := t\<rparr>))
             (\<lambda>(st, s). on_complete X st s) (st, s1) of
           (ok, st2, s2) \<Rightarrow> stream_finish X ok st2 s2))"

end
