(* ===== verification/Business.thy ===== *)
theory Business
  imports Ai_Manager
begin

text \<open>
  \<open>src/business.cpp\<close>: what a thread of the pool does with one packet. Each branch of \<open>process_business\<close> is a
  program of its own; \<open>process_business\<close> chooses the branch and catches exceptions. A task is one step: the
  clock stands still and no other thread is seen to act within it.
\<close>

section \<open>Replies\<close>

definition send_response :: "('j, 't, 'm) externals \<Rightarrow> ctx_ref \<Rightarrow> u32 \<Rightarrow> Response \<Rightarrow> ('t, 'm, unit) sprog" where
  "send_response X r n resp = send_to r (cmd_code ACK) n (ser_Response (x_codec X) resp)"

definition failure :: "string \<Rightarrow> Response" where
  "failure m = new_Response\<lparr>rs_success := False, rs_msg := m\<rparr>"

definition success :: "int \<Rightarrow> string \<Rightarrow> Response" where
  "success uid m = new_Response\<lparr>rs_success := True, rs_uid := uid, rs_msg := m\<rparr>"

definition uid_of :: "ctx_ref \<Rightarrow> ('t, 'm, int) sprog" where
  "uid_of r = getsP (\<lambda>s. cc_uid (ctx_of s r))"

section \<open>The storage\<close>

definition has_db :: "('t, 'm, bool) sprog" where
  "has_db = getsP (\<lambda>s. sv_db s \<noteq> None)"

text \<open>\<open>g_db_writer->op(...)\<close>.\<close>

definition with_db :: "('t, 'm, 'a) db_prog \<Rightarrow> ('t, 'm, 'a) sprog" where
  "with_db m = (\<lambda>s. case sv_db s of
     None \<Rightarrow> (Crash NullDeref, s)
   | Some d \<Rightarrow> (case m d of (res, d') \<Rightarrow> (res, s\<lparr>sv_db := Some d'\<rparr>)))"

section \<open>Rate limit\<close>

text \<open>Whether the packet is over the limit; the counters of the context are brought up to date.\<close>

definition rate_update :: "int \<Rightarrow> int \<Rightarrow> ClientContext \<Rightarrow> ClientContext" where
  "rate_update window now_sec c =
     (let c1 = (if cc_rate_window_start c = 0 \<or> now_sec - cc_rate_window_start c > window
                then c\<lparr>cc_rate_window_start := now_sec, cc_rate_msg_count := 0\<rparr> else c)
      in c1\<lparr>cc_rate_msg_count := cc_rate_msg_count c1 + 1\<rparr>)"

definition rate_limited :: "ctx_ref \<Rightarrow> ('t, 'm, bool) sprog" where
  "rate_limited r =
     seqP (modifyP (\<lambda>s. upd_ctx r (rate_update (RATE_LIMIT_WINDOW (sv_env s)) (sv_tick s div 1000)) s))
     (getsP (\<lambda>s. cc_rate_msg_count (ctx_of s r) > RATE_LIMIT_MSGS (sv_env s)))"

section \<open>Login and registration\<close>

definition offline_packet :: "('j, 't, 'm) externals \<Rightarrow> int \<Rightarrow> DBChatMessage \<Rightarrow> string" where
  "offline_packet X wall m = ser_ChatMessage (x_codec X) (new_ChatMessage\<lparr>cm_from_uid := dm_from_uid m,
     cm_to_uid := dm_to_uid m, cm_content := dm_content m, cm_timestamp := wall\<rparr>)"

definition deliver_offline :: "('j, 't, 'm) externals \<Rightarrow> ctx_ref \<Rightarrow> int \<Rightarrow> ('t, 'm, unit) sprog" where
  "deliver_offline X r uid = bindP has_db (\<lambda>db.
     if \<not> db then ret ()
     else bindP (with_db (query_offline_messages X uid)) (\<lambda>offline_msgs.
       if offline_msgs = [] then ret ()
       else seqP (forP offline_msgs (\<lambda>m. bindP (getsP sv_wall) (\<lambda>wall.
              send_to r (cmd_code CHAT) 0 (offline_packet X wall m))))
            (with_db (mark_delivered X uid 9223372036854775807))))"

definition handle_login :: "('j, 't, 'm) externals \<Rightarrow> ctx_ref \<Rightarrow> u32 \<Rightarrow> string \<Rightarrow> ('t, 'm, unit) sprog" where
  "handle_login X r n body = (case parse_LoginRequest (x_codec X) body of
     None \<Rightarrow> ret ()
   | Some req \<Rightarrow> bindP has_db (\<lambda>db.
       bindP (if db then with_db (verify_login X (lr_username req) (lr_password req)) else ret (-1)) (\<lambda>uid.
       if uid > 0
       then seqP (bind uid r) (seqP (deliver_offline X r uid) (send_response X r n (success uid ''login success'')))
       else send_response X r n (failure txt_login_failed))))"

definition handle_register :: "('j, 't, 'm) externals \<Rightarrow> ctx_ref \<Rightarrow> u32 \<Rightarrow> string \<Rightarrow> ('t, 'm, unit) sprog" where
  "handle_register X r n body = (case parse_RegisterRequest (x_codec X) body of
     None \<Rightarrow> ret ()
   | Some req \<Rightarrow>
       if rr_username req = [] \<or> rr_password req = [] then send_response X r n (failure txt_empty_credentials)
       else bindP has_db (\<lambda>db.
         if \<not> db then send_response X r n (failure txt_unavailable)
         else bindP (with_db (register_user X (rr_username req) (rr_password req))) (\<lambda>uid.
           if uid = -2 then send_response X r n (failure txt_name_taken)
           else if uid < 0 then send_response X r n (failure txt_register_failed)
           else seqP (bind uid r) (send_response X r n (success uid (txt_registered @ to_string uid))))))"

section \<open>Chat\<close>

definition handle_ai_chat :: "('j, 't, 'm) externals \<Rightarrow> ctx_ref \<Rightarrow> u32 \<Rightarrow> ChatMessage \<Rightarrow> ('t, 'm, unit) sprog" where
  "handle_ai_chat X r n msg = bindP (uid_of r) (\<lambda>sender_uid.
     bindP (\<lambda>s. case submit_stream_request sender_uid (cm_content msg) r s of (ok, s') \<Rightarrow> (Val ok, s')) (\<lambda>ok.
     if ok then ret ()
     else send_response X r n ((failure txt_ai_busy)\<lparr>rs_uid := sender_uid\<rparr>)))"

definition submit_message :: "int \<Rightarrow> int \<Rightarrow> string \<Rightarrow> bool \<Rightarrow> ('t, 'm, unit) sprog" where
  "submit_message from_uid to_uid content delivered = bindP has_db (\<lambda>db.
     if db then with_db (submit \<lparr>dm_id = 0, dm_from_uid = from_uid, dm_to_uid = to_uid, dm_content = content,
       dm_delivered = delivered\<rparr>) else ret ())"

definition handle_chat :: "('j, 't, 'm) externals \<Rightarrow> ctx_ref \<Rightarrow> u32 \<Rightarrow> string \<Rightarrow> ('t, 'm, unit) sprog" where
  "handle_chat X r n body = (case parse_ChatMessage (x_codec X) body of
     None \<Rightarrow> ret ()
   | Some msg \<Rightarrow>
       if cm_to_uid msg = 9999 then handle_ai_chat X r n msg
       else bindP (getsP (\<lambda>s. session_get (sv_sessions s) (cm_to_uid msg))) (\<lambda>target.
         bindP (uid_of r) (\<lambda>uid. case target of
           Some t \<Rightarrow>
             seqP (send_to t (cmd_code CHAT) 0 (ser_ChatMessage (x_codec X) (msg\<lparr>cm_from_uid := uid\<rparr>)))
             (seqP (send_response X r n (success uid (txt_sent_to @ to_string (cm_to_uid msg))))
             (submit_message uid (cm_to_uid msg) (cm_content msg) True))
         | None \<Rightarrow>
             seqP (submit_message uid (cm_to_uid msg) (cm_content msg) False)
             (send_response X r n ((failure (txt_user @ to_string (cm_to_uid msg) @ txt_stored))\<lparr>rs_uid := uid\<rparr>)))))"

definition handle_heartbeat :: "('j, 't, 'm) externals \<Rightarrow> ctx_ref \<Rightarrow> u32 \<Rightarrow> ('t, 'm, unit) sprog" where
  "handle_heartbeat X r n = bindP (uid_of r) (\<lambda>uid. send_response X r n (success uid ''PONG''))"

section \<open>Friends\<close>

text \<open>A notice to a user who is online.\<close>

definition notify :: "('j, 't, 'm) externals \<Rightarrow> int \<Rightarrow> string \<Rightarrow> ('t, 'm, unit) sprog" where
  "notify X uid m = bindP (getsP (\<lambda>s. session_get (sv_sessions s) uid)) (\<lambda>target. case target of
     None \<Rightarrow> ret ()
   | Some t \<Rightarrow> send_response X t 0 (success 0 m))"

definition handle_add_friend :: "('j, 't, 'm) externals \<Rightarrow> ctx_ref \<Rightarrow> u32 \<Rightarrow> string \<Rightarrow> ('t, 'm, unit) sprog" where
  "handle_add_friend X r n body = (case parse_AddFriendRequest (x_codec X) body of
     None \<Rightarrow> ret ()
   | Some req \<Rightarrow> bindP (uid_of r) (\<lambda>from_uid. bindP has_db (\<lambda>db.
       if af_to_uid req = from_uid then send_response X r n ((failure txt_not_self)\<lparr>rs_uid := from_uid\<rparr>)
       else if \<not> db then send_response X r n ((failure txt_unavailable)\<lparr>rs_uid := from_uid\<rparr>)
       else bindP (with_db (add_friend_request X from_uid (af_to_uid req) (af_message req))) (\<lambda>res.
         if res = -2 then send_response X r n ((failure txt_already_friends)\<lparr>rs_uid := from_uid\<rparr>)
         else if res = -3 then send_response X r n ((failure txt_already_requested)\<lparr>rs_uid := from_uid\<rparr>)
         else if res < 0 then send_response X r n ((failure txt_request_failed)\<lparr>rs_uid := from_uid\<rparr>)
         else seqP (notify X (af_to_uid req) txt_request_received)
           (send_response X r n (success from_uid txt_request_sent))))))"

definition handle_accept_friend :: "('j, 't, 'm) externals \<Rightarrow> ctx_ref \<Rightarrow> u32 \<Rightarrow> string \<Rightarrow> ('t, 'm, unit) sprog" where
  "handle_accept_friend X r n body = (case parse_AcceptFriendRequest (x_codec X) body of
     None \<Rightarrow> ret ()
   | Some req \<Rightarrow> bindP (uid_of r) (\<lambda>acceptor_uid. bindP has_db (\<lambda>db.
       if \<not> db then send_response X r n ((failure txt_unavailable)\<lparr>rs_uid := acceptor_uid\<rparr>)
       else bindP (with_db (accept_friend_request X (ac_request_id req) acceptor_uid)) (\<lambda>from_uid.
         if from_uid < 0 then send_response X r n ((failure txt_accept_failed)\<lparr>rs_uid := acceptor_uid\<rparr>)
         else seqP (notify X from_uid txt_was_accepted)
           (send_response X r n (success acceptor_uid txt_accepted))))))"

definition user_infos :: "buckets \<Rightarrow> (int \<times> string) list \<Rightarrow> FriendInfo list" where
  "user_infos b us = map (\<lambda>(u, name). \<lparr>fi_uid = u, fi_username = name, fi_online = (session_get b u \<noteq> None)\<rparr>) us"

definition send_users :: "('j, 't, 'm) externals \<Rightarrow> ctx_ref \<Rightarrow> CmdType \<Rightarrow> u32 \<Rightarrow> (int \<times> string) list \<Rightarrow> ('t, 'm, unit) sprog" where
  "send_users X r c n us = bindP (getsP sv_sessions) (\<lambda>b.
     send_to r (cmd_code c) n (ser_UserList (x_codec X) (user_infos b us)))"

definition handle_friend_list :: "('j, 't, 'm) externals \<Rightarrow> ctx_ref \<Rightarrow> u32 \<Rightarrow> ('t, 'm, unit) sprog" where
  "handle_friend_list X r n = bindP has_db (\<lambda>db.
     if \<not> db then send_response X r n (failure txt_unavailable)
     else bindP (uid_of r) (\<lambda>uid. bindP (with_db (get_friends X uid)) (send_users X r FRIEND_LIST n)))"

definition handle_search_user :: "('j, 't, 'm) externals \<Rightarrow> ctx_ref \<Rightarrow> u32 \<Rightarrow> string \<Rightarrow> ('t, 'm, unit) sprog" where
  "handle_search_user X r n body = (case parse_SearchUserRequest (x_codec X) body of
     None \<Rightarrow> ret ()
   | Some req \<Rightarrow> bindP has_db (\<lambda>db.
       if \<not> db then send_response X r n (failure txt_unavailable)
       else bindP (with_db (search_users X (su_keyword req))) (send_users X r SEARCH_USER n)))"

definition handle_friend_requests :: "('j, 't, 'm) externals \<Rightarrow> ctx_ref \<Rightarrow> u32 \<Rightarrow> ('t, 'm, unit) sprog" where
  "handle_friend_requests X r n = bindP has_db (\<lambda>db.
     if \<not> db then send_response X r n (failure txt_unavailable)
     else bindP (uid_of r) (\<lambda>uid. bindP (with_db (get_pending_requests X uid)) (\<lambda>reqs.
       send_to r (cmd_code FRIEND_REQUESTS) n (ser_FriendRequestList (x_codec X)
         (map (\<lambda>(i, f, name, m). \<lparr>fr_id = i, fr_from_uid = f, fr_from_username = name, fr_message = m\<rparr>) reqs)))))"

section \<open>The whole\<close>

definition handle_command :: "('j, 't, 'm) externals \<Rightarrow> ctx_ref \<Rightarrow> PacketHeader \<Rightarrow> string \<Rightarrow> ('t, 'm, unit) sprog" where
  "handle_command X r hdr body =
     (if cmd hdr = cmd_code LOGIN then handle_login X r (seq hdr) body
      else if cmd hdr = cmd_code CHAT then handle_chat X r (seq hdr) body
      else if cmd hdr = cmd_code REGISTER then handle_register X r (seq hdr) body
      else if cmd hdr = cmd_code HEARTBEAT then handle_heartbeat X r (seq hdr)
      else if cmd hdr = cmd_code ADD_FRIEND then handle_add_friend X r (seq hdr) body
      else if cmd hdr = cmd_code ACCEPT_FRIEND then handle_accept_friend X r (seq hdr) body
      else if cmd hdr = cmd_code FRIEND_LIST then handle_friend_list X r (seq hdr)
      else if cmd hdr = cmd_code SEARCH_USER then handle_search_user X r (seq hdr) body
      else if cmd hdr = cmd_code FRIEND_REQUESTS then handle_friend_requests X r (seq hdr)
      else ret ())"

text \<open>The handler of exceptions: the client is told of an internal error. Building and queueing that answer does not throw.\<close>

definition business_error :: "('j, 't, 'm) externals \<Rightarrow> ctx_ref \<Rightarrow> u32 \<Rightarrow> ('t, 'm, unit) sprog" where
  "business_error X r n = send_response X r n (failure txt_internal_error)"

definition process_business :: "('j, 't, 'm) externals \<Rightarrow> ctx_ref \<Rightarrow> PacketHeader \<Rightarrow> string \<Rightarrow> ('t, 'm, unit) sprog" where
  "process_business X r hdr body = catchP
     (bindP (if cmd hdr = cmd_code CHAT then rate_limited r else ret False) (\<lambda>limited.
        if limited then send_response X r (seq hdr) (failure txt_rate_limited)
        else handle_command X r hdr body))
     (\<lambda>e. business_error X r (seq hdr))"

end
