(* ===== verification/Server_Inv.thy ===== *)
theory Server_Inv
  imports Server
begin

text \<open>
  The invariant of the worker threads' state: which connection owns which descriptor and context, the
  context pools, the heartbeat timers, the epoll interest and the send buffers, and the connection
  count; and that every operation of the worker threads keeps it.
\<close>

section \<open>The invariant\<close>

definition live :: "('t, 'm) server \<Rightarrow> (nat \<times> int) set" where
  "live s = {(w, fd). conns s w fd \<noteq> None}"

text \<open>The descriptors of accepted sockets that wait for their worker.\<close>

fun add_fds :: "loop_fn list \<Rightarrow> int list" where
  "add_fds [] = []"
| "add_fds (FnAddConn fd ip port # fs) = fd # add_fds fs"
| "add_fds (FnSendPacket r c n b # fs) = add_fds fs"
| "add_fds (FnClose fd # fs) = add_fds fs"

definition waiting :: "('t, 'm) server \<Rightarrow> nat \<Rightarrow> int list" where
  "waiting s w = add_fds (w_running (sv_worker s w) @ w_pending (sv_worker s w))"

text \<open>
  Descriptors: an open socket is a connection of one worker or waits for one worker, and never both.
  A context says which descriptor it serves exactly while a connection holds it.
\<close>

definition conn_inv :: "('t, 'm) server \<Rightarrow> bool" where
  "conn_inv s \<longleftrightarrow>
     (\<forall>w fd c. conns s w fd = Some c \<longrightarrow> tc_fd c = fd \<and> \<not> tc_closed c \<and> 0 \<le> fd \<and> fd \<in> sv_open s \<and>
        tc_ctx c < hp_next (sv_heap s) \<and> cc_fd (ctx_of s (tc_ctx c)) = fd) \<and>
     (\<forall>r. cc_fd (ctx_of s r) \<noteq> -1 \<longrightarrow> (\<exists>w fd c. conns s w fd = Some c \<and> tc_ctx c = r)) \<and>
     (\<forall>w w' fd. conns s w fd \<noteq> None \<and> conns s w' fd \<noteq> None \<longrightarrow> w = w')"

definition wait_inv :: "('t, 'm) server \<Rightarrow> bool" where
  "wait_inv s \<longleftrightarrow>
     (\<forall>w. distinct (waiting s w)) \<and>
     (\<forall>w w' fd. fd \<in> set (waiting s w) \<and> fd \<in> set (waiting s w') \<longrightarrow> w = w') \<and>
     (\<forall>w fd. fd \<in> set (waiting s w) \<longrightarrow> 0 \<le> fd \<and> fd \<in> sv_open s \<and> (\<forall>w'. conns s w' fd = None))"

definition count_inv :: "('t, 'm) server \<Rightarrow> bool" where
  "count_inv s \<longleftrightarrow> finite (live s) \<and> sv_conn_count s = int (card (live s))"

text \<open>
  Pools: every place of a worker's pool holds a context that knows its place and its worker; a free
  place serves no descriptor; the context of a connection is a place of its worker's pool, or one that
  was made when the pool was empty.
\<close>

definition pools_inv :: "('t, 'm) server \<Rightarrow> bool" where
  "pools_inv s \<longleftrightarrow>
     (\<forall>w. distinct (storage (w_pool (sv_worker s w))) \<and> distinct (free_list (w_pool (sv_worker s w)))) \<and>
     (\<forall>w i. i < length (storage (w_pool (sv_worker s w))) \<longrightarrow>
        storage (w_pool (sv_worker s w)) ! i < hp_next (sv_heap s) \<and>
        cc_pool_idx (ctx_of s (storage (w_pool (sv_worker s w)) ! i)) = int i \<and>
        cc_owner_worker (ctx_of s (storage (w_pool (sv_worker s w)) ! i)) = Some w) \<and>
     (\<forall>w. \<forall>i \<in> set (free_list (w_pool (sv_worker s w))). i < length (storage (w_pool (sv_worker s w))) \<and>
        cc_fd (ctx_of s (storage (w_pool (sv_worker s w)) ! i)) = -1) \<and>
     (\<forall>w fd c. conns s w fd = Some c \<longrightarrow>
        cc_pool_idx (ctx_of s (tc_ctx c)) = -1 \<and> cc_owner_worker (ctx_of s (tc_ctx c)) = None \<or>
        (\<exists>i < length (storage (w_pool (sv_worker s w))). storage (w_pool (sv_worker s w)) ! i = tc_ctx c))"

text \<open>Timers: each connection has one heartbeat timer, there are no others, and it closes that connection.\<close>

definition beats :: "int timer \<Rightarrow> (int \<rightharpoonup> TimerNodeBase) \<Rightarrow> bool" where
  "beats t hb \<longleftrightarrow> timer_inv t \<and> (\<forall>k fd. timer_entries t k = Some fd \<longleftrightarrow> hb fd = Some k)"

definition worker_timers_inv :: "int \<Rightarrow> ('t, 'm) server \<Rightarrow> nat \<Rightarrow> bool" where
  "worker_timers_inv ms s w \<longleftrightarrow>
     beats (w_timer (sv_worker s w)) (w_heartbeat (sv_worker s w)) \<and>
     dom (w_heartbeat (sv_worker s w)) = dom (conns s w) \<and>
     (\<forall>fd c k. conns s w fd = Some c \<and> w_heartbeat (sv_worker s w) fd = Some k \<longrightarrow>
        cc_last_active (ctx_of s (tc_ctx c)) = (expire k - ms) div 1000)"

definition timers_inv :: "('t, 'm) server \<Rightarrow> bool" where
  "timers_inv s \<longleftrightarrow> (\<forall>w. worker_timers_inv (HEARTBEAT_SEC (sv_env s) * 1000) s w)"

text \<open>
  Output: a connection asks epoll for write events exactly while it has bytes to send, and it never
  has more of them than \<open>MAX_SEND_BUF\<close>.
\<close>

definition read_events :: u32 where
  "read_events = EPOLLIN OR EPOLLRDHUP OR EPOLLET"

definition io_inv :: "('t, 'm) server \<Rightarrow> bool" where
  "io_inv s \<longleftrightarrow>
     (\<forall>w. dom (w_epoll (sv_worker s w)) = dom (conns s w)) \<and>
     (\<forall>w fd c. conns s w fd = Some c \<longrightarrow>
        length (cc_send_buf (ctx_of s (tc_ctx c))) \<le> MAX_SEND_BUF (sv_env s) \<and>
        (cc_writing (ctx_of s (tc_ctx c)) \<longleftrightarrow> cc_send_buf (ctx_of s (tc_ctx c)) \<noteq> []) \<and>
        w_epoll (sv_worker s w) fd =
          Some (if cc_writing (ctx_of s (tc_ctx c)) then read_events OR EPOLLOUT else read_events)) \<and>
     (\<forall>r. cc_fd (ctx_of s r) = -1 \<longrightarrow> cc_send_buf (ctx_of s r) = [] \<and> \<not> cc_writing (ctx_of s r) \<or>
        cc_pool_idx (ctx_of s r) = -1)"

definition net_inv :: "('t, 'm) server \<Rightarrow> bool" where
  "net_inv s \<longleftrightarrow> conn_inv s \<and> wait_inv s \<and> count_inv s \<and> pools_inv s \<and> timers_inv s \<and> io_inv s"

section \<open>Timers of a worker\<close>

lemma beats_inj: "beats t hb \<Longrightarrow> hb a = Some k \<Longrightarrow> hb b = Some k \<Longrightarrow> a = b"
  by (metis beats_def option.inject)

lemma beats_remove:
  assumes "beats t hb" "hb fd = Some k" "timer_inv t'" "timer_entries t' = (timer_entries t)(k := None)"
  shows "beats t' (hb(fd := None))"
proof -
  have "((timer_entries t)(k := None)) k' = Some fd' \<longleftrightarrow> (hb(fd := None)) fd' = Some k'" for k' fd'
  proof -
    have "timer_entries t k' = Some fd' \<longleftrightarrow> hb fd' = Some k'" using assms(1) by (simp add: beats_def)
    with assms(2) beats_inj [OF assms(1,2), of fd'] show ?thesis
      by (metis fun_upd_apply option.distinct(1) option.inject)
  qed
  then show ?thesis using assms(3,4) by (simp add: beats_def)
qed

lemma beats_cancel:
  assumes "beats t hb" "hb fd = Some k"
  shows "beats (snd (DelTimer k t)) (hb(fd := None))"
  using std_timer.del_law [of t k "fst (DelTimer k t)" "snd (DelTimer k t)"] assms
  by (intro beats_remove [OF assms]) (simp_all add: beats_def)

lemma beats_start:
  assumes "beats t hb" "hb fd = None" "AddTimer now ms fd t = (k, t')"
  shows "beats t' (hb(fd \<mapsto> k)) \<and> expire k = now + ms"
proof -
  have t: "timer_inv t" using assms(1) by (simp add: beats_def)
  note add = std_timer.add_law [OF t assms(3)]
  have "hb fd' \<noteq> Some k" for fd' using add assms(1) by (metis beats_def option.distinct(1))
  then show ?thesis using add assms(1,2) by (auto simp: beats_def)
qed

text \<open>A timer that fires: the node is gone already when the callback cancels it.\<close>

lemma beats_fire:
  assumes "beats t hb" "CheckTimer now t = Some (k, fd, t')"
  shows "hb fd = Some k \<and> expire k \<le> now \<and> beats (snd (DelTimer k t')) (hb(fd := None))"
proof -
  have t: "timer_inv t" using assms(1) by (simp add: beats_def)
  note due = std_timer.check_due [OF t assms(2)]
  then have hb: "hb fd = Some k" using assms(1) by (simp add: beats_def)
  have t': "timer_inv t'" using due by blast
  have "beats (snd (DelTimer k t')) (hb(fd := None))"
    using std_timer.del_law [OF t', of k "fst (DelTimer k t')" "snd (DelTimer k t')"] due
    by (intro beats_remove [OF assms(1) hb]) simp_all
  then show ?thesis using due hb by simp
qed

section \<open>What closing does\<close>

lemma cancel_heartbeat_sel [simp]:
  "conns (cancel_heartbeat_timer w fd s) w' = conns s w'"
  "w_pool (sv_worker (cancel_heartbeat_timer w fd s) w') = w_pool (sv_worker s w')"
  "w_epoll (sv_worker (cancel_heartbeat_timer w fd s) w') = w_epoll (sv_worker s w')"
  "w_pending (sv_worker (cancel_heartbeat_timer w fd s) w') = w_pending (sv_worker s w')"
  "w_running (sv_worker (cancel_heartbeat_timer w fd s) w') = w_running (sv_worker s w')"
  "w_heartbeat (sv_worker (cancel_heartbeat_timer w fd s) w') =
     (if w' = w then (w_heartbeat (sv_worker s w))(fd := None) else w_heartbeat (sv_worker s w'))"
  "w_timer (sv_worker (cancel_heartbeat_timer w fd s) w') =
     (if w' = w then (case w_heartbeat (sv_worker s w) fd of None \<Rightarrow> w_timer (sv_worker s w)
        | Some k \<Rightarrow> snd (DelTimer k (w_timer (sv_worker s w)))) else w_timer (sv_worker s w'))"
  "sv_env (cancel_heartbeat_timer w fd s) = sv_env s" "sv_tick (cancel_heartbeat_timer w fd s) = sv_tick s"
  "sv_open (cancel_heartbeat_timer w fd s) = sv_open s" "sv_heap (cancel_heartbeat_timer w fd s) = sv_heap s"
  "sv_sessions (cancel_heartbeat_timer w fd s) = sv_sessions s" "sv_pool (cancel_heartbeat_timer w fd s) = sv_pool s"
  "sv_db (cancel_heartbeat_timer w fd s) = sv_db s" "sv_ai (cancel_heartbeat_timer w fd s) = sv_ai s"
  "sv_conn_count (cancel_heartbeat_timer w fd s) = sv_conn_count s" "sv_wall (cancel_heartbeat_timer w fd s) = sv_wall s"
  by (auto simp: cancel_heartbeat_timer_def split: option.split)

lemma start_heartbeat_sel [simp]:
  "conns (start_heartbeat_timer w fd s) w' = conns s w'"
  "w_pool (sv_worker (start_heartbeat_timer w fd s) w') = w_pool (sv_worker s w')"
  "w_epoll (sv_worker (start_heartbeat_timer w fd s) w') = w_epoll (sv_worker s w')"
  "w_pending (sv_worker (start_heartbeat_timer w fd s) w') = w_pending (sv_worker s w')"
  "w_running (sv_worker (start_heartbeat_timer w fd s) w') = w_running (sv_worker s w')"
  "sv_env (start_heartbeat_timer w fd s) = sv_env s" "sv_tick (start_heartbeat_timer w fd s) = sv_tick s"
  "sv_open (start_heartbeat_timer w fd s) = sv_open s" "sv_heap (start_heartbeat_timer w fd s) = sv_heap s"
  "sv_sessions (start_heartbeat_timer w fd s) = sv_sessions s" "sv_pool (start_heartbeat_timer w fd s) = sv_pool s"
  "sv_db (start_heartbeat_timer w fd s) = sv_db s" "sv_ai (start_heartbeat_timer w fd s) = sv_ai s"
  "sv_conn_count (start_heartbeat_timer w fd s) = sv_conn_count s" "sv_wall (start_heartbeat_timer w fd s) = sv_wall s"
  by (auto simp: start_heartbeat_timer_def Let_def split: prod.split)

lemma start_heartbeat_other [simp]:
  "w' \<noteq> w \<Longrightarrow> w_timer (sv_worker (start_heartbeat_timer w fd s) w') = w_timer (sv_worker s w')"
  "w' \<noteq> w \<Longrightarrow> w_heartbeat (sv_worker (start_heartbeat_timer w fd s) w') = w_heartbeat (sv_worker s w')"
  by (simp_all add: start_heartbeat_timer_def Let_def split: prod.split)

lemma start_heartbeat_beats:
  assumes "beats (w_timer (sv_worker s w)) (w_heartbeat (sv_worker s w))"
  obtains k where "w_heartbeat (sv_worker (start_heartbeat_timer w fd s) w) = (w_heartbeat (sv_worker s w))(fd \<mapsto> k)"
    "expire k = sv_tick s + HEARTBEAT_SEC (sv_env s) * 1000"
    "beats (w_timer (sv_worker (start_heartbeat_timer w fd s) w)) (w_heartbeat (sv_worker (start_heartbeat_timer w fd s) w))"
proof -
  let ?s1 = "cancel_heartbeat_timer w fd s"
  have b1: "beats (w_timer (sv_worker ?s1 w)) (w_heartbeat (sv_worker ?s1 w))"
    using assms beats_cancel [OF assms, of fd]
    by (cases "w_heartbeat (sv_worker s w) fd") (simp_all add: fun_upd_idem)
  obtain k t' where add: "AddTimer (sv_tick s) (HEARTBEAT_SEC (sv_env s) * 1000) fd (w_timer (sv_worker ?s1 w)) = (k, t')"
    by fastforce
  have "w_heartbeat (sv_worker ?s1 w) fd = None" by simp
  note started = beats_start [OF b1 this add]
  have "(w_heartbeat (sv_worker ?s1 w))(fd \<mapsto> k) = (w_heartbeat (sv_worker s w))(fd \<mapsto> k)"
    by (simp add: fun_eq_iff)
  note started [unfolded this]
  moreover have "w_heartbeat (sv_worker (start_heartbeat_timer w fd s) w) = (w_heartbeat (sv_worker s w))(fd \<mapsto> k)"
    "w_timer (sv_worker (start_heartbeat_timer w fd s) w) = t'"
    using add by (simp_all add: start_heartbeat_timer_def Let_def fun_eq_iff del: cancel_heartbeat_sel(7))
  ultimately show thesis by (intro that [of k]) simp_all
qed

text \<open>Everything that \<open>force_close_in_loop\<close> changes, for a connection that the invariant describes.\<close>

lemma force_close_none: "conns s w fd = None \<Longrightarrow> force_close_in_loop w fd s = s"
  by (simp add: force_close_in_loop_def)

lemmas close_defs = force_close_in_loop_def do_force_close_def close_impl_def Let_def remove_event_def cancel_request_def
  release_ctx_def release_def

lemma force_close_sel:
  assumes "conns s w fd = Some c" "\<not> tc_closed c" "tc_fd c = fd" "tc_ctx c = r"
  shows "conns (force_close_in_loop w fd s) w' = (if w' = w then (conns s w)(fd := None) else conns s w')"
  "w_epoll (sv_worker (force_close_in_loop w fd s) w') =
     (if w' = w then (w_epoll (sv_worker s w))(fd := None) else w_epoll (sv_worker s w'))"
  "w_pending (sv_worker (force_close_in_loop w fd s) w') = w_pending (sv_worker s w')"
  "w_running (sv_worker (force_close_in_loop w fd s) w') = w_running (sv_worker s w')"
  "w_heartbeat (sv_worker (force_close_in_loop w fd s) w') =
     (if w' = w then (w_heartbeat (sv_worker s w))(fd := None) else w_heartbeat (sv_worker s w'))"
  "w_timer (sv_worker (force_close_in_loop w fd s) w') =
     (if w' = w then (case w_heartbeat (sv_worker s w) fd of None \<Rightarrow> w_timer (sv_worker s w)
        | Some k \<Rightarrow> snd (DelTimer k (w_timer (sv_worker s w)))) else w_timer (sv_worker s w'))"
  "sv_open (force_close_in_loop w fd s) = sv_open s - {fd}"
  "sv_conn_count (force_close_in_loop w fd s) = sv_conn_count s - 1"
  "sv_env (force_close_in_loop w fd s) = sv_env s" "sv_tick (force_close_in_loop w fd s) = sv_tick s"
  "sv_pool (force_close_in_loop w fd s) = sv_pool s" "sv_db (force_close_in_loop w fd s) = sv_db s"
  using assms by (auto simp: close_defs split: prod.split if_splits cong: option.case_cong)

lemma force_close_heap:
  assumes "conns s w fd = Some c" "\<not> tc_closed c" "tc_fd c = fd" "tc_ctx c = r"
  shows "hp_next (sv_heap (force_close_in_loop w fd s)) = hp_next (sv_heap s)"
  "ctx_of (force_close_in_loop w fd s) x = (if x \<noteq> r then ctx_of s x
     else if cc_pool_idx (ctx_of s r) = -1 then (ctx_of s r)\<lparr>cc_fd := -1\<rparr> else ctx_reset (ctx_of s r))"
  "w_pool (sv_worker (force_close_in_loop w fd s) w') =
     (if w' = w \<and> cc_pool_idx (ctx_of s r) \<noteq> -1
      then (w_pool (sv_worker s w))\<lparr>free_list := free_list (w_pool (sv_worker s w)) @ [nat (cc_pool_idx (ctx_of s r))]\<rparr>
      else w_pool (sv_worker s w'))"
  using assms by (auto simp: close_defs ctx_reset_def split: prod.split if_splits)

lemma force_close_sessions:
  assumes "conns s w fd = Some c" "\<not> tc_closed c" "tc_fd c = fd" "tc_ctx c = r"
  shows "sv_sessions (force_close_in_loop w fd s) =
     (if cc_uid (ctx_of s r) > 0 then unbind (cc_uid (ctx_of s r)) (sv_sessions s) else sv_sessions s)"
  "sv_ai (force_close_in_loop w fd s) =
     (if cc_uid (ctx_of s r) > 0 then (sv_ai s)\<lparr>active_streams :=
        filter (\<lambda>(fd, q). sr_uid q \<noteq> cc_uid (ctx_of s r)) (active_streams (sv_ai s))\<rparr> else sv_ai s)"
  using assms by (auto simp: close_defs split: prod.split if_splits cong: option.case_cong)

end
