(* ===== verification/Server_Close.thy ===== *)
theory Server_Close
  imports Server_Inv
begin

text \<open>Closing a connection keeps the invariant of the worker threads.\<close>

section \<open>Consequences of the invariant\<close>

lemma conn_invD:
  assumes "conn_inv s" "conns s w fd = Some c"
  shows "tc_fd c = fd" "\<not> tc_closed c" "0 \<le> fd" "fd \<in> sv_open s" "tc_ctx c < hp_next (sv_heap s)"
    "cc_fd (ctx_of s (tc_ctx c)) = fd"
  using assms by (auto simp: conn_inv_def)

lemma conn_fd_unique: "conn_inv s \<Longrightarrow> conns s w fd = Some c \<Longrightarrow> conns s w' fd = Some c' \<Longrightarrow> w = w'"
  unfolding conn_inv_def by blast

text \<open>Two connections never share a context.\<close>

lemma conn_ctx_unique:
  assumes "conn_inv s" "conns s w fd = Some c" "conns s w' fd' = Some c'" "tc_ctx c = tc_ctx c'"
  shows "w = w' \<and> fd = fd'"
proof -
  have "fd = fd'" using conn_invD(6) [OF assms(1,2)] conn_invD(6) [OF assms(1,3)] assms(4) by simp
  then show ?thesis using conn_fd_unique assms by blast
qed

lemma conn_of_ctx:
  assumes "conn_inv s" "cc_fd (ctx_of s r) \<noteq> -1"
  obtains w c where "conns s w (cc_fd (ctx_of s r)) = Some c" "tc_ctx c = r"
  using assms conn_invD(6) [OF assms(1)] unfolding conn_inv_def by (metis (no_types))

section \<open>What the invariant depends on\<close>

lemma conn_inv_cong:
  assumes "\<And>w. conns s' w = conns s w" "sv_open s' = sv_open s" "hp_next (sv_heap s') = hp_next (sv_heap s)"
    "\<And>r. cc_fd (ctx_of s' r) = cc_fd (ctx_of s r)"
  shows "conn_inv s' = conn_inv s"
  unfolding conn_inv_def assms ..

lemma wait_inv_cong:
  assumes "\<And>w. conns s' w = conns s w" "sv_open s' = sv_open s" "\<And>w. waiting s' w = waiting s w"
  shows "wait_inv s' = wait_inv s"
  unfolding wait_inv_def assms ..

lemma count_inv_cong:
  assumes "\<And>w. conns s' w = conns s w" "sv_conn_count s' = sv_conn_count s"
  shows "count_inv s' = count_inv s"
  unfolding count_inv_def live_def assms ..

lemma pools_inv_cong:
  assumes "\<And>w. conns s' w = conns s w" "\<And>w. w_pool (sv_worker s' w) = w_pool (sv_worker s w)"
    "hp_next (sv_heap s') = hp_next (sv_heap s)" "\<And>r. cc_fd (ctx_of s' r) = cc_fd (ctx_of s r)"
    "\<And>r. cc_pool_idx (ctx_of s' r) = cc_pool_idx (ctx_of s r)"
    "\<And>r. cc_owner_worker (ctx_of s' r) = cc_owner_worker (ctx_of s r)"
  shows "pools_inv s' = pools_inv s"
  unfolding pools_inv_def assms ..

lemma worker_timers_cong:
  assumes "conns s' w = conns s w" "w_timer (sv_worker s' w) = w_timer (sv_worker s w)"
    "w_heartbeat (sv_worker s' w) = w_heartbeat (sv_worker s w)"
    "\<And>fd c. conns s w fd = Some c \<Longrightarrow> cc_last_active (ctx_of s' (tc_ctx c)) = cc_last_active (ctx_of s (tc_ctx c))"
  shows "worker_timers_inv ms s' w = worker_timers_inv ms s w"
  unfolding worker_timers_inv_def assms(1-3) using assms(4) by metis

lemma io_inv_cong:
  assumes "\<And>w. conns s' w = conns s w" "\<And>w. w_epoll (sv_worker s' w) = w_epoll (sv_worker s w)"
    "sv_env s' = sv_env s" "\<And>r. cc_fd (ctx_of s' r) = cc_fd (ctx_of s r)"
    "\<And>r. cc_pool_idx (ctx_of s' r) = cc_pool_idx (ctx_of s r)"
    "\<And>r. cc_send_buf (ctx_of s' r) = cc_send_buf (ctx_of s r)"
    "\<And>r. cc_writing (ctx_of s' r) = cc_writing (ctx_of s r)"
  shows "io_inv s' = io_inv s"
  unfolding io_inv_def assms ..

section \<open>Closing\<close>

lemma conn_inv_close:
  assumes inv: "conn_inv s" and c: "conns s w fd = Some c"
  shows "conn_inv (force_close_in_loop w fd s)"
proof -
  let ?s = "force_close_in_loop w fd s"
  note d = conn_invD [OF inv c]
  note sel = force_close_sel [OF c d(2,1) refl] force_close_heap [OF c d(2,1) refl]
  have other: "tc_ctx c' \<noteq> tc_ctx c \<and> fd' \<noteq> fd \<and> conns s w' fd' = Some c'" if "conns ?s w' fd' = Some c'" for w' fd' c'
  proof -
    have c': "conns s w' fd' = Some c'" "\<not> (w' = w \<and> fd' = fd)" using that by (auto simp: sel split: if_splits)
    then show ?thesis using conn_ctx_unique [OF inv c c'(1)] conn_fd_unique [OF inv c, of w' c'] by auto
  qed
  have "tc_fd c' = fd' \<and> \<not> tc_closed c' \<and> 0 \<le> fd' \<and> fd' \<in> sv_open ?s \<and> tc_ctx c' < hp_next (sv_heap ?s) \<and>
      cc_fd (ctx_of ?s (tc_ctx c')) = fd'" if "conns ?s w' fd' = Some c'" for w' fd' c'
    using other [OF that] conn_invD [OF inv, of w' fd' c'] by (simp add: sel)
  moreover have "\<exists>w' fd' c'. conns ?s w' fd' = Some c' \<and> tc_ctx c' = r" if "cc_fd (ctx_of ?s r) \<noteq> -1" for r
  proof -
    have "r \<noteq> tc_ctx c" "cc_fd (ctx_of s r) \<noteq> -1" using that by (auto simp: sel ctx_reset_def split: if_splits)
    then obtain w' fd' c' where "conns s w' fd' = Some c'" "tc_ctx c' = r" "\<not> (w' = w \<and> fd' = fd)"
      using conn_of_ctx [OF inv] c by (metis option.inject)
    then show ?thesis by (intro exI [of _ w'] exI [of _ fd'] exI [of _ c']) (auto simp: sel)
  qed
  moreover have "w1 = w2" if "conns ?s w1 fd' \<noteq> None" "conns ?s w2 fd' \<noteq> None" for w1 w2 fd'
    using that other conn_fd_unique [OF inv] by (metis not_None_eq)
  ultimately show ?thesis unfolding conn_inv_def by blast
qed

lemma waiting_close [simp]: "conn_inv s \<Longrightarrow> waiting (force_close_in_loop w fd s) w' = waiting s w'"
proof (cases "conns s w fd")
  case (Some c)
  assume "conn_inv s"
  note d = conn_invD [OF this Some]
  show ?thesis by (simp add: waiting_def force_close_sel [OF Some d(2,1) refl])
qed (simp add: force_close_none)

lemma wait_inv_close:
  assumes inv: "conn_inv s" "wait_inv s" and c: "conns s w fd = Some c"
  shows "wait_inv (force_close_in_loop w fd s)"
proof -
  note d = conn_invD [OF inv(1) c]
  note sel = force_close_sel [OF c d(2,1) refl]
  have "x \<noteq> fd" if "x \<in> set (waiting s w')" for x w'
    using that inv(2) c unfolding wait_inv_def by (metis option.distinct(1))
  then show ?thesis using inv unfolding wait_inv_def by (simp add: sel)
qed

lemma live_close:
  assumes "conn_inv s" "conns s w fd = Some c"
  shows "live (force_close_in_loop w fd s) = live s - {(w, fd)}"
proof -
  note d = conn_invD [OF assms]
  show ?thesis by (auto simp: live_def force_close_sel [OF assms(2) d(2,1) refl] split: if_splits)
qed

lemma count_inv_close:
  assumes "conn_inv s" "count_inv s" "conns s w fd = Some c"
  shows "count_inv (force_close_in_loop w fd s)"
proof -
  note d = conn_invD [OF assms(1,3)]
  have "(w, fd) \<in> live s" using assms(3) by (simp add: live_def)
  then show ?thesis using assms(2)
    by (simp add: count_inv_def live_close [OF assms(1,3)] force_close_sel [OF assms(3) d(2,1) refl] card_Diff_singleton_if
        of_nat_diff Suc_leI card_gt_0_iff)
      (metis One_nat_def Suc_leI card_gt_0_iff empty_iff of_nat_1 of_nat_diff)
qed

lemma pools_invD:
  assumes "pools_inv s"
  shows "distinct (storage (w_pool (sv_worker s w)))" "distinct (free_list (w_pool (sv_worker s w)))"
    "i < length (storage (w_pool (sv_worker s w))) \<Longrightarrow> storage (w_pool (sv_worker s w)) ! i < hp_next (sv_heap s)"
    "i < length (storage (w_pool (sv_worker s w))) \<Longrightarrow> cc_pool_idx (ctx_of s (storage (w_pool (sv_worker s w)) ! i)) = int i"
    "i < length (storage (w_pool (sv_worker s w))) \<Longrightarrow> cc_owner_worker (ctx_of s (storage (w_pool (sv_worker s w)) ! i)) = Some w"
    "i \<in> set (free_list (w_pool (sv_worker s w))) \<Longrightarrow> i < length (storage (w_pool (sv_worker s w)))"
    "i \<in> set (free_list (w_pool (sv_worker s w))) \<Longrightarrow> cc_fd (ctx_of s (storage (w_pool (sv_worker s w)) ! i)) = -1"
  using assms unfolding pools_inv_def by simp_all

text \<open>The context of a connection is outside the pool, or a place of it that is not free.\<close>

lemma conn_ctx_cases:
  assumes "conn_inv s" "pools_inv s" "conns s w fd = Some c"
  obtains (fresh) "cc_pool_idx (ctx_of s (tc_ctx c)) = -1" "cc_owner_worker (ctx_of s (tc_ctx c)) = None"
  | (pooled) i where "i < length (storage (w_pool (sv_worker s w)))" "storage (w_pool (sv_worker s w)) ! i = tc_ctx c"
      "cc_pool_idx (ctx_of s (tc_ctx c)) = int i" "cc_owner_worker (ctx_of s (tc_ctx c)) = Some w"
      "i \<notin> set (free_list (w_pool (sv_worker s w)))"
proof -
  have "cc_pool_idx (ctx_of s (tc_ctx c)) = -1 \<and> cc_owner_worker (ctx_of s (tc_ctx c)) = None \<or>
      (\<exists>i < length (storage (w_pool (sv_worker s w))). storage (w_pool (sv_worker s w)) ! i = tc_ctx c)"
    using assms(2,3) by (simp add: pools_inv_def)
  then consider "cc_pool_idx (ctx_of s (tc_ctx c)) = -1" "cc_owner_worker (ctx_of s (tc_ctx c)) = None"
    | i where "i < length (storage (w_pool (sv_worker s w)))" "storage (w_pool (sv_worker s w)) ! i = tc_ctx c"
    by (elim disjE exE conjE) simp_all
  then show thesis
  proof cases
    case 1
    then show ?thesis by (rule fresh)
  next
    case (2 i)
    moreover have "i \<notin> set (free_list (w_pool (sv_worker s w)))"
      using pools_invD(7) [OF assms(2), of i w] conn_invD(3,6) [OF assms(1,3)] 2(2) by auto
    ultimately show ?thesis using pools_invD(4,5) [OF assms(2) 2(1)] by (intro pooled [of i]) simp_all
  qed
qed

lemma pools_inv_close:
  assumes inv: "conn_inv s" "pools_inv s" and c: "conns s w fd = Some c"
  shows "pools_inv (force_close_in_loop w fd s)"
proof -
  let ?s = "force_close_in_loop w fd s"
  note d = conn_invD [OF inv(1) c]
  note sel = force_close_sel [OF c d(2,1) refl] force_close_heap [OF c d(2,1) refl]
  have storage: "storage (w_pool (sv_worker ?s w')) = storage (w_pool (sv_worker s w'))" for w' by (simp add: sel)
  have keep: "cc_pool_idx (ctx_of ?s x) = cc_pool_idx (ctx_of s x)" "cc_owner_worker (ctx_of ?s x) = cc_owner_worker (ctx_of s x)"
    "cc_fd (ctx_of ?s x) = (if x = tc_ctx c then -1 else cc_fd (ctx_of s x))" "hp_next (sv_heap ?s) = hp_next (sv_heap s)" for x
    by (auto simp: sel ctx_reset_def)
  have free: "distinct (free_list (w_pool (sv_worker ?s w'))) \<and> (\<forall>i \<in> set (free_list (w_pool (sv_worker ?s w'))).
      i < length (storage (w_pool (sv_worker s w'))) \<and> cc_fd (ctx_of ?s (storage (w_pool (sv_worker s w')) ! i)) = -1)" for w'
    using inv c
  proof (cases rule: conn_ctx_cases)
    case fresh
    then show ?thesis using pools_invD(2,6,7) [OF inv(2)] by (simp add: keep) (simp add: sel)
  next
    case (pooled i)
    then show ?thesis using pools_invD(2,6,7) [OF inv(2)] by (simp add: keep) (auto simp: sel)
  qed
  have conn: "cc_pool_idx (ctx_of s (tc_ctx c')) = -1 \<and> cc_owner_worker (ctx_of s (tc_ctx c')) = None \<or>
      (\<exists>i < length (storage (w_pool (sv_worker s w'))). storage (w_pool (sv_worker s w')) ! i = tc_ctx c')"
    if "conns ?s w' fd' = Some c'" for w' fd' c'
  proof -
    have "conns s w' fd' = Some c'" using that by (auto simp: sel split: if_splits)
    then show ?thesis using inv(2) unfolding pools_inv_def by blast
  qed
  show ?thesis
    unfolding pools_inv_def storage keep
    using pools_invD(1,3,4,5) [OF inv(2)] free conn by (simp add: keep)
qed

lemma timers_inv_close:
  assumes inv: "conn_inv s" and c: "conns s w fd = Some c"
    and others: "\<And>w'. w' \<noteq> w \<Longrightarrow> worker_timers_inv ms s w'"
    and dom: "dom (w_heartbeat (sv_worker s w)) = dom (conns s w)"
    and last: "\<And>fd c k. conns s w fd = Some c \<Longrightarrow> w_heartbeat (sv_worker s w) fd = Some k \<Longrightarrow>
        cc_last_active (ctx_of s (tc_ctx c)) = (expire k - ms) div 1000"
    and beats: "\<And>k. w_heartbeat (sv_worker s w) fd = Some k \<Longrightarrow>
        beats (snd (DelTimer k (w_timer (sv_worker s w)))) ((w_heartbeat (sv_worker s w))(fd := None))"
  shows "worker_timers_inv ms (force_close_in_loop w fd s) w'"
proof -
  let ?s = "force_close_in_loop w fd s"
  note d = conn_invD [OF inv c]
  note sel = force_close_sel [OF c d(2,1) refl] force_close_heap [OF c d(2,1) refl]
  have same: "ctx_of ?s (tc_ctx c') = ctx_of s (tc_ctx c')" if "conns s w' fd' = Some c'" "\<not> (w' = w \<and> fd' = fd)" for w' fd' c'
  proof -
    have "tc_ctx c' \<noteq> tc_ctx c" using conn_ctx_unique [OF inv c that(1)] that(2) by auto
    then show ?thesis by (simp add: sel)
  qed
  show ?thesis
  proof (cases "w' = w")
    case True
    obtain k where k: "w_heartbeat (sv_worker s w) fd = Some k" using dom c by (metis domD domI)
    have "(if w' = w then (conns s w)(fd := None) else conns s w') = (conns s w)(fd := None)" using True by simp
    then show ?thesis
      using beats [OF k] dom last same [of w]
      by (auto simp: worker_timers_inv_def True sel(1,5,6) k split: if_splits)
  next
    case False
    from others [OF this] show ?thesis
      using False same [of w'] by (auto simp: worker_timers_inv_def sel(1,5,6))
  qed
qed

lemma io_inv_close:
  assumes inv: "conn_inv s" "io_inv s" and c: "conns s w fd = Some c"
  shows "io_inv (force_close_in_loop w fd s)"
proof -
  let ?s = "force_close_in_loop w fd s"
  note d = conn_invD [OF inv(1) c]
  note sel = force_close_sel [OF c d(2,1) refl] force_close_heap [OF c d(2,1) refl]
  have dom: "dom (w_epoll (sv_worker ?s w')) = dom (conns ?s w')" for w'
    using inv(2) by (auto simp: sel io_inv_def split: if_splits)
  have out: "length (cc_send_buf (ctx_of ?s (tc_ctx c'))) \<le> MAX_SEND_BUF (sv_env ?s) \<and>
        (cc_writing (ctx_of ?s (tc_ctx c')) \<longleftrightarrow> cc_send_buf (ctx_of ?s (tc_ctx c')) \<noteq> []) \<and>
        w_epoll (sv_worker ?s w') fd' =
          Some (if cc_writing (ctx_of ?s (tc_ctx c')) then read_events OR EPOLLOUT else read_events)"
    if "conns ?s w' fd' = Some c'" for w' fd' c'
  proof -
    have c': "conns s w' fd' = Some c'" "\<not> (w' = w \<and> fd' = fd)" using that by (auto simp: sel split: if_splits)
    then have "tc_ctx c' \<noteq> tc_ctx c" using conn_ctx_unique [OF inv(1) c c'(1)] by auto
    moreover have "w_epoll (sv_worker ?s w') fd' = w_epoll (sv_worker s w') fd'" using c'(2) by (auto simp: sel)
    ultimately show ?thesis using inv(2) c'(1) by (simp add: sel io_inv_def)
  qed
  have clean: "cc_send_buf (ctx_of ?s r) = [] \<and> \<not> cc_writing (ctx_of ?s r) \<or> cc_pool_idx (ctx_of ?s r) = -1"
    if "cc_fd (ctx_of ?s r) = -1" for r
  proof (cases "r = tc_ctx c")
    case True
    then show ?thesis by (auto simp: sel ctx_reset_def)
  next
    case False
    then show ?thesis using that inv(2) by (simp add: sel io_inv_def)
  qed
  show ?thesis unfolding io_inv_def using dom out clean by blast
qed

lemma net_inv_close: "net_inv s \<Longrightarrow> net_inv (force_close_in_loop w fd s)"
proof (cases "conns s w fd")
  case (Some c)
  assume inv: "net_inv s"
  then have parts: "conn_inv s" "wait_inv s" "count_inv s" "pools_inv s" "timers_inv s" "io_inv s" by (simp_all add: net_inv_def)
  have tm: "worker_timers_inv (HEARTBEAT_SEC (sv_env s) * 1000) s w'" for w' using parts(5) by (simp add: timers_inv_def)
  note d = conn_invD [OF parts(1) Some]
  have "timers_inv (force_close_in_loop w fd s)"
    unfolding timers_inv_def force_close_sel(9) [OF Some d(2,1) refl]
    using tm beats_cancel by (intro allI timers_inv_close [OF parts(1) Some]) (auto simp: worker_timers_inv_def)
  then show ?thesis
    using parts Some by (simp add: net_inv_def conn_inv_close wait_inv_close count_inv_close pools_inv_close io_inv_close)
qed (simp add: force_close_none)

text \<open>A timer that fires closes its connection, which exists.\<close>

lemma net_inv_check_timer:
  assumes "net_inv s"
  shows "net_inv (snd (check_timer w s))"
proof (cases "CheckTimer (sv_tick s) (w_timer (sv_worker s w))")
  case None
  then show ?thesis using assms by (simp add: check_timer_def)
next
  case (Some e)
  obtain k fd t where e: "e = (k, fd, t)" by (cases e) auto
  let ?s1 = "upd_worker w (\<lambda>wk. wk\<lparr>w_timer := t\<rparr>) s"
  have parts: "conn_inv s" "wait_inv s" "count_inv s" "pools_inv s" "timers_inv s" "io_inv s"
    using assms by (simp_all add: net_inv_def)
  have tm: "worker_timers_inv (HEARTBEAT_SEC (sv_env s) * 1000) s w'" for w' using parts(5) by (simp add: timers_inv_def)
  have fire: "w_heartbeat (sv_worker s w) fd = Some k"
    "beats (snd (DelTimer k t)) ((w_heartbeat (sv_worker s w))(fd := None))"
    using beats_fire [of "w_timer (sv_worker s w)" "w_heartbeat (sv_worker s w)" "sv_tick s" k fd t] tm [of w] Some e
    by (simp_all add: worker_timers_inv_def)
  then obtain c where c: "conns s w fd = Some c" using tm [of w] by (metis domD domI worker_timers_inv_def)
  have p1: "conn_inv ?s1" "wait_inv ?s1" "count_inv ?s1" "pools_inv ?s1" "io_inv ?s1"
    using parts conn_inv_cong [of ?s1 s] wait_inv_cong [of ?s1 s] count_inv_cong [of ?s1 s] pools_inv_cong [of ?s1 s]
      io_inv_cong [of ?s1 s] by (simp_all add: waiting_def)
  have c1: "conns ?s1 w fd = Some c" using c by simp
  note d = conn_invD [OF p1(1) c1]
  have "timers_inv (force_close_in_loop w fd ?s1)"
    unfolding timers_inv_def force_close_sel(9) [OF c1 d(2,1) refl]
    using tm fire by (intro allI timers_inv_close [OF p1(1) c1]) (auto simp: worker_timers_inv_def)
  then show ?thesis
    using p1 c1 by (simp add: check_timer_def Some e net_inv_def conn_inv_close wait_inv_close count_inv_close
        pools_inv_close io_inv_close)
qed

end
