(* ===== verification/Server_Ops.thy ===== *)
theory Server_Ops
  imports Server_Close
begin

text \<open>Every operation of the worker threads keeps the invariant of \<open>Server_Inv\<close>.\<close>

section \<open>Steps that do not touch the connections\<close>

text \<open>
  \<open>same_net s s'\<close>: as far as the invariant can see, nothing happened. The business layer only makes
  steps of this kind.
\<close>

definition same_net :: "('t, 'm) server \<Rightarrow> ('t, 'm) server \<Rightarrow> bool" where
  "same_net s s' \<longleftrightarrow>
     (\<forall>w. conns s' w = conns s w) \<and> (\<forall>w. w_pool (sv_worker s' w) = w_pool (sv_worker s w)) \<and>
     (\<forall>w. w_timer (sv_worker s' w) = w_timer (sv_worker s w)) \<and>
     (\<forall>w. w_heartbeat (sv_worker s' w) = w_heartbeat (sv_worker s w)) \<and>
     (\<forall>w. w_epoll (sv_worker s' w) = w_epoll (sv_worker s w)) \<and> (\<forall>w. waiting s' w = waiting s w) \<and>
     sv_open s' = sv_open s \<and> sv_env s' = sv_env s \<and> sv_conn_count s' = sv_conn_count s \<and>
     hp_next (sv_heap s') = hp_next (sv_heap s) \<and>
     (\<forall>r. cc_fd (ctx_of s' r) = cc_fd (ctx_of s r)) \<and> (\<forall>r. cc_pool_idx (ctx_of s' r) = cc_pool_idx (ctx_of s r)) \<and>
     (\<forall>r. cc_owner_worker (ctx_of s' r) = cc_owner_worker (ctx_of s r)) \<and>
     (\<forall>r. cc_last_active (ctx_of s' r) = cc_last_active (ctx_of s r)) \<and>
     (\<forall>r. cc_send_buf (ctx_of s' r) = cc_send_buf (ctx_of s r)) \<and>
     (\<forall>r. cc_writing (ctx_of s' r) = cc_writing (ctx_of s r))"

lemma same_net_refl [simp]: "same_net s s"
  by (simp add: same_net_def)

lemma same_net_trans: "same_net s s' \<Longrightarrow> same_net s' s'' \<Longrightarrow> same_net s s''"
  by (simp add: same_net_def)

lemma net_inv_same: "net_inv s \<Longrightarrow> same_net s s' \<Longrightarrow> net_inv s'"
proof -
  assume inv: "net_inv s" and same: "same_net s s'"
  have "timers_inv s' = timers_inv s"
    using same worker_timers_cong [of s' _ s] by (simp add: timers_inv_def same_net_def)
  then show "net_inv s'"
    using inv same conn_inv_cong [of s' s] wait_inv_cong [of s' s] count_inv_cong [of s' s] pools_inv_cong [of s' s]
      io_inv_cong [of s' s]
    by (simp add: net_inv_def same_net_def)
qed

lemma add_fds_append [simp]: "add_fds (xs @ ys) = add_fds xs @ add_fds ys"
  by (induction xs rule: add_fds.induct) simp_all

lemma same_net_queue:
  "same_net s (queue_close_connection w fd s)" "same_net s (queue_send_packet w r c n b s)"
  by (simp_all add: same_net_def queue_close_connection_def queue_send_packet_def queue_in_loop_def waiting_def)

lemma same_net_enqueue: "same_net s (enqueue_task t s)"
  by (simp add: same_net_def enqueue_task_def waiting_def)

lemma same_net_fold: "(\<And>x s. same_net s (f x s)) \<Longrightarrow> same_net s (fold f xs s)"
  by (induction xs arbitrary: s) (auto intro: same_net_trans)

lemma same_net_recv: "same_net s (upd_ctx r (\<lambda>x. x\<lparr>cc_recv_buf := f x\<rparr>) s)"
  by (simp add: same_net_def waiting_def)

section \<open>Output\<close>

text \<open>
  The send buffer of one connection changes, together with its \<open>writing\<close> flag and its epoll interest.
\<close>

lemma net_inv_output:
  assumes inv: "net_inv s" and c: "conns s w fd = Some c" and len: "length buf \<le> MAX_SEND_BUF (sv_env s)"
    and conns: "\<And>w. conns s' w = conns s w" and pool: "\<And>w. w_pool (sv_worker s' w) = w_pool (sv_worker s w)"
    and timer: "\<And>w. w_timer (sv_worker s' w) = w_timer (sv_worker s w)"
      "\<And>w. w_heartbeat (sv_worker s' w) = w_heartbeat (sv_worker s w)"
    and rest: "\<And>w. waiting s' w = waiting s w" "sv_open s' = sv_open s" "sv_env s' = sv_env s"
      "sv_conn_count s' = sv_conn_count s" "hp_next (sv_heap s') = hp_next (sv_heap s)"
    and ctx: "\<And>r. r \<noteq> tc_ctx c \<Longrightarrow> ctx_of s' r = ctx_of s r"
      "ctx_of s' (tc_ctx c) = (ctx_of s (tc_ctx c))\<lparr>cc_send_buf := buf, cc_writing := (buf \<noteq> [])\<rparr>"
    and epoll: "\<And>w' fd'. \<not> (w' = w \<and> fd' = fd) \<Longrightarrow> w_epoll (sv_worker s' w') fd' = w_epoll (sv_worker s w') fd'"
      "w_epoll (sv_worker s' w) fd = Some (if buf \<noteq> [] then read_events OR EPOLLOUT else read_events)"
  shows "net_inv s'"
proof -
  have parts: "conn_inv s" "wait_inv s" "count_inv s" "pools_inv s" "timers_inv s" "io_inv s"
    using inv by (simp_all add: net_inv_def)
  have fields: "cc_fd (ctx_of s' r) = cc_fd (ctx_of s r)" "cc_pool_idx (ctx_of s' r) = cc_pool_idx (ctx_of s r)"
    "cc_owner_worker (ctx_of s' r) = cc_owner_worker (ctx_of s r)" "cc_last_active (ctx_of s' r) = cc_last_active (ctx_of s r)" for r
    using ctx by (cases "r = tc_ctx c"; simp)+
  have "conn_inv s'" "wait_inv s'" "count_inv s'" "pools_inv s'" "timers_inv s'"
    using parts conn_inv_cong [of s' s] wait_inv_cong [of s' s] count_inv_cong [of s' s] pools_inv_cong [of s' s]
      worker_timers_cong [of s' _ s]
    by (simp_all add: conns pool timer rest fields timers_inv_def)
  moreover have "io_inv s'"
  proof -
    have "dom (w_epoll (sv_worker s' w')) = dom (conns s w')" for w'
    proof -
      have "(w_epoll (sv_worker s' w') x = None) = (w_epoll (sv_worker s w') x = None)" for x
        using epoll(1) [of w' x] epoll(2) parts(6) c by (cases "w' = w \<and> x = fd") (auto simp: io_inv_def)
      then have "dom (w_epoll (sv_worker s' w')) = dom (w_epoll (sv_worker s w'))" by (auto simp: dom_def)
      then show ?thesis using parts(6) by (simp add: io_inv_def)
    qed
    moreover have "length (cc_send_buf (ctx_of s' (tc_ctx c'))) \<le> MAX_SEND_BUF (sv_env s) \<and>
        (cc_writing (ctx_of s' (tc_ctx c')) \<longleftrightarrow> cc_send_buf (ctx_of s' (tc_ctx c')) \<noteq> []) \<and>
        w_epoll (sv_worker s' w') fd' =
          Some (if cc_writing (ctx_of s' (tc_ctx c')) then read_events OR EPOLLOUT else read_events)"
      if "conns s w' fd' = Some c'" for w' fd' c'
    proof (cases "w' = w \<and> fd' = fd")
      case True
      then show ?thesis using that c len ctx(2) epoll(2) by simp
    next
      case False
      then have "tc_ctx c' \<noteq> tc_ctx c" using conn_ctx_unique [OF parts(1) c that] by auto
      then show ?thesis using that parts(6) epoll(1) [OF False] ctx(1) by (simp add: io_inv_def)
    qed
    moreover have "cc_send_buf (ctx_of s' r) = [] \<and> \<not> cc_writing (ctx_of s' r) \<or> cc_pool_idx (ctx_of s' r) = -1"
      if "cc_fd (ctx_of s' r) = -1" for r
    proof -
      have "r \<noteq> tc_ctx c" using that fields(1) conn_invD(3,6) [OF parts(1) c] by auto
      then show ?thesis using that fields(1) parts(6) ctx(1) by (simp add: io_inv_def)
    qed
    ultimately show ?thesis unfolding io_inv_def conns rest by blast
  qed
  ultimately show ?thesis by (simp add: net_inv_def)
qed

lemma io_connD:
  assumes "net_inv s" "conns s w fd = Some c"
  shows "length (cc_send_buf (ctx_of s (tc_ctx c))) \<le> MAX_SEND_BUF (sv_env s)"
    "cc_writing (ctx_of s (tc_ctx c)) \<longleftrightarrow> cc_send_buf (ctx_of s (tc_ctx c)) \<noteq> []"
    "w_epoll (sv_worker s w) fd = Some (if cc_send_buf (ctx_of s (tc_ctx c)) \<noteq> [] then read_events OR EPOLLOUT else read_events)"
  using assms unfolding net_inv_def io_inv_def by auto

lemma net_inv_conn: "net_inv s \<Longrightarrow> conn_inv s"
  by (simp add: net_inv_def)

lemma net_inv_send:
  assumes inv: "net_inv s" and c: "conns s w fd = Some c" and data: "data \<noteq> []"
  shows "net_inv (send w c data s)"
proof -
  note d = conn_invD [OF net_inv_conn [OF inv] c] and io = io_connD [OF inv c]
  show ?thesis
  proof (cases "length (cc_send_buf (ctx_of s (tc_ctx c))) + length data > MAX_SEND_BUF (sv_env s)")
    case True
    then have "send w c data s = queue_close_connection w fd s" using d by (simp add: send_def)
    then show ?thesis using inv same_net_queue(1) by (metis net_inv_same)
  next
    case False
    then have len: "length (cc_send_buf (ctx_of s (tc_ctx c)) @ data) \<le> MAX_SEND_BUF (sv_env s)" by simp
    show ?thesis
      by (rule net_inv_output [OF inv c len])
        (use False d io data in \<open>auto simp: send_def Let_def update_event_def waiting_def read_events_def or.assoc\<close>)
  qed
qed

lemma make_packet_not_Nil [simp]: "make_packet c n b \<noteq> []"
proof -
  have "length (make_packet c n b) \<ge> 16" by (simp add: make_packet_def)
  then show ?thesis by auto
qed

lemma net_inv_send_packet: "net_inv s \<Longrightarrow> net_inv (send_packet_in_loop w r c n b s)"
  by (auto simp: send_packet_in_loop_def Let_def intro: net_inv_send split: option.split)

text \<open>What \<open>handle_write\<close> leaves in the send buffer, and whether it closes the connection.\<close>

fun write_out :: "write_result list \<Rightarrow> string \<Rightarrow> string \<times> bool" where
  "write_out ws buf = (if buf = [] then ([], False) else (case ws of
     [] \<Rightarrow> (buf, False)
   | WAgain # _ \<Rightarrow> (buf, False)
   | WError # _ \<Rightarrow> (buf, True)
   | WOk n # ws' \<Rightarrow> if n = 0 then (buf, True) else write_out ws' (drop n buf)))"

declare write_out.simps [simp del]

lemma write_out_length: "write_out ws buf = (buf', closed) \<Longrightarrow> length buf' \<le> length buf"
proof (induction ws buf arbitrary: buf' rule: write_out.induct)
  case (1 ws buf)
  show ?case
    using "1.prems" "1.IH"
    by (subst (asm) write_out.simps)
      (fastforce split: if_splits list.splits write_result.splits)
qed

lemma write_out_closed: "write_out ws buf = (buf', True) \<Longrightarrow> buf' \<noteq> []"
proof (induction ws buf rule: write_out.induct)
  case (1 ws buf)
  show ?case
    using "1.prems" "1.IH"
    by (subst (asm) write_out.simps)
      (auto split: if_splits list.splits write_result.splits)
qed

lemma upd_ctx_twice: "upd_ctx r f (upd_ctx r g s) = upd_ctx r (\<lambda>x. f (g x)) s"
  by (simp add: upd_ctx_def heap_upd_def)

lemma upd_ctx_triv: "f (ctx_of s r) = ctx_of s r \<Longrightarrow> upd_ctx r f s = s"
  by (simp add: upd_ctx_def heap_upd_def)

lemma handle_write_effect:
  "handle_write w c ws s = (case write_out ws (cc_send_buf (ctx_of s (tc_ctx c))) of (buf, closed) \<Rightarrow>
     let s1 = upd_ctx (tc_ctx c) (\<lambda>x. x\<lparr>cc_send_buf := buf\<rparr>) s
     in if closed then force_close_in_loop w (tc_fd c) s1
        else if buf = [] then update_event w (tc_fd c) read_events (upd_ctx (tc_ctx c) (\<lambda>x. x\<lparr>cc_writing := False\<rparr>) s1)
        else s1)"
proof (induction w c ws s rule: handle_write.induct)
  case (1 w c ws s)
  have triv: "upd_ctx (tc_ctx c) (\<lambda>x. x\<lparr>cc_send_buf := cc_send_buf (ctx_of s (tc_ctx c))\<rparr>) s = s"
    by (simp add: upd_ctx_triv)
  show ?case
  proof (cases "cc_send_buf (ctx_of s (tc_ctx c)) = []")
    case True
    then show ?thesis
      using triv by (simp add: handle_write.simps [of w c ws] write_out.simps [of ws] read_events_def)
  next
    case False
    show ?thesis
    proof (cases ws)
      case Nil
      then show ?thesis
        using False triv by (subst handle_write.simps, subst write_out.simps) simp
    next
      case (Cons a ws')
      show ?thesis
      proof (cases a)
        case (WOk n)
        show ?thesis
        proof (cases "n = 0")
          case True
          then show ?thesis
            using False triv Cons WOk by (subst handle_write.simps, subst write_out.simps) simp
        next
          case n: False
          have step: "handle_write w c ws s =
              handle_write w c ws' (upd_ctx (tc_ctx c) (\<lambda>x. x\<lparr>cc_send_buf := drop n (cc_send_buf x)\<rparr>) s)"
            using False n Cons WOk by (subst handle_write.simps) simp
          have "write_out ws (cc_send_buf (ctx_of s (tc_ctx c))) = write_out ws' (drop n (cc_send_buf (ctx_of s (tc_ctx c))))"
            using False n Cons WOk by (subst write_out.simps) simp
          then show ?thesis
            unfolding step "1.IH" [OF False Cons WOk n] by (simp add: upd_ctx_twice)
        qed
      qed (use False triv Cons in \<open>(subst handle_write.simps, subst write_out.simps, simp)+\<close>)
    qed
  qed
qed

lemma net_inv_handle_write:
  assumes inv: "net_inv s" and c: "conns s w fd = Some c"
  shows "net_inv (handle_write w c ws s)"
proof -
  note d = conn_invD [OF net_inv_conn [OF inv] c] and io = io_connD [OF inv c]
  obtain buf closed where out: "write_out ws (cc_send_buf (ctx_of s (tc_ctx c))) = (buf, closed)" by fastforce
  have len: "length buf \<le> MAX_SEND_BUF (sv_env s)" using write_out_length [OF out] io(1) by simp
  let ?s1 = "upd_ctx (tc_ctx c) (\<lambda>x. x\<lparr>cc_send_buf := buf\<rparr>) s"
  have s1: "net_inv ?s1" if "buf \<noteq> []"
  proof -
    have "cc_send_buf (ctx_of s (tc_ctx c)) \<noteq> []" using write_out_length [OF out] that by auto
    then show ?thesis
      by (intro net_inv_output [OF inv c len]) (use io that in \<open>auto simp: waiting_def\<close>)
  qed
  show ?thesis
  proof (cases "buf = []")
    case True
    then have "\<not> closed" using write_out_closed [of ws "cc_send_buf (ctx_of s (tc_ctx c))" buf] out by auto
    then show ?thesis
      by (intro net_inv_output [OF inv c len])
        (use True d(1) io(3) in \<open>auto simp: handle_write_effect out update_event_def waiting_def read_events_def\<close>)
  next
    case False
    then show ?thesis using s1 d(1) by (simp add: handle_write_effect out net_inv_close Let_def)
  qed
qed

section \<open>Input\<close>

lemma timers_inv_touch:
  assumes inv: "conn_inv s" "timers_inv s" and c: "conns s w fd = Some c"
    and same: "\<And>w. conns s' w = conns s w" "sv_env s' = sv_env s" "sv_tick s' = sv_tick s"
      "\<And>w. w_timer (sv_worker s' w) = w_timer (sv_worker s w)" "\<And>w. w_heartbeat (sv_worker s' w) = w_heartbeat (sv_worker s w)"
    and ctx: "\<And>r. r \<noteq> tc_ctx c \<Longrightarrow> cc_last_active (ctx_of s' r) = cc_last_active (ctx_of s r)"
      "cc_last_active (ctx_of s' (tc_ctx c)) = sv_tick s div 1000"
  shows "timers_inv (start_heartbeat_timer w fd s')"
  unfolding timers_inv_def
proof
  fix w'
  let ?s = "start_heartbeat_timer w fd s'"
  let ?ms = "HEARTBEAT_SEC (sv_env ?s) * 1000"
  have ok: "worker_timers_inv ?ms s w'" for w' using inv(2) by (simp add: timers_inv_def same)
  have other: "cc_last_active (ctx_of s' (tc_ctx c')) = cc_last_active (ctx_of s (tc_ctx c'))"
    if "conns s w' fd' = Some c'" "\<not> (w' = w \<and> fd' = fd)" for w' fd' c'
  proof (rule ctx(1))
    show "tc_ctx c' \<noteq> tc_ctx c" using conn_ctx_unique [OF inv(1) c that(1)] that(2) by auto
  qed
  show "worker_timers_inv ?ms ?s w'"
  proof (cases "w' = w")
    case False
    then show ?thesis
      using ok [of w'] other [of w'] by (subst worker_timers_cong [of _ _ s]) (simp_all add: same)
  next
    case True
    have "beats (w_timer (sv_worker s' w)) (w_heartbeat (sv_worker s' w))"
      using ok [of w] by (simp add: worker_timers_inv_def same)
    then obtain k where k: "w_heartbeat (sv_worker ?s w) = (w_heartbeat (sv_worker s w))(fd \<mapsto> k)"
      "expire k = sv_tick s + HEARTBEAT_SEC (sv_env s) * 1000"
      "beats (w_timer (sv_worker ?s w)) (w_heartbeat (sv_worker ?s w))"
      by (rule start_heartbeat_beats [of s' w fd]) (simp_all add: same)
    then show ?thesis
      using ok [of w] c other [of w] ctx(2)
      by (auto simp: True worker_timers_inv_def same insert_absorb)
  qed
qed

lemma net_inv_touch:
  assumes inv: "net_inv s" and c: "conns s w fd = Some c"
    and s': "s' = upd_ctx (tc_ctx c) (\<lambda>x. update_time (sv_tick s div 1000) (x\<lparr>cc_recv_buf := f x\<rparr>)) s"
  shows "net_inv (start_heartbeat_timer w fd s')"
proof -
  have parts: "conn_inv s" "wait_inv s" "count_inv s" "pools_inv s" "timers_inv s" "io_inv s"
    using inv by (simp_all add: net_inv_def)
  have "timers_inv (start_heartbeat_timer w fd s')"
    by (rule timers_inv_touch [OF parts(1,5) c]) (simp_all add: s' update_time_def)
  moreover let ?s = "start_heartbeat_timer w fd s'"
  have fields: "cc_fd (ctx_of ?s r) = cc_fd (ctx_of s r)" "cc_pool_idx (ctx_of ?s r) = cc_pool_idx (ctx_of s r)"
    "cc_owner_worker (ctx_of ?s r) = cc_owner_worker (ctx_of s r)" "cc_send_buf (ctx_of ?s r) = cc_send_buf (ctx_of s r)"
    "cc_writing (ctx_of ?s r) = cc_writing (ctx_of s r)" for r
    by (simp_all add: s' update_time_def)
  have same: "conns ?s w' = conns s w'" "w_pool (sv_worker ?s w') = w_pool (sv_worker s w')" "waiting ?s w' = waiting s w'"
    "w_epoll (sv_worker ?s w') = w_epoll (sv_worker s w')" "sv_env ?s = sv_env s" "sv_open ?s = sv_open s"
    "sv_conn_count ?s = sv_conn_count s" "hp_next (sv_heap ?s) = hp_next (sv_heap s)" for w'
    by (simp_all add: s' waiting_def)
  have "conn_inv ?s" "wait_inv ?s" "count_inv ?s" "pools_inv ?s" "io_inv ?s"
    using parts conn_inv_cong [of ?s s] wait_inv_cong [of ?s s] count_inv_cong [of ?s s] pools_inv_cong [of ?s s]
      io_inv_cong [of ?s s] fields same by blast+
  ultimately show ?thesis by (simp add: net_inv_def)
qed

lemma read_socket_inv:
  "net_inv s \<Longrightarrow> conns s w fd = Some c \<Longrightarrow> read_socket w c rs s = (go_on, s') \<Longrightarrow>
   net_inv s' \<and> (go_on \<longrightarrow> conns s' w fd = Some c)"
proof (induction w c rs s rule: read_socket.induct)
  case (3 w c rs s)
  then show ?case by (auto intro: net_inv_close)
next
  case (4 w c d rs s)
  have fd: "tc_fd c = fd" using conn_invD(1) [OF net_inv_conn [OF "4.prems"(1)] "4.prems"(2)] .
  show ?case
  proof (cases "d = []")
    case True
    then show ?thesis using "4.prems" by (auto intro: net_inv_close)
  next
    case False
    then show ?thesis
      using "4.IH" [OF False] "4.prems" net_inv_touch [OF "4.prems"(1,2) refl, of "\<lambda>x. cc_recv_buf x @ d"] fd by simp
  qed
qed simp_all

lemma net_inv_take_packets:
  assumes inv: "net_inv s" and c: "conns s w fd = Some c"
  shows "net_inv (take_packets w c s)"
proof -
  obtain ps rest ok where run: "read_packets (cc_recv_buf (ctx_of s (tc_ctx c))) = (ps, rest, ok)" by (cases "read_packets (cc_recv_buf (ctx_of s (tc_ctx c)))") auto
  let ?s1 = "fold (\<lambda>(hdr, body). enqueue_task (TaskBusiness (tc_ctx c) hdr body)) ps
      (upd_ctx (tc_ctx c) (\<lambda>x. x\<lparr>cc_recv_buf := rest\<rparr>) s)"
  have "same_net s ?s1"
    by (rule same_net_trans [OF same_net_recv [where f = "\<lambda>_. rest"]], rule same_net_fold)
      (simp add: case_prod_unfold same_net_enqueue)
  then have "net_inv ?s1" using inv by (rule net_inv_same [rotated])
  then show ?thesis by (simp add: take_packets_def run Let_def net_inv_close)
qed

lemma net_inv_handle_read: "net_inv s \<Longrightarrow> conns s w fd = Some c \<Longrightarrow> net_inv (handle_read w c rs s)"
  using read_socket_inv [of s w fd c rs] net_inv_take_packets [of _ w fd c]
  by (auto simp: handle_read_def split: prod.split)

lemma net_inv_handle_events: "net_inv s \<Longrightarrow> net_inv (snd (handle_events w fd revents rs ws s))"
  by (auto simp: handle_events_def run_seqP net_inv_close net_inv_handle_read net_inv_handle_write split: option.split)

section \<open>Accepting and adding\<close>

lemma net_inv_accept:
  assumes inv: "net_inv s" and fd: "0 \<le> fd" "fd \<notin> sv_open s"
  shows "net_inv (queue_add_connection w fd ip port (s\<lparr>sv_open := insert fd (sv_open s)\<rparr>))"
proof -
  let ?s = "queue_add_connection w fd ip port (s\<lparr>sv_open := insert fd (sv_open s)\<rparr>)"
  have parts: "conn_inv s" "wait_inv s" "count_inv s" "pools_inv s" "timers_inv s" "io_inv s"
    using inv by (simp_all add: net_inv_def)
  have waiting: "waiting ?s w' = (if w' = w then waiting s w @ [fd] else waiting s w')" for w'
    by (simp add: waiting_def queue_add_connection_def queue_in_loop_def)
  have none: "conns s w' fd = None" "fd \<notin> set (waiting s w')" for w'
    using fd(2) conn_invD(4) [OF parts(1), of w' fd] parts(2) by (cases "conns s w' fd"; auto simp: wait_inv_def)+
  have same: "conns ?s w' = conns s w'" "w_pool (sv_worker ?s w') = w_pool (sv_worker s w')"
    "w_timer (sv_worker ?s w') = w_timer (sv_worker s w')" "w_heartbeat (sv_worker ?s w') = w_heartbeat (sv_worker s w')"
    "w_epoll (sv_worker ?s w') = w_epoll (sv_worker s w')" "sv_heap ?s = sv_heap s" "sv_env ?s = sv_env s"
    "sv_conn_count ?s = sv_conn_count s" "sv_open ?s = insert fd (sv_open s)" for w'
    by (simp_all add: queue_add_connection_def queue_in_loop_def)
  have "conn_inv ?s" using parts(1) unfolding conn_inv_def same by blast
  moreover have "wait_inv ?s"
  proof -
    have uniq: "a = b" if "x \<in> set (waiting s a)" "x \<in> set (waiting s b)" for x a b
      using parts(2) that unfolding wait_inv_def by blast
    have "x \<in> sv_open s \<and> 0 \<le> x \<and> (\<forall>w'. conns s w' x = None)" if "x \<in> set (waiting s a)" for x a
      using parts(2) that unfolding wait_inv_def by blast
    moreover have "distinct (waiting s a)" for a using parts(2) unfolding wait_inv_def by blast
    ultimately show ?thesis unfolding wait_inv_def same waiting using none fd(1) by (auto dest: uniq)
  qed
  moreover have "count_inv ?s" "pools_inv ?s" "timers_inv ?s" "io_inv ?s"
    using parts count_inv_cong [of ?s s] pools_inv_cong [of ?s s] worker_timers_cong [of ?s _ s] io_inv_cong [of ?s s]
    by (simp_all add: same timers_inv_def)
  ultimately show ?thesis by (simp add: net_inv_def)
qed

text \<open>
  What a worker gets from \<open>acquire\<close>: a context that serves no connection, is in no free place, has nothing
  to send, and is a place of the worker's own pool or a new one.
\<close>

definition fresh_ctx :: "('t, 'm) server \<Rightarrow> nat \<Rightarrow> ctx_ref \<Rightarrow> context_pool \<Rightarrow> ctx_heap \<Rightarrow> bool" where
  "fresh_ctx s w r p h \<longleftrightarrow>
     cc_fd (hp h r) = -1 \<and> cc_send_buf (hp h r) = [] \<and> \<not> cc_writing (hp h r) \<and> r < hp_next h \<and>
     hp_next (sv_heap s) \<le> hp_next h \<and> (\<forall>x. x \<noteq> r \<longrightarrow> hp h x = ctx_of s x) \<and>
     (\<forall>w' fd' c. conns s w' fd' = Some c \<longrightarrow> tc_ctx c \<noteq> r) \<and> storage p = storage (w_pool (sv_worker s w)) \<and>
     distinct (free_list p) \<and> set (free_list p) \<subseteq> set (free_list (w_pool (sv_worker s w))) \<and>
     (\<forall>i \<in> set (free_list p). storage p ! i \<noteq> r) \<and>
     (\<forall>w' i. w' \<noteq> w \<longrightarrow> i < length (storage (w_pool (sv_worker s w'))) \<longrightarrow> storage (w_pool (sv_worker s w')) ! i \<noteq> r) \<and>
     (\<forall>i < length (storage p). cc_pool_idx (hp h (storage p ! i)) = int i \<and> cc_owner_worker (hp h (storage p ! i)) = Some w) \<and>
     (cc_pool_idx (hp h r) = -1 \<and> cc_owner_worker (hp h r) = None \<or> (\<exists>i < length (storage p). storage p ! i = r))"

lemma fresh_ctx_exhausted:
  assumes inv: "conn_inv s" "pools_inv s" and acq: "acquire (w_pool (sv_worker s w)) (sv_heap s) = (r, p, h)"
    and none: "free_list (w_pool (sv_worker s w)) = []"
  shows "fresh_ctx s w r p h"
proof -
  from acquire_exhausted [OF none acq]
  have eq: "p = w_pool (sv_worker s w)" "r = hp_next (sv_heap s)"
    "hp h = (hp (sv_heap s))(r := new_ClientContext)" "hp_next h = hp_next (sv_heap s) + 1" by simp_all
  have "tc_ctx c \<noteq> r" if "conns s w' fd' = Some c" for w' fd' c using conn_invD(5) [OF inv(1) that] eq(2) by simp
  moreover have "storage (w_pool (sv_worker s w')) ! i \<noteq> r" if "i < length (storage (w_pool (sv_worker s w')))" for w' i
    using pools_invD(3) [OF inv(2) that] eq(2) by simp
  ultimately show ?thesis
    unfolding fresh_ctx_def using none pools_invD(4,5) [OF inv(2)] eq by (simp add: new_ClientContext_def)
qed

lemma fresh_ctx_pooled:
  assumes inv: "conn_inv s" "pools_inv s" "io_inv s" and acq: "acquire (w_pool (sv_worker s w)) (sv_heap s) = (r, p, h)"
    and fl: "free_list (w_pool (sv_worker s w)) = xs @ [i]"
  shows "fresh_ctx s w r p h"
proof -
  let ?P = "w_pool (sv_worker s w)"
  note pl = pools_invD [OF inv(2)]
  have i: "i \<in> set (free_list ?P)" using fl by simp
  have eq: "p = ?P\<lparr>free_list := xs\<rparr>" "r = storage ?P ! i" "h = sv_heap s" using acq fl by (simp_all add: acquire_def Let_def)
  have il: "i < length (storage ?P)" and free: "cc_fd (ctx_of s r) = -1" using pl(6,7) [OF i] eq(2) by simp_all
  have idx: "cc_pool_idx (ctx_of s r) = int i" "cc_owner_worker (ctx_of s r) = Some w" using pl(4,5) [OF il] eq(2) by simp_all
  have "cc_send_buf (ctx_of s r) = [] \<and> \<not> cc_writing (ctx_of s r)" using inv(3) free idx by (auto simp: io_inv_def)
  moreover have "tc_ctx c \<noteq> r" if "conns s w' fd' = Some c" for w' fd' c using conn_invD(3,6) [OF inv(1) that] free by auto
  moreover have "storage ?P ! j \<noteq> r" if "j \<in> set xs" for j
  proof -
    have "j \<noteq> i" "j < length (storage ?P)" using that pl(2) [of w] pl(6) [of j w] fl by auto
    then show ?thesis using il pl(1) [of w] eq(2) by (simp add: nth_eq_iff_index_eq)
  qed
  moreover have "storage (w_pool (sv_worker s w')) ! j \<noteq> r" if "w' \<noteq> w" "j < length (storage (w_pool (sv_worker s w')))" for w' j
    using pl(5) [OF that(2)] that(1) idx(2) by auto
  moreover have "r < hp_next (sv_heap s)" using pl(3) [OF il] eq(2) by simp
  ultimately show ?thesis unfolding fresh_ctx_def using fl pl(2) [of w] pl(4,5) eq il free by auto
qed

lemma acquire_fresh:
  assumes "net_inv s" "acquire (w_pool (sv_worker s w)) (sv_heap s) = (r, p, h)"
  shows "fresh_ctx s w r p h"
  using fresh_ctx_exhausted [OF _ _ assms(2)] fresh_ctx_pooled [OF _ _ _ assms(2)] assms(1)
  by (cases "free_list (w_pool (sv_worker s w))" rule: rev_cases) (simp_all add: net_inv_def)

text \<open>What adding a connection changes.\<close>

lemma add_connection_sel:
  assumes acq: "acquire (w_pool (sv_worker s w)) (sv_heap s) = (r, p, h)" and none: "conns s w fd = None"
    and s': "s' = add_connection_in_loop w fd ip port s"
  obtains s0 where "s' = start_heartbeat_timer w fd s0" "sv_env s0 = sv_env s" "sv_tick s0 = sv_tick s" "sv_open s0 = sv_open s"
    "sv_conn_count s0 = sv_conn_count s + 1" "hp_next (sv_heap s0) = hp_next h"
    "\<And>x. ctx_of s0 x = (if x = r then (hp h r)\<lparr>cc_fd := fd, cc_last_active := sv_tick s div 1000\<rparr> else hp h x)"
    "\<And>w'. conns s0 w' = (if w' = w then (conns s w)(fd \<mapsto> \<lparr>tc_fd = fd, tc_ip = ip, tc_port = port, tc_ctx = r, tc_closed = False\<rparr>) else conns s w')"
    "\<And>w'. w_pool (sv_worker s0 w') = (if w' = w then p else w_pool (sv_worker s w'))"
    "\<And>w'. w_epoll (sv_worker s0 w') = (if w' = w then (w_epoll (sv_worker s w))(fd \<mapsto> read_events) else w_epoll (sv_worker s w'))"
    "\<And>w'. waiting s0 w' = waiting s w'" "\<And>w'. w_timer (sv_worker s0 w') = w_timer (sv_worker s w')"
    "\<And>w'. w_heartbeat (sv_worker s0 w') = w_heartbeat (sv_worker s w')"
proof
  show "s' = start_heartbeat_timer w fd (upd_worker w (\<lambda>wk. wk\<lparr>w_epoll := (w_epoll wk)(fd \<mapsto> read_events)\<rparr>)
      (upd_worker w (\<lambda>wk. wk\<lparr>w_connections := (w_connections wk)(fd \<mapsto>
          \<lparr>tc_fd = fd, tc_ip = ip, tc_port = port, tc_ctx = r, tc_closed = False\<rparr>)\<rparr>)
        ((upd_ctx r (\<lambda>c. update_time (sv_tick s div 1000) (c\<lparr>cc_fd := fd\<rparr>))
          (upd_worker w (\<lambda>wk. wk\<lparr>w_pool := p\<rparr>) (s\<lparr>sv_heap := h\<rparr>)))\<lparr>sv_conn_count := sv_conn_count s + 1\<rparr>)))"
    using none by (simp add: s' add_connection_in_loop_def new_TcpConnection_def acq conn_start_def read_events_def Let_def)
qed (simp_all add: update_time_def waiting_def)

end
