(* ===== verification/Server_Add.thy ===== *)
theory Server_Add
  imports Server_Ops
begin

text \<open>Adding a connection keeps the invariant, and so does every functor of a worker's queue.\<close>

text \<open>
  The state after \<open>add_connection_in_loop\<close>, but for the timer: \<open>r\<close> is the context, \<open>p\<close> and \<open>h\<close> are the pool
  and the heap that \<open>acquire\<close> left.
\<close>

definition added ::
  "('t, 'm) server \<Rightarrow> ('t, 'm) server \<Rightarrow> nat \<Rightarrow> int \<Rightarrow> TcpConnection \<Rightarrow> ctx_ref \<Rightarrow> context_pool \<Rightarrow> ctx_heap \<Rightarrow> bool" where
  "added s s0 w fd conn r p h \<longleftrightarrow>
     net_inv s \<and> fresh_ctx s w r p h \<and>
     (0 \<le> fd \<and> fd \<in> sv_open s \<and> (\<forall>w'. conns s w' fd = None) \<and> (\<forall>w'. fd \<notin> set (waiting s w'))) \<and>
     (tc_fd conn = fd \<and> \<not> tc_closed conn \<and> tc_ctx conn = r) \<and>
     (sv_env s0 = sv_env s \<and> sv_tick s0 = sv_tick s \<and> sv_open s0 = sv_open s \<and>
      sv_conn_count s0 = sv_conn_count s + 1 \<and> hp_next (sv_heap s0) = hp_next h) \<and>
     (\<forall>x. ctx_of s0 x = (if x = r then (hp h r)\<lparr>cc_fd := fd, cc_last_active := sv_tick s div 1000\<rparr> else hp h x)) \<and>
     (\<forall>w'. conns s0 w' = (if w' = w then (conns s w)(fd \<mapsto> conn) else conns s w')) \<and>
     (\<forall>w'. w_pool (sv_worker s0 w') = (if w' = w then p else w_pool (sv_worker s w'))) \<and>
     (\<forall>w'. w_epoll (sv_worker s0 w') = (if w' = w then (w_epoll (sv_worker s w))(fd \<mapsto> read_events) else w_epoll (sv_worker s w'))) \<and>
     (\<forall>w'. waiting s0 w' = waiting s w') \<and>
     (\<forall>w'. w_timer (sv_worker s0 w') = w_timer (sv_worker s w')) \<and>
     (\<forall>w'. w_heartbeat (sv_worker s0 w') = w_heartbeat (sv_worker s w'))"

lemma addedD:
  assumes "added s s0 w fd conn r p h"
  shows added_parts: "conn_inv s" "wait_inv s" "count_inv s" "pools_inv s" "timers_inv s" "io_inv s"
    and added_fd: "0 \<le> fd" "fd \<in> sv_open s" "conns s w' fd = None" "fd \<notin> set (waiting s w')"
    and added_conn: "tc_fd conn = fd" "\<not> tc_closed conn" "tc_ctx conn = r"
    and added_env: "sv_env s0 = sv_env s" "sv_tick s0 = sv_tick s" "sv_open s0 = sv_open s"
      "sv_conn_count s0 = sv_conn_count s + 1" "hp_next (sv_heap s0) = hp_next h"
    and added_ctx: "ctx_of s0 x = (if x = r then (hp h r)\<lparr>cc_fd := fd, cc_last_active := sv_tick s div 1000\<rparr> else hp h x)"
    and added_conns: "conns s0 w' = (if w' = w then (conns s w)(fd \<mapsto> conn) else conns s w')"
    and added_pool: "w_pool (sv_worker s0 w') = (if w' = w then p else w_pool (sv_worker s w'))"
    and added_epoll: "w_epoll (sv_worker s0 w') = (if w' = w then (w_epoll (sv_worker s w))(fd \<mapsto> read_events) else w_epoll (sv_worker s w'))"
    and added_queues: "waiting s0 w' = waiting s w'"
    and added_timer: "w_timer (sv_worker s0 w') = w_timer (sv_worker s w')" "w_heartbeat (sv_worker s0 w') = w_heartbeat (sv_worker s w')"
  using assms unfolding added_def net_inv_def by simp_all

lemma added_freshD:
  assumes "added s s0 w fd conn r p h"
  shows added_unused: "cc_fd (hp h r) = -1" "cc_send_buf (hp h r) = []" "\<not> cc_writing (hp h r)" "r < hp_next h"
    and added_heap: "hp_next (sv_heap s) \<le> hp_next h" "x \<noteq> r \<Longrightarrow> hp h x = ctx_of s x"
    and added_other: "conns s w' fd' = Some c \<Longrightarrow> tc_ctx c \<noteq> r"
    and added_pooled: "storage p = storage (w_pool (sv_worker s w))" "distinct (free_list p)"
      "set (free_list p) \<subseteq> set (free_list (w_pool (sv_worker s w)))" "i \<in> set (free_list p) \<Longrightarrow> storage p ! i \<noteq> r"
      "w' \<noteq> w \<Longrightarrow> i < length (storage (w_pool (sv_worker s w'))) \<Longrightarrow> storage (w_pool (sv_worker s w')) ! i \<noteq> r"
      "i < length (storage p) \<Longrightarrow> cc_pool_idx (hp h (storage p ! i)) = int i \<and> cc_owner_worker (hp h (storage p ! i)) = Some w"
      "cc_pool_idx (hp h r) = -1 \<and> cc_owner_worker (hp h r) = None \<or> (\<exists>i < length (storage p). storage p ! i = r)"
  using assms unfolding added_def fresh_ctx_def by blast+

text \<open>A connection of the new state is the new one or an old one, whose context did not change.\<close>

lemma new_or_old:
  assumes A: "added s s0 w fd conn r p h" and c: "conns s0 w' fd' = Some c"
  obtains (new) "w' = w" "fd' = fd" "c = conn" | (old) "conns s w' fd' = Some c" "fd' \<noteq> fd" "ctx_of s0 (tc_ctx c) = ctx_of s (tc_ctx c)"
proof (cases "w' = w \<and> fd' = fd")
  case True
  then show ?thesis using c new by (simp add: added_conns [OF A])
next
  case False
  then have c': "conns s w' fd' = Some c" using c by (auto simp: added_conns [OF A] split: if_splits)
  moreover have "fd' \<noteq> fd" using c' added_fd(3) [OF A, of w'] by auto
  moreover have "ctx_of s0 (tc_ctx c) = ctx_of s (tc_ctx c)"
    using added_other [OF A c'] added_heap(2) [OF A] by (simp add: added_ctx [OF A])
  ultimately show ?thesis by (rule old)
qed

lemma conn_inv_added:
  assumes A: "added s s0 w fd conn r p h"
  shows "conn_inv s0"
proof -
  note parts = added_parts [OF A] and fd = added_fd [OF A] and conn = added_conn [OF A] and
    env = added_env [OF A] and ctx = added_ctx [OF A] and conns = added_conns [OF A] and
    unused = added_unused [OF A] and heap = added_heap [OF A]
  have "tc_fd c = fd' \<and> \<not> tc_closed c \<and> 0 \<le> fd' \<and> fd' \<in> sv_open s0 \<and> tc_ctx c < hp_next (sv_heap s0) \<and>
      cc_fd (ctx_of s0 (tc_ctx c)) = fd'" if "conns s0 w' fd' = Some c" for w' fd' c
    using A that
  proof (cases rule: new_or_old)
    case new
    then show ?thesis using fd conn unused by (simp add: env ctx)
  next
    case old
    then show ?thesis using conn_invD [OF parts(1) old(1)] heap(1) by (simp add: env)
  qed
  moreover have "\<exists>w' fd' c. conns s0 w' fd' = Some c \<and> tc_ctx c = x" if "cc_fd (ctx_of s0 x) \<noteq> -1" for x
  proof (cases "x = r")
    case True
    have "conns s0 w fd = Some conn" by (simp add: conns)
    then show ?thesis using True conn(3) by blast
  next
    case False
    then have "cc_fd (ctx_of s x) \<noteq> -1" using that heap(2) by (simp add: ctx)
    then obtain w' c where c: "conns s w' (cc_fd (ctx_of s x)) = Some c" "tc_ctx c = x"
      using conn_of_ctx [OF parts(1)] by blast
    then have "conns s0 w' (cc_fd (ctx_of s x)) = Some c" using fd(3) [of w'] by (auto simp: conns)
    then show ?thesis using c(2) by blast
  qed
  moreover have "w1 = w2" if "conns s0 w1 fd' \<noteq> None" "conns s0 w2 fd' \<noteq> None" for w1 w2 fd'
    using that fd(3) by (auto simp: conns split: if_splits dest: conn_fd_unique [OF parts(1)])
  ultimately show ?thesis unfolding conn_inv_def by blast
qed

lemma wait_inv_added:
  assumes A: "added s s0 w fd conn r p h"
  shows "wait_inv s0"
proof -
  note parts = added_parts [OF A] and fd = added_fd [OF A] and conns = added_conns [OF A] and
    queues = added_queues [OF A] and env = added_env [OF A]
  have "conns s0 w' x = None" if "x \<in> set (waiting s w1)" for x w1 w'
    using that fd(4) [of w1] parts(2) by (auto simp: conns wait_inv_def)
  then show ?thesis using parts(2) unfolding wait_inv_def queues env by blast
qed

lemma count_inv_added:
  assumes A: "added s s0 w fd conn r p h"
  shows "count_inv s0"
proof -
  note parts = added_parts [OF A] and fd = added_fd [OF A] and conns = added_conns [OF A] and
    env = added_env [OF A]
  have "live s0 = insert (w, fd) (live s)" by (auto simp: live_def conns split: if_splits)
  moreover have "(w, fd) \<notin> live s" by (simp add: live_def fd(3))
  ultimately show ?thesis using parts(3) by (simp add: count_inv_def env)
qed

lemma pools_inv_added:
  assumes A: "added s s0 w fd conn r p h"
  shows "pools_inv s0"
proof -
  note parts = added_parts [OF A] and conn = added_conn [OF A] and env = added_env [OF A] and
    ctx = added_ctx [OF A] and pool = added_pool [OF A] and heap = added_heap [OF A] and
    not_conn = added_other [OF A] and pooled = added_pooled [OF A]
  note pl = pools_invD [OF parts(4)]
  have st: "storage (w_pool (sv_worker s0 w')) = storage (w_pool (sv_worker s w'))" for w' by (simp add: pool pooled(1))
  have ids: "cc_pool_idx (ctx_of s0 x) = cc_pool_idx (hp h x)" "cc_owner_worker (ctx_of s0 x) = cc_owner_worker (hp h x)" for x
    by (simp_all add: ctx)
  have place: "storage (w_pool (sv_worker s w')) ! i < hp_next h \<and> cc_pool_idx (hp h (storage (w_pool (sv_worker s w')) ! i)) = int i \<and>
      cc_owner_worker (hp h (storage (w_pool (sv_worker s w')) ! i)) = Some w'"
    if "i < length (storage (w_pool (sv_worker s w')))" for w' i
    using pl(3,4,5) [OF that] pooled(5) [of w' i] pooled(6) [of i] pooled(1) that heap by (cases "w' = w") auto
  have free: "distinct (free_list (w_pool (sv_worker s0 w'))) \<and> (\<forall>i \<in> set (free_list (w_pool (sv_worker s0 w'))).
      i < length (storage (w_pool (sv_worker s w'))) \<and> cc_fd (ctx_of s0 (storage (w_pool (sv_worker s w')) ! i)) = -1)" for w'
  proof (cases "w' = w")
    case True
    have "i < length (storage (w_pool (sv_worker s w))) \<and> cc_fd (ctx_of s0 (storage (w_pool (sv_worker s w)) ! i)) = -1"
      if "i \<in> set (free_list p)" for i
      using that pooled(1,3) pooled(4) [OF that] pl(6,7) [of i w] heap(2) by (auto simp: ctx)
    then show ?thesis using True pooled(2) by (simp add: pool)
  next
    case False
    then show ?thesis using pl(2,6,7) pooled(5) [OF False] heap(2) by (simp add: pool ctx)
  qed
  have use: "cc_pool_idx (hp h (tc_ctx c)) = -1 \<and> cc_owner_worker (hp h (tc_ctx c)) = None \<or>
      (\<exists>i < length (storage (w_pool (sv_worker s w'))). storage (w_pool (sv_worker s w')) ! i = tc_ctx c)"
    if "conns s0 w' fd' = Some c" for w' fd' c
    using A that
  proof (cases rule: new_or_old)
    case new
    then show ?thesis using pooled(1,7) conn(3) by simp
  next
    case old
    then show ?thesis using parts(4) not_conn [OF old(1)] heap(2) unfolding pools_inv_def by metis
  qed
  show ?thesis
    unfolding pools_inv_def st ids env using pl(1) place free use by blast
qed

lemma timers_inv_added:
  assumes A: "added s s0 w fd conn r p h"
  shows "timers_inv (start_heartbeat_timer w fd s0)"
  unfolding timers_inv_def
proof
  fix w'
  note parts = added_parts [OF A] and fd = added_fd [OF A] and conn = added_conn [OF A] and
    env = added_env [OF A] and ctx = added_ctx [OF A] and conns = added_conns [OF A] and
    timer = added_timer [OF A] and heap = added_heap [OF A] and not_conn = added_other [OF A]
  let ?s = "start_heartbeat_timer w fd s0"
  let ?ms = "HEARTBEAT_SEC (sv_env ?s) * 1000"
  have ok: "worker_timers_inv ?ms s w'" for w' using parts(5) by (simp add: timers_inv_def env)
  have other: "cc_last_active (ctx_of s0 (tc_ctx c)) = cc_last_active (ctx_of s (tc_ctx c))" if "conns s w' fd' = Some c" for w' fd' c
    using not_conn [OF that] heap(2) by (simp add: ctx)
  show "worker_timers_inv ?ms ?s w'"
  proof (cases "w' = w")
    case False
    then show ?thesis
      using ok [of w'] other [of w'] by (subst worker_timers_cong [of _ _ s]) (simp_all add: conns timer)
  next
    case True
    have "beats (w_timer (sv_worker s0 w)) (w_heartbeat (sv_worker s0 w))"
      using ok [of w] by (simp add: worker_timers_inv_def timer)
    then obtain k where k: "w_heartbeat (sv_worker ?s w) = (w_heartbeat (sv_worker s w))(fd \<mapsto> k)"
      "expire k = sv_tick s + HEARTBEAT_SEC (sv_env s) * 1000"
      "beats (w_timer (sv_worker ?s w)) (w_heartbeat (sv_worker ?s w))"
      by (rule start_heartbeat_beats [of s0 w fd]) (simp_all add: timer env)
    moreover have "cc_last_active (ctx_of ?s (tc_ctx conn)) = (expire k - ?ms) div 1000" using k(2) by (simp add: conn ctx env)
    moreover have "dom (w_heartbeat (sv_worker s w)) = dom (conns s w)" using ok [of w] by (simp add: worker_timers_inv_def)
    ultimately show ?thesis
      using ok [of w] other [of w] fd(3) [of w] by (auto simp: True worker_timers_inv_def conns)
  qed
qed

lemma io_inv_added:
  assumes A: "added s s0 w fd conn r p h"
  shows "io_inv s0"
proof -
  note parts = added_parts [OF A] and fd = added_fd [OF A] and conn = added_conn [OF A] and
    env = added_env [OF A] and ctx = added_ctx [OF A] and conns = added_conns [OF A] and
    epoll = added_epoll [OF A] and unused = added_unused [OF A] and heap = added_heap [OF A]
  have "dom (w_epoll (sv_worker s0 w')) = dom (conns s0 w')" for w' using parts(6) by (simp add: epoll conns io_inv_def)
  moreover have "length (cc_send_buf (ctx_of s0 (tc_ctx c))) \<le> MAX_SEND_BUF (sv_env s0) \<and>
      (cc_writing (ctx_of s0 (tc_ctx c)) \<longleftrightarrow> cc_send_buf (ctx_of s0 (tc_ctx c)) \<noteq> []) \<and>
      w_epoll (sv_worker s0 w') fd' = Some (if cc_writing (ctx_of s0 (tc_ctx c)) then read_events OR EPOLLOUT else read_events)"
    if "conns s0 w' fd' = Some c" for w' fd' c
    using A that
  proof (cases rule: new_or_old)
    case new
    then show ?thesis using conn(3) unused by (simp add: ctx epoll)
  next
    case old
    then have "w_epoll (sv_worker s0 w') fd' = w_epoll (sv_worker s w') fd'" by (simp add: epoll)
    then show ?thesis using parts(6) old by (simp add: io_inv_def env)
  qed
  moreover have "cc_send_buf (ctx_of s0 x) = [] \<and> \<not> cc_writing (ctx_of s0 x) \<or> cc_pool_idx (ctx_of s0 x) = -1"
    if "cc_fd (ctx_of s0 x) = -1" for x
    using that fd(1) heap(2) parts(6) by (auto simp: ctx io_inv_def split: if_splits)
  ultimately show ?thesis unfolding io_inv_def by blast
qed

lemma net_inv_added:
  assumes A: "added s s0 w fd conn r p h"
  shows "net_inv (start_heartbeat_timer w fd s0)"
proof -
  let ?s = "start_heartbeat_timer w fd s0"
  have "conn_inv ?s" "wait_inv ?s" "count_inv ?s" "pools_inv ?s" "io_inv ?s"
    using conn_inv_added [OF A] wait_inv_added [OF A] count_inv_added [OF A] pools_inv_added [OF A] io_inv_added [OF A]
      conn_inv_cong [of ?s s0] wait_inv_cong [of ?s s0] count_inv_cong [of ?s s0] pools_inv_cong [of ?s s0] io_inv_cong [of ?s s0]
    by (simp_all add: waiting_def)
  then show ?thesis using timers_inv_added [OF A] by (simp add: net_inv_def)
qed

lemma net_inv_add_connection:
  assumes "net_inv s" "0 \<le> fd" "fd \<in> sv_open s" "\<And>w'. conns s w' fd = None" "\<And>w'. fd \<notin> set (waiting s w')"
  shows "net_inv (add_connection_in_loop w fd ip port s)"
proof -
  obtain r p h where acq: "acquire (w_pool (sv_worker s w)) (sv_heap s) = (r, p, h)"
    by (cases "acquire (w_pool (sv_worker s w)) (sv_heap s)") auto
  obtain s0 where s0: "add_connection_in_loop w fd ip port s = start_heartbeat_timer w fd s0"
    "added s s0 w fd \<lparr>tc_fd = fd, tc_ip = ip, tc_port = port, tc_ctx = r, tc_closed = False\<rparr> r p h"
    by (rule add_connection_sel [OF acq assms(4) refl, of ip port])
      (use assms acquire_fresh [OF assms(1) acq] in \<open>simp add: added_def\<close>)
  show ?thesis unfolding s0(1) by (rule net_inv_added [OF s0(2)])
qed

section \<open>Functors\<close>

lemma wait_inv_subset:
  assumes "wait_inv s" "\<And>w. conns s' w = conns s w" "sv_open s' = sv_open s"
    "\<And>w. distinct (waiting s' w)" "\<And>w. set (waiting s' w) \<subseteq> set (waiting s w)"
  shows "wait_inv s'"
  using assms(1,4,5) unfolding wait_inv_def assms(2,3) by (meson subsetD)

text \<open>Taking a functor out of the running batch.\<close>

lemma net_inv_pop:
  assumes inv: "net_inv s" and run: "w_running (sv_worker s w) = f # fs"
  shows "net_inv (upd_worker w (\<lambda>wk. wk\<lparr>w_running := fs\<rparr>) s)"
proof -
  let ?s = "upd_worker w (\<lambda>wk. wk\<lparr>w_running := fs\<rparr>) s"
  have parts: "conn_inv s" "wait_inv s" "count_inv s" "pools_inv s" "timers_inv s" "io_inv s"
    using inv by (simp_all add: net_inv_def)
  have sub: "distinct (waiting ?s w')" "set (waiting ?s w') \<subseteq> set (waiting s w')" for w'
  proof -
    have "distinct (waiting s w')" using parts(2) by (simp add: wait_inv_def)
    then show "distinct (waiting ?s w')" "set (waiting ?s w') \<subseteq> set (waiting s w')"
      using run by (cases f; auto simp: waiting_def)+
  qed
  have "wait_inv ?s" by (rule wait_inv_subset [OF parts(2) _ _ sub]) simp_all
  moreover have "conn_inv ?s" "count_inv ?s" "pools_inv ?s" "timers_inv ?s" "io_inv ?s"
    using parts conn_inv_cong [of ?s s] count_inv_cong [of ?s s] pools_inv_cong [of ?s s]
      worker_timers_cong [of ?s _ s] io_inv_cong [of ?s s] by (simp_all add: timers_inv_def)
  ultimately show ?thesis by (simp add: net_inv_def)
qed

lemma net_inv_swap:
  assumes "net_inv s" "w_running (sv_worker s w) = []"
  shows "net_inv (swap_functors w s)"
  using assms(1) by (rule net_inv_same) (simp add: same_net_def swap_functors_def waiting_def assms(2))

text \<open>The socket of a queued \<open>add_connection_in_loop\<close> is open, belongs to nobody, and is queued once.\<close>

lemma waiting_head:
  assumes inv: "wait_inv s" and run: "w_running (sv_worker s w) = FnAddConn fd ip port # fs"
  shows "0 \<le> fd" "fd \<in> sv_open s" "conns s w' fd = None"
    "fd \<notin> set (waiting (upd_worker w (\<lambda>wk. wk\<lparr>w_running := fs\<rparr>) s) w')"
proof -
  have w: "waiting s w = fd # add_fds (fs @ w_pending (sv_worker s w))" by (simp add: waiting_def run)
  have "distinct (waiting s w)" using inv by (simp add: wait_inv_def)
  with w have mem: "fd \<in> set (waiting s w)" and notin: "fd \<notin> set (add_fds (fs @ w_pending (sv_worker s w)))"
    by simp_all
  show "0 \<le> fd" "fd \<in> sv_open s" "conns s w' fd = None" using inv mem unfolding wait_inv_def by blast+
  show "fd \<notin> set (waiting (upd_worker w (\<lambda>wk. wk\<lparr>w_running := fs\<rparr>) s) w')"
  proof (cases "w' = w")
    case True
    then show ?thesis using notin by (simp add: waiting_def)
  next
    case False
    then have "fd \<notin> set (waiting s w')" using inv mem unfolding wait_inv_def by blast
    then show ?thesis using False by (simp add: waiting_def)
  qed
qed

lemma net_inv_run_next:
  assumes inv: "net_inv s"
  shows "net_inv (run_next_functor w s)"
proof (cases "w_running (sv_worker s w)")
  case Nil
  then show ?thesis using inv by (simp add: run_next_functor_def)
next
  case (Cons f fs)
  note pop = net_inv_pop [OF inv Cons]
  have wait: "wait_inv s" using inv by (simp add: net_inv_def)
  show ?thesis
  proof (cases f)
    case (FnAddConn fd ip port)
    note head = waiting_head [OF wait Cons [unfolded FnAddConn]]
    have "net_inv (add_connection_in_loop w fd ip port (upd_worker w (\<lambda>wk. wk\<lparr>w_running := fs\<rparr>) s))"
      by (rule net_inv_add_connection [OF pop]) (use head in simp_all)
    then show ?thesis by (simp add: run_next_functor_def Cons FnAddConn)
  qed (use pop in \<open>simp_all add: run_next_functor_def Cons net_inv_send_packet net_inv_close\<close>)
qed

end
