(* ===== verification/System.thy ===== *)
theory System
  imports Business Server_Add
begin

text \<open>
  The server as a whole: its threads as a step relation. A step is one event: a connection is accepted, a
  worker handles an event of a socket, a timer or a functor, a pool thread runs a task, the AI scheduler or
  the database writer makes a round, a chunk of an AI answer arrives, or time passes. The threads
  interleave in every order that the guards allow.
\<close>

unbundle bit_operations_syntax

section \<open>Events\<close>

datatype event =
    Accept nat int string u16
  | SocketEvent nat int u32 "read_result list" "write_result list"
  | TimerCheck nat
  | SwapFunctors nat
  | RunFunctor nat
  | RunTask
  | Schedule
  | StreamChunk nat string
  | StreamEnd nat bool
  | DbRound
  | Tick int int

text \<open>
  When an event can happen. The kernel gives out descriptors that are not open; epoll reports only
  registered sockets and reports that a socket can be written only if that was asked for; a worker
  handles events and timers when it is not in the middle of its functors.
\<close>

fun enabled :: "event \<Rightarrow> ('t, 'm) server \<Rightarrow> bool" where
  "enabled (Accept w fd ip port) s = (0 \<le> fd \<and> fd \<notin> sv_open s)"
| "enabled (SocketEvent w fd revents rs ws) s = (w_running (sv_worker s w) = [] \<and>
     (case w_epoll (sv_worker s w) fd of None \<Rightarrow> False
      | Some interest \<Rightarrow> revents AND EPOLLOUT \<noteq> 0 \<longrightarrow> interest AND EPOLLOUT \<noteq> 0))"
| "enabled (TimerCheck w) s = (w_running (sv_worker s w) = [])"
| "enabled (SwapFunctors w) s = (w_running (sv_worker s w) = [])"
| "enabled (RunFunctor w) s = True"
| "enabled RunTask s = (tasks (sv_pool s) \<noteq> [])"
| "enabled Schedule s = True"
| "enabled (StreamChunk i chunk) s = (i < length (sv_streams s))"
| "enabled (StreamEnd i ok) s = (i < length (sv_streams s))"
| "enabled DbRound s = True"
| "enabled (Tick ms wall) s = (0 \<le> ms)"

text \<open>Running a task of the pool: an exception that leaves a task ends the process.\<close>

definition run_task :: "('j, 't, 'm) externals \<Rightarrow> ('t, 'm, unit) sprog" where
  "run_task X = (\<lambda>s. case take_task (sv_pool s) of
     None \<Rightarrow> (Val (), s)
   | Some (t, p) \<Rightarrow> (case t of
       TaskBusiness r hdr body \<Rightarrow> threadP (process_business X r hdr body) (s\<lparr>sv_pool := p\<rparr>)
     | TaskStream req \<Rightarrow> (case stream_start req (s\<lparr>sv_pool := p\<rparr>) of
         (None, s1) \<Rightarrow> (Val (), s1)
       | (Some st, s1) \<Rightarrow> (Val (), s1\<lparr>sv_streams := sv_streams s1 @ [st]\<rparr>))))"

definition db_round :: "('j, 't, 'm) externals \<Rightarrow> ('t, 'm, unit) sprog" where
  "db_round X = bindP has_db (\<lambda>db. if db then with_db (writer_round X) else ret ())"

definition stream_chunk_step :: "('j, 't, 'm) externals \<Rightarrow> nat \<Rightarrow> string \<Rightarrow> ('t, 'm) server \<Rightarrow> ('t, 'm) server" where
  "stream_chunk_step X i chunk s = (case on_chunk X chunk (sv_streams s ! i) s of
     (st, s1) \<Rightarrow> s1\<lparr>sv_streams := (sv_streams s1)[i := st]\<rparr>)"

definition stream_end_step :: "('j, 't, 'm) externals \<Rightarrow> nat \<Rightarrow> bool \<Rightarrow> ('t, 'm) server \<Rightarrow> ('t, 'm) server" where
  "stream_end_step X i ok s = (let s1 = stream_end X ok (sv_streams s ! i) s
     in s1\<lparr>sv_streams := take i (sv_streams s1) @ drop (Suc i) (sv_streams s1)\<rparr>)"

fun exec :: "('j, 't, 'm) externals \<Rightarrow> event \<Rightarrow> ('t, 'm, unit) sprog" where
  "exec X (Accept w fd ip port) = modifyP (\<lambda>s. queue_add_connection w fd ip port (s\<lparr>sv_open := insert fd (sv_open s)\<rparr>))"
| "exec X (SocketEvent w fd revents rs ws) = handle_events w fd revents rs ws"
| "exec X (TimerCheck w) = modifyP (\<lambda>s. snd (check_timer w s))"
| "exec X (SwapFunctors w) = modifyP (swap_functors w)"
| "exec X (RunFunctor w) = modifyP (run_next_functor w)"
| "exec X RunTask = run_task X"
| "exec X Schedule = modifyP (schedule_requests X)"
| "exec X (StreamChunk i chunk) = modifyP (stream_chunk_step X i chunk)"
| "exec X (StreamEnd i ok) = modifyP (stream_end_step X i ok)"
| "exec X DbRound = db_round X"
| "exec X (Tick ms wall) = modifyP (\<lambda>s. s\<lparr>sv_tick := sv_tick s + ms, sv_wall := wall\<rparr>)"

section \<open>Reachable states\<close>

text \<open>The state after \<open>main\<close> has built everything: the workers' pools are full and nothing is connected.\<close>

definition initial :: "('t, 'm) server \<Rightarrow> bool" where
  "initial s \<longleftrightarrow> sv_open s = {} \<and> sv_conn_count s = 0 \<and>
     (\<forall>w. conns s w = Map.empty \<and> w_timer (sv_worker s w) = new_timer \<and> w_heartbeat (sv_worker s w) = Map.empty \<and>
        w_pending (sv_worker s w) = [] \<and> w_running (sv_worker s w) = [] \<and> w_epoll (sv_worker s w) = Map.empty \<and>
        distinct (storage (w_pool (sv_worker s w))) \<and>
        free_list (w_pool (sv_worker s w)) = [0..<length (storage (w_pool (sv_worker s w)))] \<and>
        (\<forall>i < length (storage (w_pool (sv_worker s w))). storage (w_pool (sv_worker s w)) ! i < hp_next (sv_heap s) \<and>
           ctx_of s (storage (w_pool (sv_worker s w)) ! i) = new_ClientContext\<lparr>cc_owner_worker := Some w, cc_pool_idx := int i\<rparr>)) \<and>
     (\<forall>r. cc_fd (ctx_of s r) = -1 \<and> cc_send_buf (ctx_of s r) = [] \<and> \<not> cc_writing (ctx_of s r)) \<and>
     sv_sessions s = no_sessions \<and> sv_pool s = new_pool \<and> sv_streams s = [] \<and>
     pending_requests (sv_ai s) = [] \<and> active_streams (sv_ai s) = []"

inductive reach :: "('j, 't, 'm) externals \<Rightarrow> ('t, 'm) server \<Rightarrow> bool" for X where
  start: "initial s \<Longrightarrow> reach X s"
| step: "reach X s \<Longrightarrow> enabled e s \<Longrightarrow> exec X e s = (Val (), s') \<Longrightarrow> reach X s'"

text \<open>A sequence of events, each of which can happen and ends without a fault.\<close>

primrec runs :: "('j, 't, 'm) externals \<Rightarrow> event list \<Rightarrow> ('t, 'm) server \<Rightarrow> ('t, 'm) server option" where
  "runs X [] s = Some s"
| "runs X (e # es) s = (if enabled e s then (case exec X e s of (Val u, s') \<Rightarrow> runs X es s' | _ \<Rightarrow> None) else None)"

lemma reach_runs: "runs X es s = Some s' \<Longrightarrow> reach X s \<Longrightarrow> reach X s'"
  by (induction es arbitrary: s) (auto split: if_splits prod.splits outcome.splits intro: reach.step)

section \<open>The business layer leaves the connections alone\<close>

definition frame :: "('t, 'm, 'a) sprog \<Rightarrow> bool" where
  "frame m \<longleftrightarrow> (\<forall>s0. keeps (same_net s0) m)"

named_theorems frame_intros \<open>programs that leave the connections alone\<close>

lemma frameD: "frame m \<Longrightarrow> same_net s (snd (m s))"
  unfolding frame_def by (rule keepsD [of "same_net s"]) simp_all

lemma frame_modify: "(\<And>s. same_net s (f s)) \<Longrightarrow> frame (modifyP f)"
  unfolding frame_def by (auto intro!: keeps_modify elim: same_net_trans)

lemma frame_state: "(\<And>s. same_net s (snd (m s))) \<Longrightarrow> frame m"
  unfolding frame_def by (auto intro!: keepsI elim: same_net_trans)

lemma frame_ret [frame_intros]: "frame (ret x)"
  and frame_gets [frame_intros]: "frame (getsP g)"
  and frame_crash [frame_intros]: "frame (crashP c)"
  unfolding frame_def by (auto intro: keeps_intros)

lemma frame_bind [frame_intros]: "frame m \<Longrightarrow> (\<And>x. frame (f x)) \<Longrightarrow> frame (bindP m f)"
  and frame_seq [frame_intros]: "frame m1 \<Longrightarrow> frame m2 \<Longrightarrow> frame (seqP m1 m2)"
  and frame_catch [frame_intros]: "frame m \<Longrightarrow> (\<And>e. frame (g e)) \<Longrightarrow> frame (catchP m g)"
  and frame_for [frame_intros]: "(\<And>x. frame (k x)) \<Longrightarrow> frame (forP xs k)"
  unfolding frame_def by (auto intro: keeps_intros)

lemma frame_thread [frame_intros]: "frame m \<Longrightarrow> frame (threadP m)"
  unfolding threadP_def by (intro frame_intros)

lemma frame_if [frame_intros]: "frame m1 \<Longrightarrow> frame m2 \<Longrightarrow> frame (if b then m1 else m2)"
  by simp

lemma frame_option [frame_intros]: "frame m \<Longrightarrow> (\<And>y. frame (f y)) \<Longrightarrow> frame (case x of None \<Rightarrow> m | Some y \<Rightarrow> f y)"
  by (cases x) simp_all

lemma frame_send_to [frame_intros]: "frame (send_to r c n b)"
  unfolding send_to_def by (intro frame_intros frame_modify same_net_queue)

lemma frame_with_db [frame_intros]: "frame (with_db m)"
  by (rule frame_state) (auto simp: with_db_def same_net_def waiting_def split: option.split prod.split)

lemma frame_bind_session [frame_intros]: "frame (bind uid r)"
  unfolding bind_def
  by (intro frame_intros frame_modify same_net_queue) (simp add: same_net_def waiting_def)

lemma frame_rate [frame_intros]: "frame (rate_limited r)"
  unfolding rate_limited_def
  by (intro frame_intros frame_modify) (simp add: same_net_def waiting_def rate_update_def Let_def)

lemma frame_submit_stream [frame_intros]:
  "frame (\<lambda>s. case submit_stream_request uid p r s of (ok, s') \<Rightarrow> (Val ok, s'))"
  by (rule frame_state) (auto simp: submit_stream_request_def same_net_def waiting_def Let_def split: prod.split)

lemmas reply_defs = send_response_def uid_of_def has_db_def notify_def send_users_def submit_message_def deliver_offline_def

lemmas handler_defs = handle_login_def handle_register_def handle_chat_def handle_ai_chat_def handle_heartbeat_def
  handle_add_friend_def handle_accept_friend_def handle_friend_list_def handle_search_user_def handle_friend_requests_def

lemma frame_process_business [frame_intros]: "frame (process_business X r hdr body)"
  unfolding process_business_def business_error_def handle_command_def handler_defs reply_defs by (intro frame_intros)

section \<open>The AI manager leaves the connections alone\<close>

lemma same_net_ai: "same_net s (s\<lparr>sv_ai := a\<rparr>)"
  and same_net_streams: "same_net s (s\<lparr>sv_streams := st\<rparr>)"
  and same_net_tasks: "same_net s (s\<lparr>sv_pool := p\<rparr>)"
  and same_net_clock: "same_net s (s\<lparr>sv_tick := t, sv_wall := v\<rparr>)"
  by (simp_all add: same_net_def waiting_def)

lemma same_net_send_chunk: "same_net s (send_stream_chunk X uid r chunk f l n s)"
  by (auto simp: send_stream_chunk_def Let_def same_net_queue split: option.split)

lemma same_net_send_next: "same_net s (snd (send_next X st chunk l s))"
  by (simp add: send_next_def Let_def same_net_send_chunk)

lemma same_net_schedule: "same_net s (schedule_requests X s)"
  by (auto simp: schedule_requests_def send_error_response_def Let_def split: list.split
      intro: same_net_trans [OF same_net_ai same_net_send_chunk] same_net_trans [OF same_net_ai same_net_enqueue] same_net_ai)

lemma same_net_erase: "same_net s (erase_stream r s)"
  by (simp add: erase_stream_def Let_def same_net_ai)

lemma same_net_on_chunk: "same_net s (snd (on_chunk X chunk st s))"
  using same_net_send_next [of s X "st\<lparr>as_buffer := as_buffer st @ chunk\<rparr>"]
  by (auto simp: on_chunk_def Let_def split: prod.split) (metis snd_conv)+

lemma same_net_on_complete: "same_net s (snd (on_complete X st s))"
  using same_net_send_next [of s X st] by (auto simp: on_complete_def split: prod.split) (metis snd_conv)

lemma same_net_fallback: "same_net s (snd (send_fallback X msg st s))"
proof (induction X msg st s rule: send_fallback.induct)
  case (1 X msg st s)
  show ?case
  proof (cases "msg = []")
    case True
    then show ?thesis by (simp add: send_fallback.simps)
  next
    case False
    obtain st1 s1 where next_piece: "(if cc_fd (ctx_of s (sr_ctx (as_req st))) \<ge> 0
        then send_next X st (take 15 msg) (length msg \<le> 15) s else (st, s)) = (st1, s1)" by fastforce
    then have "same_net s s1" using same_net_send_next [of s X st "take 15 msg" "length msg \<le> 15"] by (auto split: if_splits)
    moreover have "same_net s1 (snd (send_fallback X (drop 15 msg) st1 s1))"
      using "1.IH" [OF False next_piece [symmetric]] by simp
    ultimately show ?thesis using False next_piece by (subst send_fallback.simps) (auto intro: same_net_trans)
  qed
qed

lemma same_net_stream_end: "same_net s (stream_end X ok st s)"
proof -
  obtain st1 s1 where a: "(if ok then on_complete X st s else (st, s)) = (st1, s1)" by fastforce
  obtain st2 s2 where b: "(if \<not> ok \<and> \<not> as_conn_lost st1
      then send_fallback X (generate_fallback_response X (sv_wall s1) (sr_prompt (as_req st1))) st1 s1 else (st1, s1)) = (st2, s2)"
    by fastforce
  have "same_net s s1" using a same_net_on_complete [of s X st] by (auto split: if_splits)
  moreover have "same_net s1 s2"
    using b same_net_fallback [of s1 X "generate_fallback_response X (sv_wall s1) (sr_prompt (as_req st1))" st1]
    by (auto split: if_splits)
  ultimately show ?thesis
    using same_net_erase [of s2 "sr_ctx (as_req st2)"] by (simp add: stream_end_def stream_finish_def a b) (metis same_net_trans)
qed

lemma same_net_stream_steps:
  "same_net s (stream_chunk_step X i chunk s)" "same_net s (stream_end_step X i ok s)"
proof -
  show "same_net s (stream_chunk_step X i chunk s)"
    using same_net_on_chunk [of s X chunk "sv_streams s ! i"]
    by (auto simp: stream_chunk_step_def split: prod.split intro: same_net_trans [OF _ same_net_streams])
  show "same_net s (stream_end_step X i ok s)"
    using same_net_stream_end [of s X ok "sv_streams s ! i"]
    by (auto simp: stream_end_step_def Let_def intro: same_net_trans [OF _ same_net_streams])
qed

lemma frame_run_task: "frame (run_task X)"
proof (rule frame_state)
  fix s :: "('a, 'b) server"
  show "same_net s (snd (run_task X s))"
  proof (cases "take_task (sv_pool s)")
    case None
    then show ?thesis by (simp add: run_task_def)
  next
    case (Some tp)
    obtain t p where tp: "tp = (t, p)" by (cases tp)
    show ?thesis
    proof (cases t)
      case (TaskBusiness r hdr body)
      have "frame (threadP (process_business X r hdr body))" by (intro frame_intros)
      from frameD [OF this, of "s\<lparr>sv_pool := p\<rparr>"] show ?thesis
        using same_net_trans [OF same_net_tasks] by (simp add: run_task_def Some tp TaskBusiness)
    next
      case (TaskStream req)
      then show ?thesis
        by (auto simp: run_task_def Some tp stream_start_def
            intro: same_net_trans [OF same_net_tasks same_net_erase] same_net_trans [OF same_net_tasks same_net_streams])
    qed
  qed
qed

lemma frame_db_round: "frame (db_round X)"
  unfolding db_round_def has_db_def by (intro frame_intros)

section \<open>The invariant holds in every reachable state\<close>

lemma net_inv_initial: "initial s \<Longrightarrow> net_inv s"
  unfolding initial_def net_inv_def conn_inv_def wait_inv_def count_inv_def pools_inv_def timers_inv_def io_inv_def
    worker_timers_inv_def beats_def
  by (auto simp: waiting_def live_def timer_inv_new timer_entries_def new_timer_def timer_inv_def new_ClientContext_def)

lemma net_inv_exec:
  assumes "net_inv s" "enabled e s"
  shows "net_inv (snd (exec X e s))"
proof (cases e)
  case (Accept w fd ip port)
  then show ?thesis using assms by (simp add: net_inv_accept)
next
  case (SocketEvent w fd revents rs ws)
  then show ?thesis using assms(1) by (simp add: net_inv_handle_events)
next
  case (TimerCheck w)
  then show ?thesis using assms(1) by (simp add: net_inv_check_timer)
next
  case (SwapFunctors w)
  then show ?thesis using assms by (simp add: net_inv_swap)
next
  case (RunFunctor w)
  then show ?thesis using assms(1) by (simp add: net_inv_run_next)
next
  case RunTask
  then show ?thesis using net_inv_same [OF assms(1) frameD [OF frame_run_task]] by simp
next
  case Schedule
  then show ?thesis using net_inv_same [OF assms(1) same_net_schedule] by simp
next
  case (StreamChunk i chunk)
  then show ?thesis using net_inv_same [OF assms(1) same_net_stream_steps(1)] by simp
next
  case (StreamEnd i ok)
  then show ?thesis using net_inv_same [OF assms(1) same_net_stream_steps(2)] by simp
next
  case DbRound
  then show ?thesis using net_inv_same [OF assms(1) frameD [OF frame_db_round]] by simp
next
  case (Tick ms wall)
  then show ?thesis using net_inv_same [OF assms(1) same_net_clock] by simp
qed

lemma reach_net_inv: "reach X s \<Longrightarrow> net_inv s"
proof (induction rule: reach.induct)
  case (start s)
  then show ?case by (rule net_inv_initial)
next
  case (step s e s')
  then show ?case using net_inv_exec [of s e X] by simp
qed

section \<open>No descriptor is lost\<close>

text \<open>Every open socket has an owner: a connection, or a queued \<open>add_connection_in_loop\<close>.\<close>

definition open_inv :: "('t, 'm) server \<Rightarrow> bool" where
  "open_inv s \<longleftrightarrow> (\<forall>fd \<in> sv_open s. (\<exists>w. conns s w fd \<noteq> None) \<or> (\<exists>w. fd \<in> set (waiting s w)))"

lemma open_inv_cong:
  assumes "\<And>w. conns s' w = conns s w" "\<And>w. waiting s' w = waiting s w" "sv_open s' = sv_open s"
  shows "open_inv s' = open_inv s"
  unfolding open_inv_def assms ..

lemma open_inv_same: "same_net s s' \<Longrightarrow> open_inv s' = open_inv s"
  by (rule open_inv_cong) (simp_all add: same_net_def)

lemma open_inv_close:
  assumes "net_inv s" "open_inv s"
  shows "open_inv (force_close_in_loop w fd s)"
proof (cases "conns s w fd")
  case None
  then show ?thesis using assms(2) by (simp add: force_close_none)
next
  case (Some c)
  note conn = net_inv_conn [OF assms(1)]
  note d = conn_invD [OF conn Some]
  note sel = force_close_sel [OF Some d(2,1) refl]
  have "(\<exists>w'. conns (force_close_in_loop w fd s) w' x \<noteq> None) \<or> (\<exists>w'. x \<in> set (waiting s w'))"
    if x: "x \<in> sv_open s" "x \<noteq> fd" for x
  proof -
    consider w' where "conns s w' x \<noteq> None" | w' where "x \<in> set (waiting s w')"
      using assms(2) x(1) unfolding open_inv_def by blast
    then show ?thesis
    proof cases
      case 1
      then have "conns (force_close_in_loop w fd s) w' x \<noteq> None" using x(2) by (auto simp: sel)
      then show ?thesis by blast
    qed blast
  qed
  then show ?thesis unfolding open_inv_def by (simp add: sel waiting_close [OF conn])
qed

lemma open_inv_send: "open_inv (send w c data s) = open_inv s"
proof (rule open_inv_cong)
  show "conns (send w c data s) w' = conns s w'" for w'
    by (simp add: send_def Let_def queue_close_connection_def queue_in_loop_def update_event_def)
  show "waiting (send w c data s) w' = waiting s w'" for w'
    by (simp add: send_def Let_def queue_close_connection_def queue_in_loop_def update_event_def waiting_def)
  show "sv_open (send w c data s) = sv_open s"
    by (simp add: send_def Let_def queue_close_connection_def queue_in_loop_def update_event_def)
qed

lemma open_inv_handle_write:
  assumes "net_inv s" "open_inv s" "conns s w fd = Some c"
  shows "open_inv (handle_write w c ws s)"
proof -
  note d = conn_invD [OF net_inv_conn [OF assms(1)] assms(3)] and io = io_connD [OF assms(1,3)]
  obtain buf closed where out: "write_out ws (cc_send_buf (ctx_of s (tc_ctx c))) = (buf, closed)" by fastforce
  let ?s1 = "upd_ctx (tc_ctx c) (\<lambda>x. x\<lparr>cc_send_buf := buf\<rparr>) s"
  have o1: "open_inv ?s1" using assms(2) by (subst open_inv_cong [of _ s]) (simp_all add: waiting_def)
  have "closed \<Longrightarrow> net_inv ?s1"
  proof -
    assume closed
    then have ne: "buf \<noteq> []" using write_out_closed [of ws "cc_send_buf (ctx_of s (tc_ctx c))" buf] out by simp
    then have "cc_send_buf (ctx_of s (tc_ctx c)) \<noteq> []" using write_out_length [OF out] by auto
    moreover have "length buf \<le> MAX_SEND_BUF (sv_env s)" using write_out_length [OF out] io(1) by simp
    ultimately show ?thesis
      by (intro net_inv_output [OF assms(1,3)]) (use io ne in \<open>auto simp: waiting_def\<close>)
  qed
  then show ?thesis
    using o1 open_inv_close [of ?s1 w] open_inv_cong [of "update_event w (tc_fd c) read_events (upd_ctx (tc_ctx c) (\<lambda>x. x\<lparr>cc_writing := False\<rparr>) ?s1)" ?s1]
    by (auto simp: handle_write_effect out Let_def update_event_def waiting_def)
qed

lemma open_inv_read_socket:
  "net_inv s \<Longrightarrow> open_inv s \<Longrightarrow> conns s w fd = Some c \<Longrightarrow> read_socket w c rs s = (go_on, s') \<Longrightarrow> open_inv s'"
proof (induction w c rs s rule: read_socket.induct)
  case (3 w c rs s)
  then show ?case by (auto intro: open_inv_close)
next
  case (4 w c d rs s)
  have fd: "tc_fd c = fd" using conn_invD(1) [OF net_inv_conn [OF "4.prems"(1)] "4.prems"(3)] .
  let ?s1 = "start_heartbeat_timer w fd (upd_ctx (tc_ctx c) (\<lambda>x. update_time (sv_tick s div 1000) (x\<lparr>cc_recv_buf := cc_recv_buf x @ d\<rparr>)) s)"
  show ?case
  proof (cases "d = []")
    case True
    then show ?thesis using "4.prems" by (auto intro: open_inv_close)
  next
    case False
    have "open_inv ?s1" using "4.prems"(2) by (subst open_inv_cong [of _ s]) (simp_all add: waiting_def)
    then show ?thesis
      using "4.IH" [OF False] "4.prems" net_inv_touch [OF "4.prems"(1,3) refl, of "\<lambda>x. cc_recv_buf x @ d"] fd False by simp
  qed
qed simp_all

lemma open_inv_handle_read:
  assumes "net_inv s" "open_inv s" "conns s w fd = Some c"
  shows "open_inv (handle_read w c rs s)"
proof -
  obtain go_on s1 where rd: "read_socket w c rs s = (go_on, s1)" by fastforce
  have s1: "net_inv s1" "open_inv s1" using read_socket_inv [OF assms(1,3) rd] open_inv_read_socket [OF assms rd] by simp_all
  obtain ps rest ok where run: "read_packets (cc_recv_buf (ctx_of s1 (tc_ctx c))) = (ps, rest, ok)"
    by (cases "read_packets (cc_recv_buf (ctx_of s1 (tc_ctx c)))") auto
  have same: "same_net s1 (fold (\<lambda>(hdr, body). enqueue_task (TaskBusiness (tc_ctx c) hdr body)) ps
      (upd_ctx (tc_ctx c) (\<lambda>x. x\<lparr>cc_recv_buf := rest\<rparr>) s1))"
    by (rule same_net_trans [OF same_net_recv [where f = "\<lambda>_. rest"]], rule same_net_fold)
      (simp add: case_prod_unfold same_net_enqueue)
  show ?thesis
    using s1 open_inv_same [OF same] open_inv_close [OF net_inv_same [OF s1(1) same], of w]
    by (auto simp: handle_read_def rd take_packets_def run Let_def)
qed

lemma open_inv_handle_events:
  "net_inv s \<Longrightarrow> open_inv s \<Longrightarrow> open_inv (snd (handle_events w fd revents rs ws s))"
  by (auto simp: handle_events_def run_seqP open_inv_close open_inv_handle_read open_inv_handle_write
      net_inv_handle_read split: option.split)

lemma open_inv_run_next:
  assumes inv: "net_inv s" "open_inv s"
  shows "open_inv (run_next_functor w s)"
proof (cases "w_running (sv_worker s w)")
  case Nil
  then show ?thesis using inv by (simp add: run_next_functor_def)
next
  case (Cons f fs)
  let ?s = "upd_worker w (\<lambda>wk. wk\<lparr>w_running := fs\<rparr>) s"
  note pop = net_inv_pop [OF inv(1) Cons]
  show ?thesis
  proof (cases f)
    case (FnAddConn fd ip port)
    have wait: "wait_inv s" using inv(1) by (simp add: net_inv_def)
    note head = waiting_head [OF wait Cons [unfolded FnAddConn]]
    obtain r p h where acq: "acquire (w_pool (sv_worker ?s w)) (sv_heap ?s) = (r, p, h)"
      by (cases "acquire (w_pool (sv_worker ?s w)) (sv_heap ?s)") auto
    have free: "conns ?s w fd = None" using head(3) by simp
    obtain s0 where s0: "add_connection_in_loop w fd ip port ?s = start_heartbeat_timer w fd s0" "sv_open s0 = sv_open ?s"
      "\<And>w'. conns s0 w' = (if w' = w then (conns ?s w)(fd \<mapsto> \<lparr>tc_fd = fd, tc_ip = ip, tc_port = port, tc_ctx = r, tc_closed = False\<rparr>) else conns ?s w')"
      "\<And>w'. waiting s0 w' = waiting ?s w'"
      by (rule add_connection_sel [OF acq free refl, of ip port]) blast
    have w: "set (waiting s w') \<subseteq> insert fd (set (waiting ?s w'))" for w' by (auto simp: waiting_def Cons FnAddConn)
    have "(\<exists>w'. conns s0 w' x \<noteq> None) \<or> (\<exists>w'. x \<in> set (waiting ?s w'))" if "x \<in> sv_open s" for x
      using inv(2) that w unfolding open_inv_def s0(3) by (fastforce split: if_splits)
    moreover have "waiting (start_heartbeat_timer w fd s0) w' = waiting s0 w'" for w' by (simp add: waiting_def)
    ultimately have "open_inv (start_heartbeat_timer w fd s0)" unfolding open_inv_def by (simp add: s0(2,4))
    then show ?thesis by (simp add: run_next_functor_def Cons FnAddConn s0(1))
  next
    case (FnSendPacket r c n b)
    then have "open_inv ?s" using inv(2) by (subst open_inv_cong [of _ s]) (simp_all add: waiting_def Cons)
    then show ?thesis
      by (auto simp: run_next_functor_def Cons FnSendPacket send_packet_in_loop_def Let_def open_inv_send split: option.split)
  next
    case (FnClose fd)
    then have "open_inv ?s" using inv(2) by (subst open_inv_cong [of _ s]) (simp_all add: waiting_def Cons)
    then show ?thesis using open_inv_close [OF pop] by (simp add: run_next_functor_def Cons FnClose)
  qed
qed

lemma open_inv_exec:
  assumes "net_inv s" "open_inv s" "enabled e s"
  shows "open_inv (snd (exec X e s))"
proof (cases e)
  case (Accept w fd ip port)
  let ?s = "queue_add_connection w fd ip port (s\<lparr>sv_open := insert fd (sv_open s)\<rparr>)"
  have sub: "set (waiting s w') \<subseteq> set (waiting ?s w')" "fd \<in> set (waiting ?s w)" for w'
    by (auto simp: waiting_def queue_add_connection_def queue_in_loop_def)
  have same: "conns ?s w' = conns s w'" "sv_open ?s = insert fd (sv_open s)" for w'
    by (simp_all add: queue_add_connection_def queue_in_loop_def)
  have "open_inv ?s" using assms(2) sub unfolding open_inv_def same by blast
  then show ?thesis by (simp add: Accept)
next
  case (SocketEvent w fd revents rs ws)
  then show ?thesis using assms by (simp add: open_inv_handle_events)
next
  case (TimerCheck w)
  have "open_inv (force_close_in_loop w fd (upd_worker w (\<lambda>wk. wk\<lparr>w_timer := t\<rparr>) s))" for fd t
  proof (cases "conns s w fd")
    case None
    then show ?thesis using assms(2) open_inv_cong [of "upd_worker w (\<lambda>wk. wk\<lparr>w_timer := t\<rparr>) s" s]
      by (simp add: force_close_none waiting_def)
  next
    case (Some c)
    let ?s = "upd_worker w (\<lambda>wk. wk\<lparr>w_timer := t\<rparr>) s"
    note d = conn_invD [OF net_inv_conn [OF assms(1)] Some]
    have c: "conns ?s w fd = Some c" using Some by simp
    note sel = force_close_sel [OF c d(2,1) refl] force_close_sel [OF Some d(2,1) refl]
    have "waiting (force_close_in_loop w fd ?s) w' = waiting (force_close_in_loop w fd s) w'" for w'
      by (simp add: waiting_def sel)
    then show ?thesis
      using open_inv_close [OF assms(1,2), of w fd] by (subst open_inv_cong [of _ "force_close_in_loop w fd s"]) (simp_all add: sel)
  qed
  then show ?thesis using assms(2) by (auto simp: TimerCheck check_timer_def split: option.split)
next
  case (SwapFunctors w)
  then have "waiting (swap_functors w s) w' = waiting s w'" for w'
    using assms(3) by (simp add: waiting_def swap_functors_def)
  then show ?thesis using assms(2) SwapFunctors
    by (simp, subst open_inv_cong [of _ s]) (simp_all add: swap_functors_def)
next
  case (RunFunctor w)
  then show ?thesis using assms by (simp add: open_inv_run_next)
next
  case RunTask
  then show ?thesis using assms(2) by (simp add: open_inv_same [OF frameD [OF frame_run_task]])
next
  case Schedule
  then show ?thesis using assms(2) by (simp add: open_inv_same [OF same_net_schedule])
next
  case (StreamChunk i chunk)
  then show ?thesis using assms(2) by (simp add: open_inv_same [OF same_net_stream_steps(1)])
next
  case (StreamEnd i ok)
  then show ?thesis using assms(2) by (simp add: open_inv_same [OF same_net_stream_steps(2)])
next
  case DbRound
  then show ?thesis using assms(2) by (simp add: open_inv_same [OF frameD [OF frame_db_round]])
next
  case (Tick ms wall)
  then show ?thesis using assms(2) by (simp add: open_inv_same [OF same_net_clock])
qed

lemma reach_open_inv: "reach X s \<Longrightarrow> open_inv s"
proof (induction rule: reach.induct)
  case (start s)
  then show ?case by (simp add: initial_def open_inv_def)
next
  case (step s e s')
  then show ?case using open_inv_exec [OF reach_net_inv [OF step.hyps(1)] step.IH step.hyps(2), of X] by simp
qed

end
