(* ===== verification/Boot.thy ===== *)
theory Boot
  imports System
begin

text \<open>
  The start of the server, \<open>main\<close> of \<open>src/main.cpp\<close> up to its loop, with the constructors of \<open>Worker\<close> and
  \<open>StreamingAIManager\<close>; and the round robin over the workers in its loop.
\<close>

section \<open>Construction\<close>

definition new_worker :: "context_pool \<Rightarrow> worker" where
  "new_worker p = \<lparr>w_pool = p, w_connections = Map.empty, w_timer = new_timer, w_heartbeat = Map.empty,
     w_pending = [], w_running = [], w_epoll = Map.empty\<rparr>"

definition empty_heap :: ctx_heap where
  "empty_heap = \<lparr>hp = (\<lambda>_. new_ClientContext), hp_next = 0\<rparr>"

text \<open>The loop that makes \<open>n\<close> workers; there is nothing at the other indices.\<close>

primrec make_workers :: "nat \<Rightarrow> nat \<Rightarrow> ctx_heap \<Rightarrow> (nat \<Rightarrow> worker) \<times> ctx_heap" where
  "make_workers 0 sz h = (\<lambda>_. new_worker \<lparr>storage = [], free_list = []\<rparr>, h)"
| "make_workers (Suc n) sz h = (case make_workers n sz h of (ws, h1) \<Rightarrow>
     (case ContextPool sz n h1 of (p, h2) \<Rightarrow> (ws(n := new_worker p), h2)))"

text \<open>\<open>size_t\<close> from an \<open>int\<close> setting.\<close>

definition size_of_int :: "int \<Rightarrow> nat" where
  "size_of_int i = unat (word_of_int i :: 64 word)"

definition new_StreamingAIManager :: "int \<Rightarrow> ai_manager" where
  "new_StreamingAIManager max_conc = \<lparr>pending_requests = [], active_streams = [], max_concurrent = size_of_int max_conc\<rparr>"

definition boot :: "env \<Rightarrow> nat \<Rightarrow> int \<Rightarrow> int \<Rightarrow> ('t, 'm) db \<Rightarrow> ('t, 'm) server" where
  "boot env hw tick wall db =
     (case make_workers (nat (WORKER_NUM hw env)) (POOL_SIZE env) empty_heap of (ws, h) \<Rightarrow>
       \<lparr>sv_env = env, sv_tick = tick, sv_wall = wall, sv_open = {}, sv_heap = h, sv_worker = ws,
        sv_sessions = no_sessions, sv_pool = new_pool, sv_db = Some db,
        sv_ai = new_StreamingAIManager (AI_MAX_CONCURRENT env),
        sv_streams = [], sv_conn_count = 0\<rparr>)"

text \<open>
  \<open>workers[rr++ % worker_num]\<close> with a 32-bit counter: the worker and the next counter, or a division by
  zero.
\<close>

definition pick_worker :: "u32 \<Rightarrow> int \<Rightarrow> crash + (nat \<times> u32)" where
  "pick_worker rr worker_num =
     (let n = (word_of_int worker_num :: u32) in
      if n = 0 then Inl DivideByZero else Inr (unat (rr mod n), rr + 1))"

section \<open>The constructed state is an initial state\<close>

definition clean_ctx :: "ClientContext \<Rightarrow> bool" where
  "clean_ctx c \<longleftrightarrow> cc_fd c = -1 \<and> cc_send_buf c = [] \<and> \<not> cc_writing c"

definition worker_ok :: "ctx_heap \<Rightarrow> nat \<Rightarrow> worker \<Rightarrow> bool" where
  "worker_ok h w wk \<longleftrightarrow> wk = new_worker (w_pool wk) \<and> distinct (storage (w_pool wk)) \<and>
     free_list (w_pool wk) = [0..<length (storage (w_pool wk))] \<and>
     (\<forall>i < length (storage (w_pool wk)). storage (w_pool wk) ! i < hp_next h \<and>
        hp h (storage (w_pool wk) ! i) = new_ClientContext\<lparr>cc_owner_worker := Some w, cc_pool_idx := int i\<rparr>)"

lemma worker_ok_grow:
  assumes "worker_ok h w wk" "hp_next h \<le> hp_next h'" "\<And>r. r < hp_next h \<Longrightarrow> hp h' r = hp h r"
  shows "worker_ok h' w wk"
  using assms(1) unfolding worker_ok_def by (simp add: assms(3) less_le_trans [OF _ assms(2)])

lemma w_pool_new_worker [simp]: "w_pool (new_worker p) = p"
  by (simp add: new_worker_def)

lemma clean_new [simp]: "clean_ctx new_ClientContext" "clean_ctx (new_ClientContext\<lparr>cc_owner_worker := o1, cc_pool_idx := i\<rparr>)"
  by (simp_all add: clean_ctx_def new_ClientContext_def)

lemma ContextPool_above: "ContextPool n w h = (p, h') \<Longrightarrow> hp_next h' \<le> r \<Longrightarrow> hp h' r = hp h r"
proof (induction n arbitrary: p h')
  case (Suc n)
  obtain p1 h1 where "ContextPool n w h = (p1, h1)" by fastforce
  with Suc show ?case by (auto simp: make_shared_def)
qed simp

lemma make_workers_ok:
  assumes "make_workers n sz empty_heap = (ws, h)"
  shows "(\<forall>w. worker_ok h w (ws w)) \<and> (\<forall>r. clean_ctx (hp h r)) \<and> (\<forall>r \<ge> hp_next h. hp h r = new_ClientContext)"
  using assms
proof (induction n arbitrary: ws h)
  case 0
  then show ?case by (auto simp: worker_ok_def empty_heap_def)
next
  case (Suc n)
  obtain ws1 h1 where w1: "make_workers n sz empty_heap = (ws1, h1)" by fastforce
  obtain p h2 where p: "ContextPool sz n h1 = (p, h2)" by fastforce
  have eq: "ws = ws1(n := new_worker p)" "h = h2" using Suc.prems by (simp_all add: w1 p)
  note IH = Suc.IH [OF w1] and props = ContextPool_props [OF p]
  have "worker_ok h2 n (new_worker p)" using props by (auto simp: worker_ok_def)
  moreover have "worker_ok h2 w (ws1 w)" for w
  proof (rule worker_ok_grow [of h1])
    show "worker_ok h1 w (ws1 w)" using IH by blast
  qed (use props in simp_all)
  moreover have "clean_ctx (hp h2 r)" "hp_next h2 \<le> r \<Longrightarrow> hp h2 r = new_ClientContext" for r
  proof -
    have above: "hp h2 r = new_ClientContext" if "hp_next h2 \<le> r" for r
      using ContextPool_above [OF p that] IH props that by simp
    then show "hp_next h2 \<le> r \<Longrightarrow> hp h2 r = new_ClientContext" .
    show "clean_ctx (hp h2 r)"
    proof (cases "r < hp_next h1")
      case True
      then show ?thesis using IH props by simp
    next
      case False
      show ?thesis
      proof (cases "r < hp_next h2")
        case True
        then obtain i where "r = hp_next h1 + i" "i < sz" using props False by (metis add_less_cancel_left le_Suc_ex linorder_not_less)
        then show ?thesis using props by simp
      next
        case False
        then show ?thesis using above [of r] by simp
      qed
    qed
  qed
  ultimately show ?case by (simp add: eq)
qed

lemma boot_initial: "initial (boot env hw tick wall db)"
proof -
  obtain ws h where mk: "make_workers (nat (WORKER_NUM hw env)) (POOL_SIZE env) empty_heap = (ws, h)" by fastforce
  note ok = make_workers_ok [OF mk]
  have new: "ws w = new_worker (w_pool (ws w))" "distinct (storage (w_pool (ws w)))"
    "free_list (w_pool (ws w)) = [0..<length (storage (w_pool (ws w)))]"
    "\<forall>i < length (storage (w_pool (ws w))). storage (w_pool (ws w)) ! i < hp_next h \<and>
        hp h (storage (w_pool (ws w)) ! i) = new_ClientContext\<lparr>cc_owner_worker := Some w, cc_pool_idx := int i\<rparr>" for w
    using ok unfolding worker_ok_def by blast+
  have "w_connections (ws w) = Map.empty \<and> w_timer (ws w) = new_timer \<and> w_heartbeat (ws w) = Map.empty \<and>
      w_pending (ws w) = [] \<and> w_running (ws w) = [] \<and> w_epoll (ws w) = Map.empty" for w
    by (subst (1 2 3 4 5 6) new(1)) (simp add: new_worker_def)
  moreover have "cc_fd (hp h r) = -1 \<and> cc_send_buf (hp h r) = [] \<and> \<not> cc_writing (hp h r)" for r
    using ok by (simp add: clean_ctx_def)
  ultimately show ?thesis using new(2,3,4) by (simp add: initial_def boot_def new_StreamingAIManager_def mk)
qed

end
