(* ===== verification/Demo.thy ===== *)
theory Demo
  imports Boot Db_Correct
begin

unbundle bit_operations_syntax

text \<open>
  Concrete servers on which the witnesses evaluate the model: a server with two workers whose pools hold one
  context each, started on the empty file storage, and the same server after one client and then another
  connected to worker 0. The second client finds the pool exhausted.
\<close>

section \<open>Accepting a client\<close>

definition admit :: "nat \<Rightarrow> int \<Rightarrow> ('t, 'm) server \<Rightarrow> ('t, 'm) server" where
  "admit w fd s = run_next_functor w (swap_functors w (queue_add_connection w fd ''10.0.0.1'' 4000
     (s\<lparr>sv_open := insert fd (sv_open s)\<rparr>)))"

lemma reach_step:
  assumes "reach X s" "enabled e s" "exec X e s = (Val (), s')"
  shows "reach X s'"
  using assms by (rule reach.step)

lemma reach_admit:
  assumes "reach X s" "0 \<le> fd" "fd \<notin> sv_open s" "w_running (sv_worker s w) = []"
  shows "reach X (admit w fd s)"
proof -
  let ?s1 = "queue_add_connection w fd ''10.0.0.1'' 4000 (s\<lparr>sv_open := insert fd (sv_open s)\<rparr>)"
  have "reach X ?s1" using reach_step [OF assms(1), of "Accept w fd ''10.0.0.1'' 4000"] assms(2,3) by simp
  moreover have "w_running (sv_worker ?s1 w) = []" using assms(4) by (simp add: queue_add_connection_def queue_in_loop_def)
  ultimately have "reach X (swap_functors w ?s1)" using reach_step [of X ?s1 "SwapFunctors w"] by simp
  then show ?thesis using reach_step [of X _ "RunFunctor w"] by (simp add: admit_def)
qed

definition demo_env :: env where
  "demo_env = [''IM_WORKER'' \<mapsto> ''2'', ''IM_POOL_SIZE'' \<mapsto> ''1'']"

definition demo_boot :: "(json, unit) server" where
  "demo_boot = boot demo_env 0 5000 0 fresh_db"

definition demo_one :: "(json, unit) server" where
  "demo_one = admit 0 5 demo_boot"

definition demo_two :: "(json, unit) server" where
  "demo_two = admit 0 6 demo_one"

lemmas setting_defs = WORKER_NUM_def POOL_SIZE_def HEARTBEAT_SEC_def AI_MAX_CONCURRENT_def MAX_SEND_BUF_def
  RATE_LIMIT_MSGS_def RATE_LIMIT_WINDOW_def getenv_i32_def getenv_u32_def

lemma demo_numbers: "from_chars True INT_MIN INT_MAX ''2'' = (EcOk, 2, [])" "from_chars False 0 UINT_MAX ''1'' = (EcOk, 1, [])"
  by (simp_all add: from_chars_def is_digit_def dec_value_def digit_val_def INT_MIN_def INT_MAX_def UINT_MAX_def)

lemma demo_settings:
  "WORKER_NUM 0 demo_env = 2" "POOL_SIZE demo_env = 1" "HEARTBEAT_SEC demo_env = 60" "AI_MAX_CONCURRENT demo_env = 20"
  "MAX_SEND_BUF demo_env = 5242880" "RATE_LIMIT_MSGS demo_env = 20" "RATE_LIMIT_WINDOW demo_env = 1"
  by (simp_all add: setting_defs demo_env_def demo_numbers)

lemma size_of_20: "size_of_int 20 = 20"
  by (simp add: size_of_int_def)

lemma demo_boot_eval:
  "demo_boot = \<lparr>sv_env = demo_env, sv_tick = 5000, sv_wall = 0, sv_open = {},
     sv_heap = \<lparr>hp = (\<lambda>_. new_ClientContext)
       (0 := new_ClientContext\<lparr>cc_owner_worker := Some 0, cc_pool_idx := 0\<rparr>,
        1 := new_ClientContext\<lparr>cc_owner_worker := Some 1, cc_pool_idx := 0\<rparr>), hp_next = 2\<rparr>,
     sv_worker = (\<lambda>_. new_worker \<lparr>storage = [], free_list = []\<rparr>)
       (0 := new_worker \<lparr>storage = [0], free_list = [0]\<rparr>, 1 := new_worker \<lparr>storage = [1], free_list = [0]\<rparr>),
     sv_sessions = no_sessions, sv_pool = new_pool, sv_db = Some fresh_db,
     sv_ai = \<lparr>pending_requests = [], active_streams = [], max_concurrent = 20\<rparr>, sv_streams = [], sv_conn_count = 0\<rparr>"
  by (simp add: demo_boot_def boot_def new_StreamingAIManager_def demo_settings numeral_2_eq_2 make_shared_def empty_heap_def size_of_20)

lemma reach_demo_boot: "reach X demo_boot"
  by (simp add: demo_boot_def reach.start boot_initial)

lemma reach_demo_one: "reach X demo_one"
  unfolding demo_one_def by (rule reach_admit [OF reach_demo_boot]) (simp_all add: demo_boot_eval new_worker_def)

lemmas admit_defs = admit_def run_next_functor_def swap_functors_def queue_add_connection_def queue_in_loop_def
  add_connection_in_loop_def new_TcpConnection_def acquire_def conn_start_def start_heartbeat_timer_def
  cancel_heartbeat_timer_def AddTimer_def Let_def make_shared_def

definition demo_conn :: "int \<Rightarrow> ctx_ref \<Rightarrow> TcpConnection" where
  "demo_conn fd r = \<lparr>tc_fd = fd, tc_ip = ''10.0.0.1'', tc_port = 4000, tc_ctx = r, tc_closed = False\<rparr>"

lemma demo_one_eval:
  "demo_one = \<lparr>sv_env = demo_env, sv_tick = 5000, sv_wall = 0, sv_open = {5},
     sv_heap = \<lparr>hp = (\<lambda>_. new_ClientContext)
       (Suc 0 := new_ClientContext\<lparr>cc_owner_worker := Some (Suc 0), cc_pool_idx := 0\<rparr>,
        0 := new_ClientContext\<lparr>cc_owner_worker := Some 0, cc_pool_idx := 0, cc_fd := 5, cc_last_active := 5\<rparr>), hp_next = 2\<rparr>,
     sv_worker = (\<lambda>_. new_worker \<lparr>storage = [], free_list = []\<rparr>)
       (Suc 0 := new_worker \<lparr>storage = [Suc 0], free_list = [0]\<rparr>,
        0 := \<lparr>w_pool = \<lparr>storage = [0], free_list = []\<rparr>, w_connections = [5 \<mapsto> demo_conn 5 0],
          w_timer = \<lparr>gid = 1, timermap = [(TimerNodeBase 65000 1, 5)]\<rparr>, w_heartbeat = [5 \<mapsto> TimerNodeBase 65000 1],
          w_pending = [], w_running = [], w_epoll = [5 \<mapsto> EPOLLIN OR EPOLLRDHUP OR EPOLLET]\<rparr>),
     sv_sessions = no_sessions, sv_pool = new_pool, sv_db = Some fresh_db,
     sv_ai = \<lparr>pending_requests = [], active_streams = [], max_concurrent = 20\<rparr>, sv_streams = [], sv_conn_count = 1\<rparr>"
  by (simp add: demo_one_def admit_defs demo_boot_eval new_worker_def new_timer_def demo_settings upd_worker_def
      upd_ctx_def heap_upd_def update_time_def demo_conn_def)

lemma reach_demo_two: "reach X demo_two"
  unfolding demo_two_def by (rule reach_admit [OF reach_demo_one]) (simp_all add: demo_one_eval new_worker_def)

text \<open>The context of the second client is not a place of the pool and has no owner.\<close>

lemma demo_two_second: "conns demo_two 0 6 = Some (demo_conn 6 2)" "cc_owner_worker (ctx_of demo_two 2) = None"
  "cc_fd (ctx_of demo_two 2) = 6"
  by (simp_all add: demo_two_def admit_defs demo_one_eval demo_settings upd_worker_def
      upd_ctx_def heap_upd_def update_time_def demo_conn_def new_ClientContext_def)

section \<open>A client asks for a sign of life\<close>

definition ping :: string where
  "ping = make_packet (cmd_code HEARTBEAT) 7 []"

definition ping_hdr :: PacketHeader where
  "ping_hdr = \<lparr>magic = PROTO_MAGIC, body_len = 0, cmd = cmd_code HEARTBEAT, seq = 7\<rparr>"

lemma read_ping: "read_packets ping = ([(ping_hdr, [])], [], True)"
  using read_packets_wire [of "[(cmd_code HEARTBEAT, 7, [])]"] by (simp add: wire_def received_def ping_def ping_hdr_def)

lemma ping_not_Nil [simp]: "ping \<noteq> []"
  by (simp add: ping_def)

lemma length_make_packet [simp]: "length (make_packet c n b) = 16 + length b"
  by (simp add: make_packet_def)

lemmas event_bits = EPOLLIN_def EPOLLHUP_def EPOLLERR_def EPOLLRDHUP_def EPOLLOUT_def EPOLLET_def

lemmas step_defs = handle_events_def handle_read_def take_packets_def start_heartbeat_timer_def cancel_heartbeat_timer_def
  upd_worker_def upd_ctx_def heap_upd_def update_time_def Let_def DelTimer_def AddTimer_def enqueue_task_def enqueue_def
  run_seqP run_bindP run_catchP run_task_def take_task_def thread_step_def threadP_def process_business_def handle_command_def
  swap_functors_def run_next_functor_def send_to_def queue_send_packet_def queue_in_loop_def send_response_def
  send_packet_in_loop_def send_def update_event_def

definition demo_ping :: "event list" where
  "demo_ping = [SocketEvent 0 5 EPOLLIN [RData ping, RAgain] [], RunTask, SwapFunctors 0, RunFunctor 0]"

definition demo_pong :: "(json, unit) server" where
  "demo_pong = the (runs externals_ref demo_ping demo_one)"

lemma demo_pong_eval:
  "runs externals_ref demo_ping demo_one = Some demo_pong" "conns demo_pong 0 = [5 \<mapsto> demo_conn 5 0]"
  "w_epoll (sv_worker demo_pong 0) = [5 \<mapsto> EPOLLIN OR EPOLLRDHUP OR EPOLLET OR EPOLLOUT]" "w_running (sv_worker demo_pong 0) = []"
  "cc_recv_buf (ctx_of demo_pong 0) = []" "cc_send_buf (ctx_of demo_pong 0) = make_packet 3 7 ''PONG''"
proof -
  have "\<exists>s. runs externals_ref demo_ping demo_one = Some s \<and> conns s 0 = [5 \<mapsto> demo_conn 5 0] \<and>
      w_epoll (sv_worker s 0) = [5 \<mapsto> EPOLLIN OR EPOLLRDHUP OR EPOLLET OR EPOLLOUT] \<and> w_running (sv_worker s 0) = [] \<and>
      cc_recv_buf (ctx_of s 0) = [] \<and> cc_send_buf (ctx_of s 0) = make_packet 3 7 ''PONG''"
    by (simp add: demo_ping_def demo_one_eval step_defs event_bits demo_conn_def new_ClientContext_def read_ping new_pool_def
        demo_settings ping_hdr_def handle_heartbeat_def uid_of_def success_def new_Response_def codec_ref_def)
  then show "runs externals_ref demo_ping demo_one = Some demo_pong" "conns demo_pong 0 = [5 \<mapsto> demo_conn 5 0]"
    "w_epoll (sv_worker demo_pong 0) = [5 \<mapsto> EPOLLIN OR EPOLLRDHUP OR EPOLLET OR EPOLLOUT]" "w_running (sv_worker demo_pong 0) = []"
    "cc_recv_buf (ctx_of demo_pong 0) = []" "cc_send_buf (ctx_of demo_pong 0) = make_packet 3 7 ''PONG''"
    by (auto simp: demo_pong_def)
qed

lemma reach_demo_pong: "reach externals_ref demo_pong"
  by (rule reach_runs [OF demo_pong_eval(1) reach_demo_one])

end
