(* ===== verification/Connections.thy ===== *)
theory Connections
  imports Demo
begin

text \<open>
  What holds of the connections in every state that the server can reach, whatever the threads, the clients
  and the kernel do in whatever order: the invariant of \<open>Server_Inv\<close> spelled out, the loop over the heartbeat
  timers, and the one way in which handling an event goes wrong.
\<close>

unbundle bit_operations_syntax

section \<open>Descriptors, contexts, output\<close>

text \<open>
  C5. The connection counter \<open>g_conn_count\<close> is exact: in every reachable state it is the number of connections
  that the workers hold, and every socket that is open is either held by exactly one worker as a
  connection or waits for exactly one worker, never both; so no descriptor leaks and none is
  shared.
\<close>

theorem connections_accounted:
  assumes "reach X s"
  shows "finite (live s) \<and> sv_conn_count s = int (card (live s)) \<and>
    (fd \<in> sv_open s \<longleftrightarrow> (\<exists>w. conns s w fd \<noteq> None \<or> fd \<in> set (waiting s w))) \<and>
    (conns s w fd \<noteq> None \<or> fd \<in> set (waiting s w) \<longrightarrow> conns s w' fd \<noteq> None \<or> fd \<in> set (waiting s w') \<longrightarrow> w = w') \<and>
    (conns s w fd \<noteq> None \<longrightarrow> fd \<notin> set (waiting s w'))"
proof -
  have inv: "conn_inv s" "wait_inv s" "count_inv s" using reach_net_inv [OF assms] by (simp_all add: net_inv_def)
  have owner: "fd \<in> sv_open s" if "conns s w fd \<noteq> None \<or> fd \<in> set (waiting s w)" for w
    using that conn_invD(4) [OF inv(1)] inv(2) unfolding wait_inv_def by blast
  have "fd \<notin> set (waiting s w')" if "conns s w fd \<noteq> None" for w w' using that inv(2) unfolding wait_inv_def by auto
  moreover have "w = w'" if "conns s w fd \<noteq> None" "conns s w' fd \<noteq> None"
    using that inv(1) unfolding conn_inv_def by blast
  moreover have "w = w'" if "fd \<in> set (waiting s w)" "fd \<in> set (waiting s w')"
    using that inv(2) unfolding wait_inv_def by blast
  ultimately show ?thesis
    using inv(3) owner reach_open_inv [OF assms] unfolding count_inv_def open_inv_def by blast
qed

theorem connections_accounted_witness: "sv_conn_count demo_one = 1 \<and> card (live demo_one) = 1"
  using connections_accounted [OF reach_demo_one] by (simp add: demo_one_eval)

text \<open>
  C8. Contexts are exclusive: two connections never share a context; a context of a connection says which descriptor it
  serves, and a context that no connection holds, in a pool or not, says -1; a connection's context belongs to the worker that
  holds the connection or was made because that worker's pool was empty, and no free place of any pool is
  in use.
\<close>

theorem contexts_exclusive:
  assumes "reach X s" "conns s w fd = Some c"
  shows "(conns s w' fd' = Some c' \<longrightarrow> tc_ctx c' = tc_ctx c \<longrightarrow> w' = w \<and> fd' = fd) \<and>
    cc_fd (ctx_of s (tc_ctx c)) = fd \<and>
    (\<forall>r. cc_fd (ctx_of s r) \<noteq> -1 \<longleftrightarrow> (\<exists>v fdv cv. conns s v fdv = Some cv \<and> tc_ctx cv = r)) \<and>
    (cc_owner_worker (ctx_of s (tc_ctx c)) = Some w \<or>
     cc_owner_worker (ctx_of s (tc_ctx c)) = None \<and> cc_pool_idx (ctx_of s (tc_ctx c)) = -1) \<and>
    (i \<in> set (free_list (w_pool (sv_worker s w'))) \<longrightarrow> storage (w_pool (sv_worker s w')) ! i \<noteq> tc_ctx c)"
proof -
  have inv: "conn_inv s" "pools_inv s" using reach_net_inv [OF assms(1)] by (simp_all add: net_inv_def)
  have fd: "0 \<le> fd" "cc_fd (ctx_of s (tc_ctx c)) = fd" using conn_invD [OF inv(1) assms(2)] by simp_all
  have "cc_fd (ctx_of s (storage (w_pool (sv_worker s w')) ! i)) = -1" if "i \<in> set (free_list (w_pool (sv_worker s w')))"
    using that inv(2) unfolding pools_inv_def by blast
  then have "storage (w_pool (sv_worker s w')) ! i \<noteq> tc_ctx c" if "i \<in> set (free_list (w_pool (sv_worker s w')))"
    using that fd by auto
  moreover have "cc_owner_worker (ctx_of s (tc_ctx c)) = Some w \<or>
     cc_owner_worker (ctx_of s (tc_ctx c)) = None \<and> cc_pool_idx (ctx_of s (tc_ctx c)) = -1"
    using conn_ctx_cases [OF inv assms(2)] by metis
  moreover have "w' = w \<and> fd' = fd" if "conns s w' fd' = Some c'" "tc_ctx c' = tc_ctx c"
    using conn_ctx_unique [OF inv(1)] that assms(2) by metis
  moreover have "cc_fd (ctx_of s r) \<noteq> -1 \<longleftrightarrow> (\<exists>v fdv cv. conns s v fdv = Some cv \<and> tc_ctx cv = r)" for r
    using inv(1) conn_invD(3,6) [OF inv(1)] unfolding conn_inv_def by fastforce
  ultimately show ?thesis using fd by blast
qed

theorem contexts_exclusive_witness:
  "cc_owner_worker (ctx_of demo_two 2) = None \<and> cc_pool_idx (ctx_of demo_two 2) = -1 \<and> cc_fd (ctx_of demo_two 2) = 6"
  using contexts_exclusive [OF reach_demo_two demo_two_second(1), where w' = 0 and fd' = 6 and c' = "demo_conn 6 2" and i = 0]
    demo_two_second by (simp add: demo_conn_def)

text \<open>
  C20. Output is bounded and never stalls unnoticed: in every reachable state a connection has at most
  \<open>MAX_SEND_BUF\<close> bytes to send, and its worker's epoll instance watches it for writing exactly when there are
  any.
\<close>

theorem output_bounded_and_armed:
  assumes "reach X s" "conns s w fd = Some c"
  shows "length (cc_send_buf (ctx_of s (tc_ctx c))) \<le> MAX_SEND_BUF (sv_env s) \<and>
    (\<exists>evs. w_epoll (sv_worker s w) fd = Some evs \<and> evs AND EPOLLIN \<noteq> 0 \<and>
       (evs AND EPOLLOUT \<noteq> 0 \<longleftrightarrow> cc_send_buf (ctx_of s (tc_ctx c)) \<noteq> []))"
proof -
  note io = io_connD [OF reach_net_inv [OF assms(1)] assms(2)]
  have "read_events AND EPOLLOUT = 0" "(read_events OR EPOLLOUT) AND EPOLLOUT \<noteq> 0" "read_events AND EPOLLIN \<noteq> 0"
    "(read_events OR EPOLLOUT) AND EPOLLIN \<noteq> 0"
    by (simp_all add: read_events_def EPOLLIN_def EPOLLRDHUP_def EPOLLET_def EPOLLOUT_def)
  then show ?thesis using io by auto
qed

theorem output_bounded_and_armed_witness: "length (cc_send_buf (ctx_of demo_one 0)) \<le> 5242880"
  using output_bounded_and_armed [OF reach_demo_one, of 0 5 "demo_conn 5 0"]
  by (simp add: demo_one_eval demo_settings demo_conn_def)

section \<open>Heartbeats\<close>

text \<open>The connections of a worker whose heartbeat timer has run out.\<close>

definition overdue :: "('t, 'm) server \<Rightarrow> nat \<Rightarrow> int set" where
  "overdue s w = {fd. \<exists>k. w_heartbeat (sv_worker s w) fd = Some k \<and> expire k \<le> sv_tick s}"

lemma check_timer_fires:
  assumes "net_inv s" "check_timer w s = (True, s1)"
  obtains fd where "fd \<in> overdue s w" "conns s w fd \<noteq> None" "conns s1 w = (conns s w)(fd := None)"
    "sv_open s1 = sv_open s - {fd}" "overdue s1 w = overdue s w - {fd}"
proof -
  obtain k fd t where chk: "CheckTimer (sv_tick s) (w_timer (sv_worker s w)) = Some (k, fd, t)"
    and s1: "s1 = force_close_in_loop w fd (upd_worker w (\<lambda>wk. wk\<lparr>w_timer := t\<rparr>) s)"
    using assms(2) by (auto simp: check_timer_def split: option.splits)
  have tm: "worker_timers_inv (HEARTBEAT_SEC (sv_env s) * 1000) s w"
    using assms(1) by (simp add: net_inv_def timers_inv_def)
  then have hb: "w_heartbeat (sv_worker s w) fd = Some k" "expire k \<le> sv_tick s"
    using beats_fire [of "w_timer (sv_worker s w)" "w_heartbeat (sv_worker s w)", OF _ chk] by (simp_all add: worker_timers_inv_def)
  then obtain c where c: "conns s w fd = Some c" using tm by (metis domD domI worker_timers_inv_def)
  note d = conn_invD [OF net_inv_conn [OF assms(1)] c]
  have "conns (upd_worker w (\<lambda>wk. wk\<lparr>w_timer := t\<rparr>) s) w fd = Some c" using c by simp
  note sel = force_close_sel [OF this d(2,1) refl]
  show thesis
    by (rule that [of fd]) (use hb c in \<open>auto simp: s1 sel overdue_def\<close>)
qed

lemma check_timer_idle:
  assumes "net_inv s" "check_timer w s = (False, s1)"
  shows "s1 = s \<and> overdue s w = {}"
proof -
  have tm: "beats (w_timer (sv_worker s w)) (w_heartbeat (sv_worker s w))"
    using assms(1) by (simp add: net_inv_def timers_inv_def worker_timers_inv_def)
  have chk: "CheckTimer (sv_tick s) (w_timer (sv_worker s w)) = None" "s1 = s"
    using assms(2) by (auto simp: check_timer_def split: option.splits)
  have "\<forall>k \<in> dom (timer_entries (w_timer (sv_worker s w))). sv_tick s < expire k"
    using std_timer.check_idle [OF _ chk(1)] tm by (simp add: beats_def)
  then show ?thesis using tm chk(2) by (force simp: overdue_def beats_def)
qed

lemma check_timers_closes:
  assumes "net_inv s" "card (dom (conns s w)) \<le> n" "finite (dom (conns s w))"
  shows "\<not> fst (check_timer w (check_timers n w s)) \<and>
    conns (check_timers n w s) w = conns s w |` (- overdue s w) \<and>
    sv_open (check_timers n w s) = sv_open s - overdue s w"
  using assms
proof (induction n arbitrary: s)
  case 0
  then have "conns s w = Map.empty" by simp
  then have "\<not> fst (check_timer w s)" using check_timer_fires [OF "0.prems"(1), of w] by (metis prod.collapse)
  then show ?case using check_timer_idle [OF "0.prems"(1), of w "snd (check_timer w s)"] by (simp add: prod_eq_iff)
next
  case (Suc n)
  obtain fired s1 where chk: "check_timer w s = (fired, s1)" by fastforce
  show ?case
  proof (cases fired)
    case True
    obtain fd where fd: "fd \<in> overdue s w" "conns s w fd \<noteq> None" "conns s1 w = (conns s w)(fd := None)"
      "sv_open s1 = sv_open s - {fd}" "overdue s1 w = overdue s w - {fd}"
      using check_timer_fires [OF Suc.prems(1), of w s1] chk True by metis
    have "net_inv s1" using net_inv_check_timer [OF Suc.prems(1), of w] chk by simp
    moreover have "card (dom (conns s1 w)) \<le> n" "finite (dom (conns s1 w))"
      using Suc.prems(2,3) fd(2,3) by (simp_all add: domIff)
    ultimately have "\<not> fst (check_timer w (check_timers n w s1))"
      "conns (check_timers n w s1) w = conns s1 w |` (- overdue s1 w)"
      "sv_open (check_timers n w s1) = sv_open s1 - overdue s1 w" using Suc.IH by simp_all
    then show ?thesis using fd True by (auto simp: chk restrict_map_def fun_eq_iff)
  next
    case False
    then show ?thesis using check_timer_idle [OF Suc.prems(1), of w s1] chk by simp
  qed
qed

lemma conns_finite: "net_inv s \<Longrightarrow> finite (dom (conns s w))"
proof -
  assume "net_inv s"
  then have "finite (live s)" by (simp add: net_inv_def count_inv_def)
  moreover have "dom (conns s w) = snd ` (live s \<inter> {w} \<times> UNIV)" by (force simp: live_def)
  ultimately show ?thesis by simp
qed

text \<open>
  C21. Idle clients are dropped and only idle ones: the loop over the timers ends (one turn for each connection of
  the worker is enough), and after it a connection that received nothing for the heartbeat
  interval and a second (the time of its last input is kept in whole seconds) is closed, its
  socket too, while one that received something within the interval is untouched.
\<close>

theorem idle_connections_closed:
  assumes "reach X s" "conns s w fd = Some c" "card (dom (conns s w)) \<le> n"
  shows "\<not> fst (check_timer w (check_timers n w s)) \<and>
    (cc_last_active (ctx_of s (tc_ctx c)) * 1000 + 1000 + HEARTBEAT_SEC (sv_env s) * 1000 \<le> sv_tick s \<longrightarrow>
       conns (check_timers n w s) w fd = None \<and> fd \<notin> sv_open (check_timers n w s)) \<and>
    (sv_tick s < cc_last_active (ctx_of s (tc_ctx c)) * 1000 + HEARTBEAT_SEC (sv_env s) * 1000 \<longrightarrow>
       conns (check_timers n w s) w fd = Some c \<and> fd \<in> sv_open (check_timers n w s))"
proof -
  note inv = reach_net_inv [OF assms(1)]
  have tm: "worker_timers_inv (HEARTBEAT_SEC (sv_env s) * 1000) s w"
    using inv by (simp add: net_inv_def timers_inv_def)
  then obtain k where k: "w_heartbeat (sv_worker s w) fd = Some k"
    using assms(2) by (metis domD domI worker_timers_inv_def)
  have "cc_last_active (ctx_of s (tc_ctx c)) = (expire k - HEARTBEAT_SEC (sv_env s) * 1000) div 1000"
    using tm k assms(2) by (simp add: worker_timers_inv_def)
  then have "cc_last_active (ctx_of s (tc_ctx c)) * 1000 + 1000 + HEARTBEAT_SEC (sv_env s) * 1000 \<le> sv_tick s \<Longrightarrow> fd \<in> overdue s w"
    "sv_tick s < cc_last_active (ctx_of s (tc_ctx c)) * 1000 + HEARTBEAT_SEC (sv_env s) * 1000 \<Longrightarrow> fd \<notin> overdue s w"
    using k by (simp_all add: overdue_def)
  then show ?thesis
    using check_timers_closes [OF inv assms(3) conns_finite [OF inv]] assms(2) conn_invD(4) [OF net_inv_conn [OF inv] assms(2)]
    by (auto simp: restrict_map_def)
qed

theorem idle_connections_closed_witness:
  "conns (check_timers 1 0 (demo_one\<lparr>sv_tick := 66000, sv_wall := 0\<rparr>)) 0 5 = None"
proof -
  have "reach externals_ref (demo_one\<lparr>sv_tick := 66000, sv_wall := 0\<rparr>)"
    using reach_step [OF reach_demo_one, of "Tick 61000 0"] by (simp add: demo_one_eval)
  from idle_connections_closed [OF this, of 0 5 "demo_conn 5 0" 1]
  show ?thesis by (simp add: demo_one_eval demo_conn_def demo_settings)
qed

end
