(* ===== verification/Input.thy ===== *)
theory Input
  imports Connections
begin

text \<open>
  From the socket to the task queue: what one read event makes of the bytes that arrived, and when handling an
  event touches a connection that it has destroyed.
\<close>

unbundle bit_operations_syntax

section \<open>The effect of reading\<close>

text \<open>The bytes that a sequence of reads delivers, and whether it ends with the end of the stream or an error.\<close>

fun input_of :: "read_result list \<Rightarrow> string \<times> bool" where
  "input_of [] = ([], False)"
| "input_of (RAgain # _) = ([], False)"
| "input_of (RError # _) = ([], True)"
| "input_of (RData d # rs) =
     (if d = [] then ([], True) else (case input_of rs of (bytes, ended) \<Rightarrow> (d @ bytes, ended)))"

lemma close_gone: "net_inv s \<Longrightarrow> conns (force_close_in_loop w fd s) w fd = None \<and> sv_pool (force_close_in_loop w fd s) = sv_pool s"
proof (cases "conns s w fd")
  case (Some c)
  assume "net_inv s"
  note d = conn_invD [OF net_inv_conn [OF this] Some]
  show ?thesis by (simp add: force_close_sel [OF Some d(2,1) refl])
qed (simp add: force_close_none)

lemma read_socket_effect:
  "net_inv s \<Longrightarrow> conns s w fd = Some c \<Longrightarrow> input_of rs = (bytes, ended) \<Longrightarrow>
   fst (read_socket w c rs s) = (\<not> ended) \<and> sv_pool (snd (read_socket w c rs s)) = sv_pool s \<and>
   (if ended then conns (snd (read_socket w c rs s)) w fd = None
    else cc_recv_buf (ctx_of (snd (read_socket w c rs s)) (tc_ctx c)) = cc_recv_buf (ctx_of s (tc_ctx c)) @ bytes)"
proof (induction w c rs s arbitrary: bytes rule: read_socket.induct)
  case (3 w c rs s)
  then show ?case using close_gone [of s w fd] conn_invD(1) [OF net_inv_conn, of s w fd c] by auto
next
  case (4 w c d rs s)
  have fd: "tc_fd c = fd" using conn_invD(1) [OF net_inv_conn [OF "4.prems"(1)] "4.prems"(2)] .
  show ?case
  proof (cases "d = []")
    case True
    then show ?thesis using "4.prems" close_gone [of s w fd] fd by auto
  next
    case False
    obtain bytes' where i: "input_of rs = (bytes', ended)" "bytes = d @ bytes'"
      using "4.prems"(3) False by (auto split: prod.splits)
    let ?s1 = "start_heartbeat_timer w (tc_fd c)
      (upd_ctx (tc_ctx c) (\<lambda>x. update_time (sv_tick s div 1000) (x\<lparr>cc_recv_buf := cc_recv_buf x @ d\<rparr>)) s)"
    have "net_inv ?s1" "conns ?s1 w fd = Some c"
      using net_inv_touch [OF "4.prems"(1,2) refl, of "\<lambda>x. cc_recv_buf x @ d"] "4.prems"(2) fd by simp_all
    note IH = "4.IH" [OF False this i(1)]
    have "cc_recv_buf (ctx_of ?s1 (tc_ctx c)) = cc_recv_buf (ctx_of s (tc_ctx c)) @ d" "sv_pool ?s1 = sv_pool s"
      by (simp_all add: update_time_def)
    with IH show ?thesis using False i(2) by simp
  qed
qed auto

lemma fold_enqueue_tasks:
  "length (tasks (sv_pool s)) + length ps \<le> 200001 \<Longrightarrow>
   tasks (sv_pool (fold (\<lambda>(hdr, body). enqueue_task (TaskBusiness r hdr body)) ps s)) =
     tasks (sv_pool s) @ map (\<lambda>(hdr, body). TaskBusiness r hdr body) ps"
  by (induction ps arbitrary: s) (auto simp: enqueue_task_def enqueue_def)

lemma fold_enqueue_frame:
  "sv_heap (fold (\<lambda>(hdr, body). enqueue_task (TaskBusiness r hdr body)) ps s) = sv_heap s"
  "conns (fold (\<lambda>(hdr, body). enqueue_task (TaskBusiness r hdr body)) ps s) w = conns s w"
  by (induction ps arbitrary: s) (auto simp: enqueue_task_def)

lemma take_packets_effect:
  assumes "net_inv s" "conns s w fd = Some c" "read_packets (cc_recv_buf (ctx_of s (tc_ctx c))) = (ps, rest, ok)"
  shows "conns (take_packets w c s) w fd = (if ok then Some c else None)"
    "length (tasks (sv_pool s)) + length ps \<le> 200001 \<Longrightarrow> tasks (sv_pool (take_packets w c s)) =
       tasks (sv_pool s) @ map (\<lambda>(hdr, body). TaskBusiness (tc_ctx c) hdr body) ps"
    "ok \<Longrightarrow> cc_recv_buf (ctx_of (take_packets w c s) (tc_ctx c)) = rest"
proof -
  let ?s1 = "fold (\<lambda>(hdr, body). enqueue_task (TaskBusiness (tc_ctx c) hdr body)) ps
      (upd_ctx (tc_ctx c) (\<lambda>x. x\<lparr>cc_recv_buf := rest\<rparr>) s)"
  have "same_net s ?s1"
    by (rule same_net_trans [OF same_net_recv [where f = "\<lambda>_. rest"]], rule same_net_fold)
      (simp add: case_prod_unfold same_net_enqueue)
  then have inv: "net_inv ?s1" using assms(1) by (rule net_inv_same [rotated])
  have fd: "tc_fd c = fd" using conn_invD(1) [OF net_inv_conn [OF assms(1)] assms(2)] .
  have s': "take_packets w c s = (if ok then ?s1 else force_close_in_loop w fd ?s1)"
    by (simp add: take_packets_def assms(3) Let_def fd)
  show "conns (take_packets w c s) w fd = (if ok then Some c else None)"
    using close_gone [OF inv, of w fd] assms(2) by (simp add: s' fold_enqueue_frame)
  show "tasks (sv_pool (take_packets w c s)) = tasks (sv_pool s) @ map (\<lambda>(hdr, body). TaskBusiness (tc_ctx c) hdr body) ps"
    if "length (tasks (sv_pool s)) + length ps \<le> 200001"
    using close_gone [OF inv, of w fd] that by (simp add: s' fold_enqueue_tasks)
  show "ok \<Longrightarrow> cc_recv_buf (ctx_of (take_packets w c s) (tc_ctx c)) = rest"
    by (simp add: s' fold_enqueue_frame)
qed

lemma handle_read_conn:
  assumes "net_inv s" "conns s w fd = Some c" "input_of rs = (bytes, ended)"
    and "read_packets (cc_recv_buf (ctx_of s (tc_ctx c)) @ bytes) = (ps, rest, ok)"
  shows "conns (handle_read w c rs s) w fd = (if ended \<or> \<not> ok then None else Some c)"
proof -
  obtain go_on s1 where rd: "read_socket w c rs s = (go_on, s1)" by fastforce
  note eff = read_socket_effect [OF assms(1-3), unfolded rd] and inv = read_socket_inv [OF assms(1,2) rd]
  show ?thesis
  proof (cases ended)
    case False
    then show ?thesis using eff inv take_packets_effect(1) [of s1 w fd c ps rest ok] assms(4) by (simp add: handle_read_def rd)
  qed (use eff in \<open>simp add: handle_read_def rd\<close>)
qed

text \<open>
  C15. From bytes to tasks: when the reads of one event deliver \<open>bytes\<close> and the stream goes on, the packets that
  the receive buffer and \<open>bytes\<close> make up are queued for the business layer, in order, one task each (if
  there is room in the queue), with the connection's context, and what is left over stays in the buffer; a bad header
  closes the connection after the packets before it were queued; and when the reads end with
  the end of the stream or an error, the connection is closed and the packets that arrived with it are
  dropped.
\<close>

theorem input_becomes_tasks:
  assumes "reach X s" "conns s w fd = Some c" "input_of rs = (bytes, ended)"
    and "read_packets (cc_recv_buf (ctx_of s (tc_ctx c)) @ bytes) = (ps, rest, ok)"
    and "length (tasks (sv_pool s)) + length ps \<le> 200001"
  shows "tasks (sv_pool (handle_read w c rs s)) = tasks (sv_pool s) @
      (if ended then [] else map (\<lambda>(hdr, body). TaskBusiness (tc_ctx c) hdr body) ps) \<and>
    conns (handle_read w c rs s) w fd = (if ended \<or> \<not> ok then None else Some c) \<and>
    (\<not> ended \<and> ok \<longrightarrow> cc_recv_buf (ctx_of (handle_read w c rs s) (tc_ctx c)) = rest)"
proof -
  note inv = reach_net_inv [OF assms(1)]
  obtain go_on s1 where rd: "read_socket w c rs s = (go_on, s1)" by fastforce
  note eff = read_socket_effect [OF inv assms(2,3), unfolded rd] and inv1 = read_socket_inv [OF inv assms(2) rd]
  have "conns (handle_read w c rs s) w fd = (if ended \<or> \<not> ok then None else Some c)"
    by (rule handle_read_conn [OF inv assms(2-4)])
  moreover have "tasks (sv_pool (handle_read w c rs s)) = tasks (sv_pool s) @
      (if ended then [] else map (\<lambda>(hdr, body). TaskBusiness (tc_ctx c) hdr body) ps)"
    "\<not> ended \<and> ok \<longrightarrow> cc_recv_buf (ctx_of (handle_read w c rs s) (tc_ctx c)) = rest"
    using eff inv1 take_packets_effect(2,3) [of s1 w fd c ps rest ok] assms(4,5)
    by (cases ended; simp add: handle_read_def rd)+
  ultimately show ?thesis by blast
qed

section \<open>Use after free\<close>

text \<open>
  C34. The one way in which handling a socket event goes wrong, and no other: with no hang-up or error
  reported, when the socket is readable and writable at the same time and the read part closes the
  connection (the stream ended, failed, or carried a bad header), the write part runs on the destroyed connection object.
\<close>

theorem event_fault_iff:
  assumes "reach X s" "enabled (SocketEvent w fd revents rs ws) s" "conns s w fd = Some c"
    and "input_of rs = (bytes, ended)"
    and "read_packets (cc_recv_buf (ctx_of s (tc_ctx c)) @ bytes) = (ps, rest, ok)"
  shows "fst (exec X (SocketEvent w fd revents rs ws) s) =
    (if revents AND (EPOLLHUP OR EPOLLERR OR EPOLLRDHUP) = 0 \<and> revents AND EPOLLIN \<noteq> 0 \<and> revents AND EPOLLOUT \<noteq> 0 \<and>
        (ended \<or> \<not> ok)
     then Crash UseAfterFree else Val ())"
  using handle_read_conn [OF reach_net_inv [OF assms(1)] assms(3-5)] assms(3)
  by (auto simp: handle_events_def run_seqP)

theorem input_becomes_tasks_witness:
  "tasks (sv_pool (handle_read 0 (demo_conn 5 0) [RData ping, RAgain] demo_one)) = [TaskBusiness 0 ping_hdr []]"
  using input_becomes_tasks [OF reach_demo_one, of 0 5 "demo_conn 5 0" "[RData ping, RAgain]" ping False]
  by (simp add: demo_one_eval demo_conn_def new_ClientContext_def read_ping new_pool_def)

theorem event_fault_iff_witness:
  "fst (exec externals_ref (SocketEvent 0 5 (EPOLLIN OR EPOLLOUT) [RData ping, RData []] []) demo_pong) = Crash UseAfterFree"
  using event_fault_iff [OF reach_demo_pong, of 0 5 "EPOLLIN OR EPOLLOUT" "[RData ping, RData []]" "[]" "demo_conn 5 0" ping True]
  by (simp add: demo_pong_eval demo_conn_def read_ping event_bits)

end
