(* ===== verification/Output.thy ===== *)
theory Output
  imports Input
begin

text \<open>
  From the functor queue to the socket: the bytes that a connection gives to its socket over its whole life are the packets that were
  queued for it, whole, in order and without anything in between, whatever the other connections and
  threads do meanwhile and however little the socket takes at a time.
\<close>

unbundle bit_operations_syntax

section \<open>What one connection sends\<close>

text \<open>The bytes that the calls of \<open>write\<close> in \<open>handle_write\<close> take off the buffer.\<close>

fun wrote :: "write_result list \<Rightarrow> string \<Rightarrow> string" where
  "wrote ws buf = (if buf = [] then [] else (case ws of
     WOk n # ws' \<Rightarrow> if n = 0 then [] else take n buf @ wrote ws' (drop n buf)
   | _ \<Rightarrow> []))"

declare wrote.simps [simp del]

lemma wrote_out: "write_out ws buf = (buf', closed) \<Longrightarrow> wrote ws buf @ buf' = buf"
proof (induction ws buf arbitrary: buf' rule: wrote.induct)
  case (1 ws buf)
  show ?case
    using "1.prems" "1.IH"
    by (subst wrote.simps, subst (asm) write_out.simps)
      (auto split: if_splits list.splits write_result.splits)
qed

text \<open>The bytes that an event gives to the socket \<open>fd\<close> of worker \<open>w\<close>.\<close>

fun emitted :: "nat \<Rightarrow> int \<Rightarrow> event \<Rightarrow> ('t, 'm) server \<Rightarrow> string" where
  "emitted w fd (SocketEvent w' fd' revents rs ws) s =
     (if w' = w \<and> fd' = fd \<and> revents AND (EPOLLHUP OR EPOLLERR OR EPOLLRDHUP) = 0 \<and> revents AND EPOLLOUT \<noteq> 0
      then (case conns s w fd of None \<Rightarrow> [] | Some c \<Rightarrow> wrote ws (cc_send_buf (ctx_of s (tc_ctx c)))) else [])"
| "emitted w fd e s = []"

text \<open>
  The packet that an event puts into the send buffer of that connection: the functor of a \<open>queue_send_packet\<close> for the context that
  serves the descriptor, if the packet fits.
\<close>

fun accepted :: "nat \<Rightarrow> int \<Rightarrow> event \<Rightarrow> ('t, 'm) server \<Rightarrow> outgoing list" where
  "accepted w fd (RunFunctor w') s =
     (if w' = w then (case w_running (sv_worker s w) of
        FnSendPacket r c n b # fs \<Rightarrow>
          if cc_fd (ctx_of s r) = fd \<and> length (cc_send_buf (ctx_of s r)) + length (make_packet c n b) \<le> MAX_SEND_BUF (sv_env s)
          then [(c, n, b)] else []
      | _ \<Rightarrow> []) else [])"
| "accepted w fd e s = []"

text \<open>Both over a sequence of events, as long as the connection is there.\<close>

fun traffic :: "('j, 't, 'm) externals \<Rightarrow> nat \<Rightarrow> int \<Rightarrow> event list \<Rightarrow> ('t, 'm) server \<Rightarrow> outgoing list \<times> string" where
  "traffic X w fd [] s = ([], [])"
| "traffic X w fd (e # es) s =
     (if conns s w fd = None then ([], [])
      else case traffic X w fd es (snd (exec X e s)) of (ps, out) \<Rightarrow> (accepted w fd e s @ ps, emitted w fd e s @ out))"

fun still_open :: "('j, 't, 'm) externals \<Rightarrow> nat \<Rightarrow> int \<Rightarrow> event list \<Rightarrow> ('t, 'm) server \<Rightarrow> bool" where
  "still_open X w fd [] s = (conns s w fd \<noteq> None)"
| "still_open X w fd (e # es) s = (conns s w fd \<noteq> None \<and> still_open X w fd es (snd (exec X e s)))"

section \<open>An event touches one connection\<close>

text \<open>A step that handles input of the connection \<open>fd\<close> of worker \<open>w\<close>, or closes it.\<close>

definition input_step :: "nat \<Rightarrow> int \<Rightarrow> ctx_ref \<Rightarrow> ('t, 'm) server \<Rightarrow> ('t, 'm) server \<Rightarrow> bool" where
  "input_step w fd r s s' \<longleftrightarrow>
     (\<forall>x. x \<noteq> r \<longrightarrow> cc_send_buf (ctx_of s' x) = cc_send_buf (ctx_of s x)) \<and>
     (\<forall>w' fd'. (w', fd') \<noteq> (w, fd) \<longrightarrow> conns s' w' fd' = conns s w' fd') \<and>
     (conns s' w fd = conns s w fd \<and> cc_send_buf (ctx_of s' r) = cc_send_buf (ctx_of s r) \<or> conns s' w fd = None)"

lemma input_step_same: "same_net s s' \<Longrightarrow> input_step w fd r s s'"
  by (simp add: input_step_def same_net_def)

lemma input_step_trans: "input_step w fd r s s1 \<Longrightarrow> input_step w fd r s1 s2 \<Longrightarrow> input_step w fd r s s2"
  unfolding input_step_def by metis

lemma input_step_close:
  assumes "net_inv s" "\<And>c. conns s w fd = Some c \<Longrightarrow> tc_ctx c = r"
  shows "input_step w fd r s (force_close_in_loop w fd s)"
proof (cases "conns s w fd")
  case None
  then show ?thesis by (simp add: force_close_none input_step_def)
next
  case (Some c)
  note d = conn_invD [OF net_inv_conn [OF assms(1)] Some]
  show ?thesis
    using assms(2) [OF Some] by (auto simp: input_step_def force_close_sel [OF Some d(2,1) refl] force_close_heap [OF Some d(2,1) refl])
qed

lemma input_step_read_socket:
  "net_inv s \<Longrightarrow> conns s w fd = Some c \<Longrightarrow> input_step w fd (tc_ctx c) s (snd (read_socket w c rs s))"
proof (induction w c rs s rule: read_socket.induct)
  case (3 w c rs s)
  then show ?case using conn_invD(1) [OF net_inv_conn, of s w fd c] by (auto intro: input_step_close)
next
  case (4 w c d rs s)
  have fd: "tc_fd c = fd" using conn_invD(1) [OF net_inv_conn [OF "4.prems"(1)] "4.prems"(2)] .
  let ?s1 = "start_heartbeat_timer w fd
      (upd_ctx (tc_ctx c) (\<lambda>x. update_time (sv_tick s div 1000) (x\<lparr>cc_recv_buf := cc_recv_buf x @ d\<rparr>)) s)"
  have "net_inv ?s1" "conns ?s1 w fd = Some c"
    using net_inv_touch [OF "4.prems"(1,2) refl, of "\<lambda>x. cc_recv_buf x @ d"] "4.prems"(2) by simp_all
  moreover have "input_step w fd (tc_ctx c) s ?s1" by (simp add: input_step_def update_time_def)
  ultimately show ?case
    using "4.IH" [unfolded fd] "4.prems" by (auto simp: fd intro: input_step_close input_step_trans)
qed (simp_all add: input_step_same)

lemma input_step_take_packets:
  assumes "net_inv s" "conns s w fd = Some c"
  shows "input_step w fd (tc_ctx c) s (take_packets w c s)"
proof -
  obtain ps rest ok where run: "read_packets (cc_recv_buf (ctx_of s (tc_ctx c))) = (ps, rest, ok)"
    by (cases "read_packets (cc_recv_buf (ctx_of s (tc_ctx c)))") auto
  let ?s1 = "fold (\<lambda>(hdr, body). enqueue_task (TaskBusiness (tc_ctx c) hdr body)) ps
      (upd_ctx (tc_ctx c) (\<lambda>x. x\<lparr>cc_recv_buf := rest\<rparr>) s)"
  have same: "same_net s ?s1"
    by (rule same_net_trans [OF same_net_recv [where f = "\<lambda>_. rest"]], rule same_net_fold)
      (simp add: case_prod_unfold same_net_enqueue)
  have "conns ?s1 w fd = Some c" using same assms(2) by (simp add: same_net_def)
  then have "input_step w fd (tc_ctx c) ?s1 (force_close_in_loop w fd ?s1)"
    using input_step_close [OF net_inv_same [OF assms(1) same], of w fd "tc_ctx c"] by simp
  with input_step_same [OF same] show ?thesis
    using conn_invD(1) [OF net_inv_conn [OF assms(1)] assms(2)]
    by (auto simp: take_packets_def run Let_def intro: input_step_trans)
qed

lemma input_step_read:
  assumes "net_inv s" "conns s w fd = Some c"
  shows "input_step w fd (tc_ctx c) s (handle_read w c rs s)"
proof -
  obtain go_on s1 where rd: "read_socket w c rs s = (go_on, s1)" by fastforce
  have step: "input_step w fd (tc_ctx c) s s1" using input_step_read_socket [OF assms, of rs] rd by simp
  have inv: "net_inv s1" and open1: "go_on \<Longrightarrow> conns s1 w fd = Some c" using read_socket_inv [OF assms rd] by simp_all
  show ?thesis
    using step input_step_trans [OF step input_step_take_packets [OF inv open1]] by (simp add: handle_read_def rd)
qed

text \<open>
  A step after which one connection has sent \<open>out\<close> and has \<open>extra\<close> to send in addition, and the other connections are as they were.
\<close>

definition output_step :: "nat \<Rightarrow> int \<Rightarrow> TcpConnection \<Rightarrow> string \<Rightarrow> string \<Rightarrow> ('t, 'm) server \<Rightarrow> ('t, 'm) server \<Rightarrow> bool" where
  "output_step w fd c extra out s s' \<longleftrightarrow>
     (\<exists>rest. cc_send_buf (ctx_of s (tc_ctx c)) @ extra = out @ rest \<and>
        (conns s' w fd = None \<or> conns s' w fd = Some c \<and> cc_send_buf (ctx_of s' (tc_ctx c)) = rest))"

definition only_conn :: "nat \<Rightarrow> int \<Rightarrow> ctx_ref \<Rightarrow> ('t, 'm) server \<Rightarrow> ('t, 'm) server \<Rightarrow> bool" where
  "only_conn w fd r s s' \<longleftrightarrow>
     (\<forall>x. x \<noteq> r \<longrightarrow> cc_send_buf (ctx_of s' x) = cc_send_buf (ctx_of s x)) \<and>
     (\<forall>w' fd'. (w', fd') \<noteq> (w, fd) \<longrightarrow> conns s' w' fd' = conns s w' fd')"

lemma only_conn_trans: "only_conn w fd r s s1 \<Longrightarrow> only_conn w fd r s1 s2 \<Longrightarrow> only_conn w fd r s s2"
  by (simp add: only_conn_def)

lemma only_conn_input: "input_step w fd r s s' \<Longrightarrow> only_conn w fd r s s'"
  by (simp add: only_conn_def input_step_def)

lemma output_step_input: "input_step w fd (tc_ctx c) s s' \<Longrightarrow> conns s w fd = Some c \<Longrightarrow> output_step w fd c [] [] s s'"
  by (auto simp: output_step_def input_step_def)

lemma output_step_same: "same_net s s' \<Longrightarrow> conns s w fd = Some c \<Longrightarrow> output_step w fd c [] [] s s'"
  by (auto intro: output_step_input input_step_same)

text \<open>What touches one connection leaves another alone.\<close>

lemma output_step_other:
  assumes "net_inv s" "conns s w fd = Some c" "conns s w' fd' = Some c'" "(w', fd') \<noteq> (w, fd)" "only_conn w' fd' (tc_ctx c') s s'"
  shows "output_step w fd c [] [] s s'"
proof -
  have "tc_ctx c \<noteq> tc_ctx c'" using conn_ctx_unique [OF net_inv_conn [OF assms(1)] assms(2,3)] assms(4) by auto
  moreover have "conns s' w fd = conns s w fd" using assms(4,5) by (auto simp: only_conn_def)
  ultimately show ?thesis using assms(2,5) by (simp add: output_step_def only_conn_def)
qed

lemma write_step:
  assumes "net_inv s" "conns s w fd = Some c"
  shows "output_step w fd c [] (wrote ws (cc_send_buf (ctx_of s (tc_ctx c)))) s (handle_write w c ws s)"
    and "only_conn w fd (tc_ctx c) s (handle_write w c ws s)"
proof -
  note d = conn_invD [OF net_inv_conn [OF assms(1)] assms(2)]
  obtain buf closed where out: "write_out ws (cc_send_buf (ctx_of s (tc_ctx c))) = (buf, closed)" by fastforce
  let ?s1 = "upd_ctx (tc_ctx c) (\<lambda>x. x\<lparr>cc_send_buf := buf\<rparr>) s"
  have c: "conns ?s1 w fd = Some c" using assms(2) by simp
  note close = force_close_sel(1) [OF c d(2,1) refl] force_close_heap(2) [OF c d(2,1) refl]
  show "output_step w fd c [] (wrote ws (cc_send_buf (ctx_of s (tc_ctx c)))) s (handle_write w c ws s)"
    unfolding output_step_def
    by (rule exI [of _ buf]) (auto simp: wrote_out [OF out] handle_write_effect out Let_def d(1) close update_event_def assms(2))
  show "only_conn w fd (tc_ctx c) s (handle_write w c ws s)"
    by (auto simp: only_conn_def handle_write_effect out Let_def d(1) close update_event_def)
qed

lemma socket_step:
  assumes "net_inv s" "conns s w fd = Some c" "handle_events w fd revents rs ws s = (Val (), s')"
  shows "output_step w fd c [] (emitted w fd (SocketEvent w fd revents rs ws) s) s s' \<and> only_conn w fd (tc_ctx c) s s'"
proof (cases "revents AND (EPOLLHUP OR EPOLLERR OR EPOLLRDHUP) = 0")
  case False
  then have "s' = force_close_in_loop w fd s" using assms(2,3) by (auto simp: handle_events_def)
  then have "input_step w fd (tc_ctx c) s s'" using input_step_close [OF assms(1), of w fd "tc_ctx c"] assms(2) by simp
  then show ?thesis using False assms(2) by (simp add: output_step_input only_conn_input)
next
  case no_hup: True
  let ?s1 = "if revents AND EPOLLIN \<noteq> 0 then handle_read w c rs s else s"
  have read: "input_step w fd (tc_ctx c) s ?s1" using input_step_read [OF assms(1,2)] by (simp add: input_step_same)
  show ?thesis
  proof (cases "revents AND EPOLLOUT = 0")
    case True
    then have "s' = ?s1" using no_hup assms(2,3) by (auto simp: handle_events_def run_seqP split: if_splits)
    then show ?thesis using read True assms(2) by (simp add: output_step_input only_conn_input)
  next
    case False
    obtain c1 where c1: "conns ?s1 w fd = Some c1" "s' = handle_write w c1 ws ?s1"
      using no_hup False assms(2,3) by (auto simp: handle_events_def run_seqP split: if_splits option.splits)
    then have same: "c1 = c" "cc_send_buf (ctx_of ?s1 (tc_ctx c)) = cc_send_buf (ctx_of s (tc_ctx c))"
      using read assms(2) by (auto simp: input_step_def)
    have "net_inv ?s1" using net_inv_handle_read [OF assms(1,2)] assms(1) by simp
    note wr = write_step [OF this c1(1) [unfolded same(1)], of ws]
    then show ?thesis
      using no_hup False assms(2) only_conn_trans [OF only_conn_input [OF read] wr(2)] c1(2) same
      by (simp add: output_step_def)
  qed
qed

lemma close_step:
  assumes "net_inv s" "conns s w fd = Some c"
  shows "output_step w fd c [] [] s (force_close_in_loop w' fd' s)"
proof (cases "conns s w' fd'")
  case None
  then show ?thesis using assms(2) by (simp add: force_close_none output_step_same)
next
  case (Some c')
  have cl: "input_step w' fd' (tc_ctx c') s (force_close_in_loop w' fd' s)" using input_step_close [OF assms(1), of w' fd' "tc_ctx c'"] Some by simp
  show ?thesis
  proof (cases "(w', fd') = (w, fd)")
    case True
    then show ?thesis using cl Some assms(2) by (simp add: output_step_input)
  next
    case False
    then show ?thesis by (rule output_step_other [OF assms Some _ only_conn_input [OF cl]])
  qed
qed

lemma add_step:
  assumes "net_inv s" "conns s w fd = Some c" "0 \<le> fd'" "fd' \<in> sv_open s" "\<And>w'. conns s w' fd' = None"
    "\<And>w'. fd' \<notin> set (waiting s w')"
  shows "output_step w fd c [] [] s (add_connection_in_loop w' fd' ip port s)"
proof -
  obtain r p h where acq: "acquire (w_pool (sv_worker s w')) (sv_heap s) = (r, p, h)"
    by (cases "acquire (w_pool (sv_worker s w')) (sv_heap s)") auto
  obtain s0 where s0: "add_connection_in_loop w' fd' ip port s = start_heartbeat_timer w' fd' s0"
    "added s s0 w' fd' \<lparr>tc_fd = fd', tc_ip = ip, tc_port = port, tc_ctx = r, tc_closed = False\<rparr> r p h"
    by (rule add_connection_sel [OF acq assms(5) refl, of ip port])
      (use assms acquire_fresh [OF assms(1) acq] in \<open>simp add: added_def\<close>)
  have "tc_ctx c \<noteq> r" "(w', fd') \<noteq> (w, fd)" using added_other [OF s0(2) assms(2)] assms(2,5) by auto
  then show ?thesis
    using assms(2) by (auto simp: output_step_def s0(1) added_ctx [OF s0(2)] added_conns [OF s0(2)] added_heap(2) [OF s0(2)])
qed

lemma length_packet: "make_packet c n b \<noteq> []"
  by (metis length_make_packet add_is_0 list.size(3) zero_neq_numeral)

lemma send_step:
  assumes "net_inv s" "conns s w fd = Some c"
  shows "output_step w fd c (if w' = w \<and> cc_fd (ctx_of s r) = fd \<and>
        length (cc_send_buf (ctx_of s r)) + length (make_packet cm n b) \<le> MAX_SEND_BUF (sv_env s)
      then make_packet cm n b else []) [] s (send_packet_in_loop w' r cm n b s)"
proof (cases "cc_fd (ctx_of s r) < 0 \<or> conns s w' (cc_fd (ctx_of s r)) = None")
  case True
  then have "send_packet_in_loop w' r cm n b s = s" by (auto simp: send_packet_in_loop_def Let_def)
  moreover have "\<not> (w' = w \<and> cc_fd (ctx_of s r) = fd)" using True assms conn_invD(3) [OF net_inv_conn [OF assms(1)] assms(2)] by auto
  ultimately show ?thesis using assms(2) by (auto simp: output_step_def)
next
  case False
  then obtain c' where c': "conns s w' (cc_fd (ctx_of s r)) = Some c'" by auto
  note d = conn_invD [OF net_inv_conn [OF assms(1)] c']
  have "tc_ctx c' = r"
    using conn_of_ctx [OF net_inv_conn [OF assms(1)], of r] conn_fd_unique [OF net_inv_conn [OF assms(1)] c'] c' False
    by (metis neg_less_0_iff_less option.inject zero_less_one)
  then have run: "send_packet_in_loop w' r cm n b s = send w' c' (make_packet cm n b) s" and d2: "\<not> tc_closed c'" "tc_ctx c' = r"
    using False c' d(2) by (simp_all add: send_packet_in_loop_def Let_def)
  show ?thesis
  proof (cases "(w', cc_fd (ctx_of s r)) = (w, fd)")
    case True
    then have "c' = c" using c' assms(2) by simp
    then show ?thesis
      unfolding run using True d2 assms(2)
      by (auto simp: output_step_def send_def Let_def queue_close_connection_def queue_in_loop_def update_event_def)
  next
    case other: False
    have "only_conn w' (cc_fd (ctx_of s r)) (tc_ctx c') s (send w' c' (make_packet cm n b) s)"
      by (simp add: only_conn_def send_def Let_def queue_close_connection_def queue_in_loop_def update_event_def)
    then show ?thesis using output_step_other [OF assms c' other] other by (auto simp: run)
  qed
qed

lemma functor_step:
  assumes "net_inv s" "conns s w fd = Some c"
  shows "output_step w fd c (wire (accepted w fd (RunFunctor w') s)) [] s (run_next_functor w' s)"
proof (cases "w_running (sv_worker s w')")
  case Nil
  then have "accepted w fd (RunFunctor w') s = []" by (cases "w' = w") simp_all
  with Nil assms(2) show ?thesis by (simp add: run_next_functor_def wire_def output_step_def)
next
  case (Cons f fs)
  let ?s = "upd_worker w' (\<lambda>wk. wk\<lparr>w_running := fs\<rparr>) s"
  have pop: "net_inv ?s" "conns ?s w fd = Some c" using net_inv_pop [OF assms(1) Cons] assms(2) by (auto simp: if_distrib)
  have from_pop: "output_step w fd c p out s s' = output_step w fd c p out ?s s'" for p out s' by (simp add: output_step_def)
  have none: "accepted w fd (RunFunctor w') s = [] \<Longrightarrow> wire (accepted w fd (RunFunctor w') s) = []" by (simp add: wire_def)
  show ?thesis
  proof (cases f)
    case (FnAddConn fd' ip port)
    have "wait_inv s" using assms(1) by (simp add: net_inv_def)
    note head = waiting_head [OF this Cons [unfolded FnAddConn]]
    have "output_step w fd c [] [] ?s (add_connection_in_loop w' fd' ip port ?s)"
      by (rule add_step [OF pop]) (use head in simp_all)
    moreover have "accepted w fd (RunFunctor w') s = []" using Cons FnAddConn by auto
    ultimately show ?thesis using none by (simp add: run_next_functor_def Cons FnAddConn from_pop)
  next
    case (FnSendPacket r cm n b)
    have "wire (accepted w fd (RunFunctor w') s) = (if w' = w \<and> cc_fd (ctx_of ?s r) = fd \<and>
        length (cc_send_buf (ctx_of ?s r)) + length (make_packet cm n b) \<le> MAX_SEND_BUF (sv_env ?s)
      then make_packet cm n b else [])"
      using Cons FnSendPacket by (cases "w' = w") (simp_all add: wire_def)
    then show ?thesis using send_step [OF pop, of w' r cm n b] by (simp add: run_next_functor_def Cons FnSendPacket from_pop)
  next
    case (FnClose fd')
    have "accepted w fd (RunFunctor w') s = []" using Cons FnClose by auto
    then show ?thesis using close_step [OF pop, of w' fd'] none by (simp add: run_next_functor_def Cons FnClose from_pop)
  qed
qed

section \<open>The stream of a connection\<close>

lemma exec_step:
  assumes "net_inv s" "conns s w fd = Some c" "enabled e s" "exec X e s = (Val (), s')"
  shows "output_step w fd c (wire (accepted w fd e s)) (emitted w fd e s) s s'"
proof -
  note same = output_step_same [OF _ assms(2)]
  have no_packet [simp]: "wire [] = []" by (simp add: wire_def)
  show ?thesis
  proof (cases e)
    case (Accept w' fd' ip port)
    then show ?thesis
      using assms(2,4) by (cases "w' = w") (auto simp: output_step_def queue_add_connection_def queue_in_loop_def)
  next
    case (SocketEvent w' fd' revents rs ws)
    then have run: "handle_events w' fd' revents rs ws s = (Val (), s')" using assms(4) by simp
    then obtain c' where c': "conns s w' fd' = Some c'" by (auto simp: handle_events_def split: option.splits)
    note step = socket_step [OF assms(1) c' run]
    show ?thesis
    proof (cases "(w', fd') = (w, fd)")
      case True
      then show ?thesis using step c' assms(2) by (simp add: SocketEvent)
    next
      case False
      then have "emitted w fd e s = []" by (auto simp: SocketEvent)
      then show ?thesis using output_step_other [OF assms(1,2) c' False] step by (simp add: SocketEvent)
    qed
  next
    case (TimerCheck w')
    have "output_step w fd c [] [] s (force_close_in_loop w' fd' (upd_worker w' (\<lambda>wk. wk\<lparr>w_timer := t\<rparr>) s))"
      if "CheckTimer (sv_tick s) (w_timer (sv_worker s w')) = Some (k, fd', t)" for k fd' t
    proof (cases "conns s w' fd'")
      case None
      then show ?thesis using assms(2) by (cases "w = w'") (simp_all add: force_close_none output_step_def)
    next
      case (Some c')
      note d = conn_invD [OF net_inv_conn [OF assms(1)] Some]
      let ?s = "upd_worker w' (\<lambda>wk. wk\<lparr>w_timer := t\<rparr>) s"
      have c': "conns ?s w' fd' = Some c'" using Some by simp
      have "conns (force_close_in_loop w' fd' ?s) w = conns (force_close_in_loop w' fd' s) w"
        by (simp add: force_close_sel(1) [OF c' d(2,1) refl] force_close_sel(1) [OF Some d(2,1) refl])
      moreover have "ctx_of (force_close_in_loop w' fd' ?s) x = ctx_of (force_close_in_loop w' fd' s) x" for x
        by (simp add: force_close_heap(2) [OF c' d(2,1) refl] force_close_heap(2) [OF Some d(2,1) refl])
      ultimately show ?thesis using close_step [OF assms(1,2), of w' fd'] unfolding output_step_def by metis
    qed
    then show ?thesis
      using TimerCheck assms(4) same [of s] by (auto simp: check_timer_def split: option.splits)
  next
    case (RunFunctor w')
    then show ?thesis using functor_step [OF assms(1,2), of w'] assms(4) by simp
  next
    case (SwapFunctors w')
    then show ?thesis using assms(2,4) by (cases "w' = w") (auto simp: output_step_def swap_functors_def)
  next
    case RunTask
    then show ?thesis using same [OF frameD [OF frame_run_task, of s X]] assms(4) by simp
  next
    case DbRound
    then show ?thesis using same [OF frameD [OF frame_db_round, of s X]] assms(4) by simp
  qed (use assms(4) in \<open>auto intro: same same_net_schedule same_net_stream_steps same_net_clock\<close>)
qed

lemma traffic_stream:
  assumes "net_inv s" "conns s w fd = Some c" "runs X es s = Some s'" "traffic X w fd es s = (ps, out)"
  shows "\<exists>rest. cc_send_buf (ctx_of s (tc_ctx c)) @ wire ps = out @ rest \<and>
    (still_open X w fd es s \<longrightarrow> conns s' w fd = Some c \<and> cc_send_buf (ctx_of s' (tc_ctx c)) = rest)"
  using assms
proof (induction es arbitrary: s ps out)
  case Nil
  then show ?case by (auto simp: wire_def)
next
  case (Cons e es)
  obtain s1 where s1: "enabled e s" "exec X e s = (Val (), s1)" "runs X es s1 = Some s'"
    using Cons.prems(3) by (auto split: if_splits prod.splits outcome.splits)
  obtain ps1 out1 where tail: "traffic X w fd es s1 = (ps1, out1)" by fastforce
  have now: "ps = accepted w fd e s @ ps1" "out = emitted w fd e s @ out1" using Cons.prems(2,4) s1(2) tail by simp_all
  obtain rest where rest: "cc_send_buf (ctx_of s (tc_ctx c)) @ wire (accepted w fd e s) = emitted w fd e s @ rest"
    "conns s1 w fd = None \<or> conns s1 w fd = Some c \<and> cc_send_buf (ctx_of s1 (tc_ctx c)) = rest"
    using exec_step [OF Cons.prems(1,2) s1(1,2)] by (auto simp: output_step_def)
  have wire: "wire ps = wire (accepted w fd e s) @ wire ps1" by (simp add: now(1) wire_def)
  show ?case
  proof (cases "conns s1 w fd")
    case None
    then have "traffic X w fd es s1 = ([], [])" "\<not> still_open X w fd es s1" by (cases es; simp)+
    with tail s1(2) rest(1) wire show ?thesis by (auto simp: now(2) wire_def)
  next
    case (Some c1)
    then have c1: "conns s1 w fd = Some c" "cc_send_buf (ctx_of s1 (tc_ctx c)) = rest" using rest(2) by simp_all
    have "net_inv s1" using net_inv_exec [OF Cons.prems(1) s1(1), of X] s1(2) by simp
    from Cons.IH [OF this c1(1) s1(3) tail] obtain r where
      "rest @ wire ps1 = out1 @ r" "still_open X w fd es s1 \<longrightarrow> conns s' w fd = Some c \<and> cc_send_buf (ctx_of s' (tc_ctx c)) = r"
      using c1(2) by auto
    moreover from this(1) have "cc_send_buf (ctx_of s (tc_ctx c)) @ wire ps = out @ r"
      by (metis rest(1) wire now(2) append.assoc)
    ultimately show ?thesis using s1(2) Cons.prems(2) by (intro exI [of _ r]) simp
  qed
qed

text \<open>
  C6. The stream of a connection is never torn: along any sequence of events, what the socket was given is the beginning of what was in
  the send buffer followed by the packets that were queued for the connection and fitted, whole, in the order in which their functors ran, and the
  rest is exactly what the send buffer holds, as long as the connection is open. Other connections, the timers, the business layer and the AI
  manager add no byte and take none away.
\<close>

theorem stream_integrity:
  assumes "reach X s" "conns s w fd = Some c" "runs X es s = Some s'" "traffic X w fd es s = (ps, out)"
  shows "\<exists>rest. cc_send_buf (ctx_of s (tc_ctx c)) @ wire ps = out @ rest \<and>
    (still_open X w fd es s \<longrightarrow> conns s' w fd = Some c \<and> cc_send_buf (ctx_of s' (tc_ctx c)) = rest)"
  by (rule traffic_stream [OF reach_net_inv [OF assms(1)] assms(2-4)])

definition demo_flow :: "event list" where
  "demo_flow = [SocketEvent 0 5 EPOLLIN [RData ping, RAgain] [], RunTask, SwapFunctors 0, RunFunctor 0,
     SocketEvent 0 5 EPOLLOUT [] [WOk 10, WAgain]]"

lemma demo_flow_eval:
  "\<exists>s. runs externals_ref demo_flow demo_one = Some s \<and> still_open externals_ref 0 5 demo_flow demo_one \<and>
     traffic externals_ref 0 5 demo_flow demo_one = ([(3, 7, ''PONG'')], take 10 (make_packet 3 7 ''PONG''))"
  by (simp add: demo_flow_def demo_one_eval step_defs event_bits demo_conn_def new_ClientContext_def read_ping new_pool_def length_packet
        demo_settings ping_hdr_def handle_heartbeat_def uid_of_def success_def new_Response_def codec_ref_def
        handle_write.simps wrote.simps)

theorem stream_integrity_witness:
  "\<exists>s. runs externals_ref demo_flow demo_one = Some s \<and> cc_send_buf (ctx_of s 0) = drop 10 (make_packet 3 7 ''PONG'')"
proof -
  obtain s where s: "runs externals_ref demo_flow demo_one = Some s" "still_open externals_ref 0 5 demo_flow demo_one"
    "traffic externals_ref 0 5 demo_flow demo_one = ([(3, 7, ''PONG'')], take 10 (make_packet 3 7 ''PONG''))"
    using demo_flow_eval by blast
  have "conns demo_one 0 5 = Some (demo_conn 5 0)" "cc_send_buf (ctx_of demo_one 0) = []"
    by (simp_all add: demo_one_eval new_ClientContext_def)
  with stream_integrity [OF reach_demo_one _ s(1,3)] s(2)
  have "make_packet 3 7 ''PONG'' = take 10 (make_packet 3 7 ''PONG'') @ cc_send_buf (ctx_of s 0)"
    by (simp add: demo_conn_def wire_def)
  then have "cc_send_buf (ctx_of s 0) = drop 10 (make_packet 3 7 ''PONG'')" by (metis append_take_drop_id same_append_eq)
  with s(1) show ?thesis by blast
qed

end
