(* ===== verification/Client.thy ===== *)
theory Client
  imports Framing Config
begin

text \<open>
  \<open>chat_client.cpp\<close>: the command line client. Its state is the object \<open>AIChatClient\<close>; the commands of the user, the packets that
  come in and the heartbeat are operations on it. Where the user's thread waits for the receiving thread,
  what the socket delivers meanwhile is an argument. The screen is the list of what is shown of messages;
  the fixed texts and prompts are left out.
\<close>

section \<open>State\<close>

record PendingAuth =
  pa_active :: bool
  pa_uid :: int
  pa_msg :: string

datatype shown = ShowUser int string bool | ShowAiBegin | ShowAiText string | ShowSystem bool string

text \<open>
  \<open>cl_sends\<close> holds the results of the next calls of \<open>::send\<close> (afterwards they succeed) and \<open>cl_out\<close> the bytes sent;
  \<open>cl_now\<close> and \<open>cl_wall\<close> are the steady and the system clock, in milliseconds.
\<close>

record client =
  cl_uid :: int
  cl_running :: bool
  cl_seq :: u32
  cl_in_stream :: bool
  cl_last_ai_chunk_time :: int
  cl_stream_completed :: bool
  cl_stream_started :: bool
  cl_pending_response :: PendingAuth
  cl_chat_target :: int
  cl_recent_contacts :: "int list"
  cl_buffer :: string
  cl_heartbeat :: bool
  cl_sends :: "bool list"
  cl_out :: string
  cl_shown :: "shown list"
  cl_now :: int
  cl_wall :: int

definition new_client :: client where
  "new_client = \<lparr>cl_uid = -1, cl_running = False, cl_seq = 0, cl_in_stream = False, cl_last_ai_chunk_time = 0,
     cl_stream_completed = False, cl_stream_started = False,
     cl_pending_response = \<lparr>pa_active = False, pa_uid = -1, pa_msg = []\<rparr>, cl_chat_target = 9999,
     cl_recent_contacts = [], cl_buffer = [], cl_heartbeat = False, cl_sends = [], cl_out = [], cl_shown = [],
     cl_now = 0, cl_wall = 0\<rparr>"

text \<open>\<open>connect\<close>, for the results of \<open>socket\<close> and \<open>::connect\<close>; and \<open>disconnect\<close>, which waits for the threads.\<close>

definition connect :: "bool \<Rightarrow> bool \<Rightarrow> client \<Rightarrow> bool \<times> client" where
  "connect sock_ok connect_ok c =
     (if \<not> sock_ok then (False, c) else if \<not> connect_ok then (False, c) else (True, c\<lparr>cl_running := True\<rparr>))"

definition disconnect :: "client \<Rightarrow> client" where
  "disconnect c = c\<lparr>cl_running := False, cl_heartbeat := False\<rparr>"

definition connected_client :: client where
  "connected_client = snd (connect True True new_client)"

type_synonym 'a cprog = "(client, 'a) prog"

definition is_logged_in :: "client \<Rightarrow> bool" where
  "is_logged_in c \<longleftrightarrow> cl_uid c > 0"

definition show_item :: "shown \<Rightarrow> client \<Rightarrow> client" where
  "show_item x c = c\<lparr>cl_shown := cl_shown c @ [x]\<rparr>"

section \<open>Sending\<close>

text \<open>\<open>::send\<close>: whether it succeeds, and the bytes that leave.\<close>

definition sock_send :: "string \<Rightarrow> client \<Rightarrow> bool \<times> client" where
  "sock_send bytes c = (case cl_sends c of
     [] \<Rightarrow> (True, c\<lparr>cl_out := cl_out c @ bytes\<rparr>)
   | ok # rest \<Rightarrow> (ok, c\<lparr>cl_sends := rest, cl_out := (if ok then cl_out c @ bytes else cl_out c)\<rparr>))"

definition send_packet :: "u32 \<Rightarrow> string \<Rightarrow> client \<Rightarrow> bool \<times> client" where
  "send_packet cm body c =
     (let sq = cl_seq c + 1; c1 = c\<lparr>cl_seq := sq\<rparr>;
          hdr = \<lparr>magic = PROTO_MAGIC, body_len = of_nat (length body), cmd = cm, seq = sq\<rparr>
      in case sock_send (header_bytes hdr) c1 of (ok, c2) \<Rightarrow>
        if \<not> ok then (False, c2)
        else if body = [] then (True, c2)
        else (case sock_send body c2 of (ok2, c3) \<Rightarrow> if \<not> ok2 then (False, c3) else (True, c3)))"

definition send_message :: "codec \<Rightarrow> int \<Rightarrow> string \<Rightarrow> client \<Rightarrow> bool \<times> client" where
  "send_message X to_uid txt c =
     (if \<not> is_logged_in c then (False, c)
      else send_packet (cmd_code CHAT) (ser_ChatMessage X (new_ChatMessage\<lparr>cm_from_uid := cl_uid c, cm_to_uid := to_uid,
        cm_content := txt, cm_timestamp := cl_wall c\<rparr>)) c)"

text \<open>One beat of the thread that \<open>start_heartbeat\<close> starts.\<close>

definition heartbeat_beat :: "codec \<Rightarrow> client \<Rightarrow> client" where
  "heartbeat_beat X c =
     (if cl_running c \<and> cl_uid c > 0
      then snd (send_packet (cmd_code HEARTBEAT) (ser_ChatMessage X (new_ChatMessage\<lparr>cm_from_uid := cl_uid c, cm_to_uid := 0,
        cm_content := ''PING''\<rparr>)) c)
      else c)"

definition start_heartbeat :: "client \<Rightarrow> client" where
  "start_heartbeat c = (if cl_heartbeat c then c else c\<lparr>cl_heartbeat := True\<rparr>)"

section \<open>Receiving\<close>

text \<open>
  One round of the loop over the buffer. The length of a packet is computed in 32 bits; where it wraps around, the
  end of the body comes before its beginning and the constructor of the string throws.
\<close>

definition client_packet :: "string \<Rightarrow> packet pstep" where
  "client_packet buf =
     (if length buf < sizeof_PacketHeader then NeedMore
      else let hdr = bytes_header buf in
        if magic hdr \<noteq> PROTO_MAGIC then Skip (tl buf)
        else let full_len = unat (of_nat sizeof_PacketHeader + body_len hdr) in
          if length buf < full_len then NeedMore
          else if full_len < sizeof_PacketHeader then Abort
          else Emit (hdr, take (full_len - sizeof_PacketHeader) (drop sizeof_PacketHeader buf)) (drop full_len buf))"

lemma client_packet_shorter:
  "client_packet b = Emit m r \<Longrightarrow> length r < length b" "client_packet b = Skip r \<Longrightarrow> length r < length b"
  by (auto simp: client_packet_def Let_def sizeof_PacketHeader_def split: if_splits)

function client_packets :: "string \<Rightarrow> packet prun" where
  "client_packets buf = (case client_packet buf of
     NeedMore \<Rightarrow> ([], buf, True)
   | Emit p rest \<Rightarrow> (case client_packets rest of (ps, r, ok) \<Rightarrow> (p # ps, r, ok))
   | Skip rest \<Rightarrow> client_packets rest
   | Abort \<Rightarrow> ([], buf, False))"
  by pat_completeness auto
termination
  by (relation "measure length") (auto dest: client_packet_shorter)

declare client_packets.simps [simp del]

lemma client_packet_extend:
  "client_packet b = Emit m r \<Longrightarrow> client_packet (b @ x) = Emit m (r @ x)"
  "client_packet b = Skip r \<Longrightarrow> client_packet (b @ x) = Skip (r @ x)"
  "client_packet b = Abort \<Longrightarrow> client_packet (b @ x) = Abort"
  by (auto simp: client_packet_def Let_def sizeof_PacketHeader_def bytes_header_extend tl_append split: if_splits list.split)

interpretation client_stream: incremental_parser client_packet client_packets
  by unfold_locales (auto simp: client_packets.simps dest: client_packet_shorter client_packet_extend)

definition handle_chat_message :: "ChatMessage \<Rightarrow> client \<Rightarrow> client" where
  "handle_chat_message msg c0 =
     (let c = c0\<lparr>cl_last_ai_chunk_time := cl_now c0\<rparr> in
      if cm_from_uid msg \<noteq> 9999
      then (if \<not> cl_in_stream c
            then show_item (ShowUser (cm_from_uid msg) (cm_content msg) (cm_from_uid msg = cl_chat_target c)) c else c)
      else if cm_is_last_chunk msg then c\<lparr>cl_in_stream := False, cl_stream_completed := True\<rparr>
      else if cm_content msg = [] then c
      else show_item (ShowAiText (cm_content msg))
        (if \<not> cl_in_stream c then show_item ShowAiBegin (c\<lparr>cl_in_stream := True, cl_stream_started := True\<rparr>) else c))"

definition handle_ack_response :: "Response \<Rightarrow> client \<Rightarrow> client" where
  "handle_ack_response resp c =
     (if rs_msg resp = ''PONG'' then c
      else if pa_active (cl_pending_response c)
      then c\<lparr>cl_pending_response := \<lparr>pa_active = False, pa_uid = rs_uid resp, pa_msg = rs_msg resp\<rparr>\<rparr>
      else show_item (ShowSystem (rs_success resp) (rs_msg resp)) c)"

definition handle_packet :: "codec \<Rightarrow> packet \<Rightarrow> client \<Rightarrow> client" where
  "handle_packet X p c =
     (if cmd (fst p) = cmd_code CHAT
      then (case parse_ChatMessage X (snd p) of Some msg \<Rightarrow> handle_chat_message msg c | None \<Rightarrow> c)
      else if cmd (fst p) = cmd_code ACK
      then (case parse_Response X (snd p) of Some resp \<Rightarrow> handle_ack_response resp c | None \<Rightarrow> c)
      else c)"

text \<open>What \<open>recv\<close> answers: bytes, nothing for a second (\<open>EAGAIN\<close>), the end of the stream, or an error.\<close>

datatype recv_result = RecvData string | RecvTimeout | RecvClosed | RecvError

text \<open>
  \<open>receive_loop\<close>, over the next answers of \<open>recv\<close>. An exception that leaves the loop ends the process. The loop takes a
  packet off the buffer before it handles it, and the handlers do not look at the buffer.
\<close>

definition receive_data :: "codec \<Rightarrow> string \<Rightarrow> unit cprog" where
  "receive_data X bytes c =
     (case client_packets (cl_buffer c @ bytes) of (ps, rest, ok) \<Rightarrow>
       let c1 = fold (handle_packet X) ps (c\<lparr>cl_buffer := rest\<rparr>)
       in if ok then (Val (), c1) else (Crash Terminate, c1))"

fun receive_loop :: "codec \<Rightarrow> recv_result list \<Rightarrow> unit cprog" where
  "receive_loop X [] c = (Val (), c)"
| "receive_loop X (ev # evs) c =
     (if \<not> cl_running c then (Val (), c)
      else case ev of
        RecvData bytes \<Rightarrow> seqP (receive_data X bytes) (receive_loop X evs) c
      | RecvTimeout \<Rightarrow> receive_loop X evs c
      | RecvClosed \<Rightarrow> (Val (), c\<lparr>cl_running := False\<rparr>)
      | RecvError \<Rightarrow> (Val (), c\<lparr>cl_running := False\<rparr>))"

section \<open>Logging in\<close>

text \<open>\<open>wait_auth_result\<close>, after the time in which \<open>evs\<close> arrived.\<close>

definition wait_auth_result :: "codec \<Rightarrow> recv_result list \<Rightarrow> bool cprog" where
  "wait_auth_result X evs =
     seqP (receive_loop X evs)
       (\<lambda>c. let p = cl_pending_response c in
         if pa_active p then (Val False, c\<lparr>cl_pending_response := p\<lparr>pa_active := False\<rparr>\<rparr>)
         else if pa_uid p > 0 then (Val True, start_heartbeat (c\<lparr>cl_uid := pa_uid p\<rparr>))
         else (Val False, c))"

definition do_auth :: "codec \<Rightarrow> u32 \<Rightarrow> string \<Rightarrow> recv_result list \<Rightarrow> bool cprog" where
  "do_auth X cm body evs c =
     (case send_packet cm body (c\<lparr>cl_pending_response := \<lparr>pa_active = True, pa_uid = -1, pa_msg = []\<rparr>\<rparr>) of
       (ok, c1) \<Rightarrow> if \<not> ok then (Val False, c1) else wait_auth_result X evs c1)"

definition do_register :: "codec \<Rightarrow> string \<Rightarrow> string \<Rightarrow> recv_result list \<Rightarrow> bool cprog" where
  "do_register X username password evs c =
     (if username = [] \<or> password = [] then (Val False, c)
      else do_auth X (cmd_code REGISTER) (ser_RegisterRequest X \<lparr>rr_username = username, rr_password = password\<rparr>) evs c)"

definition do_login :: "codec \<Rightarrow> string \<Rightarrow> string \<Rightarrow> recv_result list \<Rightarrow> bool cprog" where
  "do_login X username password evs c =
     (if username = [] \<or> password = [] then (Val False, c)
      else do_auth X (cmd_code LOGIN) (ser_LoginRequest X \<lparr>lr_username = username, lr_password = password\<rparr>) evs c)"

section \<open>Reading a line\<close>

text \<open>\<open>std::istringstream\<close>: extraction of a word and of an \<open>int\<close>.\<close>

definition read_word :: "string \<Rightarrow> (string \<times> string) option" where
  "read_word s = (let t = dropWhile is_space s in
     if t = [] then None else Some (takeWhile (\<lambda>c. \<not> is_space c) t, dropWhile (\<lambda>c. \<not> is_space c) t))"

definition read_int :: "string \<Rightarrow> (int \<times> string) option" where
  "read_int s =
     (let t = dropWhile is_space s;
          signed = (t \<noteq> [] \<and> (hd t = CHR ''+'' \<or> hd t = CHR ''-'')); neg = (t \<noteq> [] \<and> hd t = CHR ''-'');
          u = (if signed then tl t else t); ds = takeWhile is_digit u;
          v = (if neg then - int (dec_value ds) else int (dec_value ds))
      in if ds = [] \<or> v < INT_MIN \<or> INT_MAX < v then None else Some (v, dropWhile is_digit u))"

section \<open>Commands\<close>

definition add_recent_contact :: "int \<Rightarrow> client \<Rightarrow> client" where
  "add_recent_contact uid c =
     (let l = uid # filter (\<lambda>x. x \<noteq> uid) (cl_recent_contacts c)
      in c\<lparr>cl_recent_contacts := (if length l > 10 then butlast l else l)\<rparr>)"

text \<open>\<open>/register\<close> and \<open>/login\<close>: both words must be there.\<close>

definition auth_command :: "(string \<Rightarrow> string \<Rightarrow> bool cprog) \<Rightarrow> string \<Rightarrow> bool cprog" where
  "auth_command f s c =
     (case read_word s of
       None \<Rightarrow> (Val True, c)
     | Some (u, s1) \<Rightarrow> (case read_word s1 of None \<Rightarrow> (Val True, c) | Some (p, _) \<Rightarrow> f u p c))"

definition chat_command :: "string \<Rightarrow> client \<Rightarrow> client" where
  "chat_command s c =
     (case read_int s of
       None \<Rightarrow> c
     | Some (t, _) \<Rightarrow> if t = cl_uid c then c else add_recent_contact t (c\<lparr>cl_chat_target := t\<rparr>))"

definition to_command :: "codec \<Rightarrow> string \<Rightarrow> client \<Rightarrow> bool \<times> client" where
  "to_command X s c =
     (case read_int s of
       None \<Rightarrow> (True, c)
     | Some (t, rest) \<Rightarrow>
         let m0 = takeWhile (\<lambda>x. x \<noteq> CHR 0x0A) rest;
             m = (if m0 \<noteq> [] \<and> hd m0 = CHR '' '' then tl m0 else m0)
         in if m \<noteq> [] then send_message X t m (add_recent_contact t c) else (True, c))"

text \<open>
  \<open>handle_command\<close>: whether the line is done with. \<open>/list\<close>, \<open>/status\<close>, \<open>/help\<close> and what is not a command only print.
\<close>

definition client_command :: "codec \<Rightarrow> recv_result list \<Rightarrow> string \<Rightarrow> bool cprog" where
  "client_command X evs line c =
     (if line = [] \<or> hd line \<noteq> CHR ''/'' then (Val False, c)
      else case read_word line of
        None \<Rightarrow> (Val True, c)
      | Some (cm, s) \<Rightarrow>
          if cm = ''/register'' then auth_command (\<lambda>u p. do_register X u p evs) s c
          else if cm = ''/login'' then auth_command (\<lambda>u p. do_login X u p evs) s c
          else if \<not> is_logged_in c then (Val True, c)
          else if cm = ''/ai'' then (Val True, c\<lparr>cl_chat_target := 9999\<rparr>)
          else if cm = ''/chat'' then (Val True, chat_command s c)
          else if cm = ''/to'' then (case to_command X s c of (done, c1) \<Rightarrow> (Val done, c1))
          else if cm = ''/quit'' then (Val True, c\<lparr>cl_running := False\<rparr>)
          else (Val True, c))"

section \<open>The user's thread\<close>

text \<open>
  \<open>wait_for_stream_completion\<close>: \<open>evs\<close> arrives while it waits for the beginning of the answer; then each round is
  a wait, its length and what arrives in it. After the last of them nothing comes any more, so that the
  loop ends by the clock if the answer is not complete.
\<close>

fun wait_rounds :: "codec \<Rightarrow> (int \<times> recv_result list) list \<Rightarrow> unit cprog" where
  "wait_rounds X [] c = (Val (), c\<lparr>cl_in_stream := False\<rparr>)"
| "wait_rounds X ((dt, evs) # rounds) c =
     (if cl_running c \<and> \<not> cl_stream_completed c
      then seqP (receive_loop X evs) (\<lambda>c1. let c2 = c1\<lparr>cl_now := cl_now c1 + dt\<rparr> in
        if (cl_now c2 - cl_last_ai_chunk_time c2) div 1000 > 30 then (Val (), c2\<lparr>cl_in_stream := False\<rparr>)
        else wait_rounds X rounds c2) c
      else (Val (), c\<lparr>cl_in_stream := False\<rparr>))"

definition wait_for_stream_completion ::
  "codec \<Rightarrow> recv_result list \<Rightarrow> (int \<times> recv_result list) list \<Rightarrow> unit cprog" where
  "wait_for_stream_completion X evs rounds =
     seqP (receive_loop X evs)
       (\<lambda>c. if cl_running c \<and> \<not> cl_stream_started c then (Val (), c) else wait_rounds X rounds c)"

text \<open>What arrives during one turn of \<open>chat_loop\<close>: while a command waits, and while an answer is waited for.\<close>

record arrivals =
  ar_auth :: "recv_result list"
  ar_begin :: "recv_result list"
  ar_rounds :: "(int \<times> recv_result list) list"

text \<open>
  One turn of \<open>chat_loop\<close> on a line of input: the command, and the line as a message where it is none. The result is false where
  the loop is left.
\<close>

definition send_line :: "codec \<Rightarrow> arrivals \<Rightarrow> string \<Rightarrow> bool cprog" where
  "send_line X ar line c =
     (if \<not> is_logged_in c then (Val True, c)
      else if cl_chat_target c = 9999
      then (case send_message X 9999 line
              (c\<lparr>cl_stream_completed := False, cl_stream_started := False, cl_last_ai_chunk_time := cl_now c\<rparr>) of
        (ok, c1) \<Rightarrow> if \<not> ok then (Val False, c1)
          else seqP (wait_for_stream_completion X (ar_begin ar) (ar_rounds ar)) (ret True) c1)
      else (Val True, snd (send_message X (cl_chat_target c) line c)))"

definition chat_turn :: "codec \<Rightarrow> arrivals \<Rightarrow> string \<Rightarrow> bool cprog" where
  "chat_turn X ar line =
     (if line = [] then ret True
      else bindP (client_command X (ar_auth ar) line) (\<lambda>handled. if handled then ret True else send_line X ar line))"

fun chat_loop :: "codec \<Rightarrow> (arrivals \<times> string) list \<Rightarrow> unit cprog" where
  "chat_loop X [] c = (Val (), c)"
| "chat_loop X ((ar, line) # lines) c =
     (if \<not> cl_running c then (Val (), c)
      else bindP (chat_turn X ar line) (\<lambda>go_on. if go_on then chat_loop X lines else ret ()) c)"

text \<open>\<open>main\<close> after it has read its arguments: the result, and the client after its destructor.\<close>

definition client_main :: "codec \<Rightarrow> bool \<Rightarrow> bool \<Rightarrow> (arrivals \<times> string) list \<Rightarrow> int cprog" where
  "client_main X sock_ok connect_ok lines c =
     (case connect sock_ok connect_ok c of
       (False, c1) \<Rightarrow> (Val 1, disconnect c1)
     | (True, c1) \<Rightarrow> seqP (chat_loop X lines) (\<lambda>c2. (Val 0, disconnect c2)) c1)"

text \<open>
  The arguments of \<open>main\<close>: the host, and the port, a number of which the low 16 bits are taken. \<open>std::stoi\<close> throws where there is no number, and nothing
  catches it.
\<close>

definition client_args :: "string list \<Rightarrow> exn + (string \<times> u16)" where
  "client_args argv =
     (let host = (if length argv \<ge> 2 then argv ! 1 else ''127.0.0.1'') in
      if length argv \<ge> 3
      then (case parse_int INT_MIN INT_MAX (argv ! 2) of Inl e \<Rightarrow> Inl e | Inr v \<Rightarrow> Inr (host, word_of_int v))
      else Inr (host, 8888))"

text \<open>The whole program; \<open>net\<close> says what \<open>socket\<close> and \<open>::connect\<close> answer for a host and a port.\<close>

definition client_program :: "codec \<Rightarrow> (string \<Rightarrow> u16 \<Rightarrow> bool \<times> bool) \<Rightarrow> string list \<Rightarrow> (arrivals \<times> string) list \<Rightarrow> int outcome \<times> client" where
  "client_program X net argv lines =
     (case client_args argv of
       Inl e \<Rightarrow> (Crash Terminate, new_client)
     | Inr (host, port) \<Rightarrow> (case net host port of (sock_ok, connect_ok) \<Rightarrow> client_main X sock_ok connect_ok lines new_client))"

end
