(* ===== verification/Business_Safe.thy ===== *)
theory Business_Safe
  imports Demo
begin

text \<open>
  The faults of the business layer. A program is safe for an invariant if it keeps it and does not end the
  process; the rules push that through the program combinators, as \<open>keeps\<close> does for invariants alone. No
  operation of the storage faults, and a handler faults exactly by answering through a context that no worker
  owns.
\<close>

section \<open>Safe programs\<close>

definition safe :: "('s \<Rightarrow> bool) \<Rightarrow> ('s, 'a) prog \<Rightarrow> bool" where
  "safe I m \<longleftrightarrow> (\<forall>s. I s \<longrightarrow> I (snd (m s)) \<and> (\<forall>c. fst (m s) \<noteq> Crash c))"

named_theorems safe_intros \<open>rules for safe programs\<close>

lemma safeD: "safe I m \<Longrightarrow> I s \<Longrightarrow> I (snd (m s)) \<and> (\<forall>c. fst (m s) \<noteq> Crash c)"
  by (simp add: safe_def)

lemma safe_ret [safe_intros]: "safe I (ret x)"
  and safe_gets [safe_intros]: "safe I (getsP f)"
  and safe_throw [safe_intros]: "safe I (throwP e)"
  by (simp_all add: safe_def)

lemma safe_modify: "(\<And>s. I s \<Longrightarrow> I (f s)) \<Longrightarrow> safe I (modifyP f)"
  by (simp add: safe_def)

lemma safe_bind [safe_intros]:
  assumes "safe I m" "\<And>x. safe I (f x)"
  shows "safe I (bindP m f)"
  unfolding safe_def
proof (intro allI impI)
  fix s assume "I s"
  with assms(1) have "I (snd (m s)) \<and> (\<forall>c. fst (m s) \<noteq> Crash c)" by (rule safeD)
  then show "I (snd (bindP m f s)) \<and> (\<forall>c. fst (bindP m f s) \<noteq> Crash c)"
    using safeD [OF assms(2)] by (cases "m s"; cases "fst (m s)") (auto simp: run_bindP)
qed

lemma safe_seq [safe_intros]: "safe I m \<Longrightarrow> safe I n \<Longrightarrow> safe I (seqP m n)"
  unfolding seqP_def by (rule safe_bind)

lemma safe_catch [safe_intros]:
  assumes "safe I m" "\<And>e. safe I (h e)"
  shows "safe I (catchP m h)"
  unfolding safe_def
proof (intro allI impI)
  fix s assume "I s"
  with assms(1) have "I (snd (m s)) \<and> (\<forall>c. fst (m s) \<noteq> Crash c)" by (rule safeD)
  then show "I (snd (catchP m h s)) \<and> (\<forall>c. fst (catchP m h s) \<noteq> Crash c)"
    using safeD [OF assms(2)] by (cases "m s"; cases "fst (m s)") (auto simp: run_catchP)
qed

lemma safe_for [safe_intros]: "(\<And>x. safe I (f x)) \<Longrightarrow> safe I (forP xs f)"
  by (induction xs) (auto intro: safe_intros)

lemma safe_map [safe_intros]: "(\<And>x. safe I (f x)) \<Longrightarrow> safe I (mapP f xs)"
  by (induction xs) (auto intro: safe_intros)

lemma safe_if [safe_intros]: "(b \<Longrightarrow> safe I m) \<Longrightarrow> (\<not> b \<Longrightarrow> safe I n) \<Longrightarrow> safe I (if b then m else n)"
  by simp

lemma safe_option [safe_intros]:
  "(x = None \<Longrightarrow> safe I m) \<Longrightarrow> (\<And>y. x = Some y \<Longrightarrow> safe I (f y)) \<Longrightarrow> safe I (case x of None \<Rightarrow> m | Some y \<Rightarrow> f y)"
  by (cases x) simp_all

lemma safe_list [safe_intros]:
  "safe I m \<Longrightarrow> (\<And>y ys. safe I (f y ys)) \<Longrightarrow> safe I (case xs of [] \<Rightarrow> m | y # ys \<Rightarrow> f y ys)"
  by (cases xs) simp_all

lemma safe_prod [safe_intros]: "(\<And>x y. safe I (f x y)) \<Longrightarrow> safe I (case p of (x, y) \<Rightarrow> f x y)"
  by (cases p) simp

lemma safe_sum [safe_intros]: "(\<And>x. safe I (f x)) \<Longrightarrow> (\<And>y. safe I (g y)) \<Longrightarrow> safe I (case z of Inl x \<Rightarrow> f x | Inr y \<Rightarrow> g y)"
  by (cases z) simp_all

text \<open>What a query of the state tells, the rest of the program may use.\<close>

lemma safe_gets_bind:
  assumes "\<And>s. I s \<Longrightarrow> Q (g s)" "\<And>x. Q x \<Longrightarrow> safe I (f x)"
  shows "safe I (bindP (getsP g) f)"
  using assms by (simp add: safe_def)

section \<open>The storage never faults\<close>

abbreviation db_safe :: "('t, 'm, 'a) db_prog \<Rightarrow> bool" where
  "db_safe m \<equiv> safe (\<lambda>_. True) m"

lemma safe_true_modify [safe_intros]: "safe (\<lambda>_. True) (modifyP f)"
  by (simp add: safe_modify)

lemma db_safe_mysql [safe_intros]:
  "db_safe (mysql_query M sql)" "db_safe (mysql_store_result M)" "db_safe (esc M str)" "db_safe (mysql_insert_id M)"
  "db_safe (\<lambda>s. case my_real_connect M (mysql_world s) of (ok, w) \<Rightarrow> (Val ok, s\<lparr>mysql_world := w\<rparr>))"
  "db_safe (\<lambda>s. case my_ping M (mysql_world s) of (ok, w) \<Rightarrow> (Val ok, s\<lparr>mysql_world := w\<rparr>))"
  by (auto simp: safe_def mysql_query_def mysql_store_result_def esc_def mysql_insert_id_def split: prod.split)

lemma safe_stox [safe_intros]: "safe I (stoi c)" "safe I (stoll c)"
  by (auto simp: stoi_def stoll_def stox_def intro!: safe_intros)

lemma db_safe_connect [safe_intros]: "db_safe (connect_db M)" "db_safe (ensure_connected M)"
  unfolding ensure_connected_def connect_db_def by (intro safe_intros)+

lemma db_safe_queries [safe_intros]:
  "db_safe (query_has_rows M sql)" "(\<And>r. db_safe (f r)) \<Longrightarrow> db_safe (query_rows M sql f)"
  unfolding query_has_rows_def query_rows_def by (intro safe_intros | assumption)+

lemma db_safe_save [safe_intros]:
  "db_safe (save_users_file J)" "db_safe (save_friends_file J)" "db_safe (save_friend_reqs_file J)" "db_safe (save_messages_file J)"
  by (auto simp: safe_def save_defs run_bindP write_json_def Let_def split: option.split)

lemma db_safe_ops [safe_intros]:
  "db_safe (register_user X u p)" "db_safe (verify_login X u p)" "db_safe (query_offline_messages X uid)"
  "db_safe (search_users X k)" "db_safe (add_friend_request X a b m)" "db_safe (accept_friend_request X i a)"
  "db_safe (get_friends X uid)" "db_safe (get_pending_requests X uid)" "db_safe (mark_delivered X uid n)" "db_safe (submit m0)"
  unfolding register_user_def verify_login_def query_offline_messages_def search_users_def add_friend_request_def
    accept_friend_request_def get_friends_def get_pending_requests_def mark_delivered_def submit_def dispatch_def
    file_register_user_def file_verify_login_def file_query_offline_messages_def file_search_users_def
    file_add_friend_request_def file_accept_friend_request_def file_get_friends_def file_get_pending_requests_def
    file_mark_delivered_def mysql_register_user_def mysql_verify_login_def mysql_query_offline_messages_def
    mysql_search_users_def mysql_add_friend_request_def mysql_accept_friend_request_def mysql_get_friends_def
    mysql_get_pending_requests_def mysql_mark_delivered_def Let_def
  by (intro safe_intros)+

section \<open>The handlers\<close>

text \<open>
  \<open>own\<close> says which worker owns which context, which nothing in the business layer changes; the client's context
  and every context in the session table has an owner.
\<close>

definition served :: "(ctx_ref \<Rightarrow> nat option) \<Rightarrow> ctx_ref \<Rightarrow> ('t, 'm) server \<Rightarrow> bool" where
  "served own r s \<longleftrightarrow> (\<forall>x. cc_owner_worker (ctx_of s x) = own x) \<and> own r \<noteq> None \<and> sv_db s \<noteq> None \<and>
     (\<forall>u t. session_get (sv_sessions s) u = Some t \<longrightarrow> own t \<noteq> None)"

lemma served_queue: "served own r s \<Longrightarrow> served own r (queue_in_loop w f s)"
  by (simp add: served_def queue_in_loop_def)

lemma safe_send_to: "own t \<noteq> None \<Longrightarrow> safe (served own r) (send_to t c n b)"
  unfolding send_to_def queue_send_packet_def
  by (rule safe_gets_bind [where Q = "\<lambda>w. w \<noteq> None"]) (auto simp: served_def split: option.split intro!: safe_modify served_queue)

lemma safe_reply [safe_intros]: "own r \<noteq> None \<Longrightarrow> safe (served own r) (send_to r c n b)"
  by (rule safe_send_to)

lemma safe_with_db [safe_intros]:
  fixes m :: "('t, 'm, 'a) db_prog"
  assumes "db_safe m"
  shows "safe (served own r) (with_db m)"
  unfolding safe_def
proof (intro allI impI)
  fix s :: "('t, 'm) server"
  assume s: "served own r s"
  then obtain d where d: "sv_db s = Some d" by (auto simp: served_def)
  with safeD [OF assms, of d] s show "served own r (snd (with_db m s)) \<and> (\<forall>c. fst (with_db m s) \<noteq> Crash c)"
    by (auto simp: with_db_def served_def split: prod.split)
qed

lemma safe_bind_session [safe_intros]:
  assumes "own r \<noteq> None"
  shows "safe (served own r) (bind uid r)"
  unfolding safe_def
proof (intro allI impI)
  fix s assume s: "served own r s"
  let ?put = "\<lambda>s. (upd_ctx r (\<lambda>x. x\<lparr>cc_uid := uid, cc_logged_in := True\<rparr>) s)\<lparr>sv_sessions := session_put uid r (sv_sessions s)\<rparr>"
  have put: "served own r (?put s1)" if "served own r s1" for s1
    using that assms by (auto simp: served_def)
  show "served own r (snd (bind uid r s)) \<and> (\<forall>c. fst (bind uid r s) \<noteq> Crash c)"
  proof (cases "session_get (sv_sessions s) uid")
    case None
    then show ?thesis using put [OF s] by (simp add: bind_def run_seqP)
  next
    case (Some old)
    then obtain w where "cc_owner_worker (ctx_of s old) = Some w" using s by (metis not_None_eq served_def)
    then show ?thesis using Some put [OF s] put [OF served_queue [OF s]]
      by (simp add: bind_def run_seqP queue_close_connection_def)
  qed
qed

lemma safe_rate [safe_intros]: "safe (served own r) (rate_limited r)"
  unfolding rate_limited_def
  by (intro safe_intros safe_modify) (auto simp: served_def rate_update_def Let_def)

lemma safe_submit_stream [safe_intros]:
  "safe (served own r) (\<lambda>s. case submit_stream_request uid p r s of (ok, s') \<Rightarrow> (Val ok, s'))"
  by (auto simp: safe_def submit_stream_request_def served_def Let_def)

text \<open>A session that is found has an owner.\<close>

lemma safe_lookup:
  assumes "\<And>t. own t \<noteq> None \<Longrightarrow> safe (served own r) (f (Some t))" "safe (served own r) (f None)"
  shows "safe (served own r) (bindP (getsP (\<lambda>s. session_get (sv_sessions s) u)) f)"
proof (rule safe_gets_bind [where Q = "\<lambda>x. x = None \<or> (\<exists>t. x = Some t \<and> own t \<noteq> None)"])
  show "session_get (sv_sessions s) u = None \<or> (\<exists>t. session_get (sv_sessions s) u = Some t \<and> own t \<noteq> None)"
    if "served own r s" for s
    using that by (cases "session_get (sv_sessions s) u") (auto simp: served_def)
qed (use assms in blast)

lemma safe_notify [safe_intros]: "own r \<noteq> None \<Longrightarrow> safe (served own r) (notify X u m)"
  unfolding notify_def send_response_def by (rule safe_lookup) (auto intro: safe_send_to safe_intros)

lemma safe_submit_message [safe_intros]: "safe (served own r) (submit_message a b m d)"
  unfolding submit_message_def has_db_def by (intro safe_intros)

lemma safe_ai_chat [safe_intros]: "own r \<noteq> None \<Longrightarrow> safe (served own r) (handle_ai_chat X r n msg)"
  unfolding handle_ai_chat_def send_response_def uid_of_def by (intro safe_intros)

lemma safe_chat [safe_intros]:
  assumes "own r \<noteq> None"
  shows "safe (served own r) (handle_chat X r n body)"
proof (cases "parse_ChatMessage (x_codec X) body")
  case None
  then show ?thesis by (simp add: handle_chat_def safe_ret)
next
  case (Some msg)
  show ?thesis
    unfolding handle_chat_def Some option.case send_response_def uid_of_def
    by (rule safe_if, intro safe_intros assms, rule safe_lookup)
      (simp_all only: option.case, (intro safe_intros safe_send_to assms | assumption)+)
qed

lemma safe_business:
  assumes "own r \<noteq> None"
  shows "safe (served own r) (process_business X r hdr body)"
  unfolding process_business_def business_error_def handle_command_def handle_login_def handle_register_def handle_heartbeat_def
    handle_add_friend_def handle_accept_friend_def handle_friend_list_def handle_search_user_def handle_friend_requests_def
    send_response_def uid_of_def has_db_def send_users_def deliver_offline_def
  by (intro safe_intros assms)

section \<open>What can go wrong, and when\<close>

lemma send_to_no_throw: "fst (send_to r c n b s) \<noteq> Throw e"
  by (simp add: send_to_def split: option.split)

lemma business_no_throw: "fst (process_business X r hdr body s) \<noteq> Throw e"
  using send_to_no_throw [of r "cmd_code ACK" "seq hdr" "ser_Response (x_codec X) (failure txt_internal_error)"]
  by (auto simp: process_business_def business_error_def run_catchP send_response_def split: prod.split outcome.split)

text \<open>
  C22. Every packet is handled to the end: whatever a client sends, whatever the storage answers or
  throws, no exception leaves \<open>process_business\<close>; and as long as the storage exists and the
  client's context and the contexts in the session table belong to workers, the call returns.
\<close>

theorem business_returns:
  assumes "cc_owner_worker (ctx_of s r) \<noteq> None" "sv_db s \<noteq> None"
    and "\<forall>u t. session_get (sv_sessions s) u = Some t \<longrightarrow> cc_owner_worker (ctx_of s t) \<noteq> None"
  shows "fst (process_business X r hdr body s) = Val ()"
proof -
  have "served (\<lambda>x. cc_owner_worker (ctx_of s x)) r s" using assms by (simp add: served_def)
  then have "\<forall>c. fst (process_business X r hdr body s) \<noteq> Crash c"
    using safeD [OF safe_business [of "\<lambda>x. cc_owner_worker (ctx_of s x)" r X hdr body]] assms(1) by blast
  then show ?thesis using business_no_throw [of X r hdr body s] by (cases "fst (process_business X r hdr body s)") auto
qed

theorem business_returns_witness:
  "fst (process_business externals_ref 0 (ping_hdr\<lparr>cmd := cmd_code LOGIN\<rparr>) ''nobody'' demo_one) = Val ()"
  by (rule business_returns)
    (simp_all add: demo_one_eval new_ClientContext_def session_get_no)

text \<open>
  C35. A client that is taken when the worker's context pool is empty brings the server down with its
  first packet that is answered, such as a heartbeat: \<open>acquire\<close> then makes a context without an owner, and the answer
  goes through that null pointer.
\<close>

theorem exhausted_pool_faults:
  assumes "w_running (sv_worker s w) = FnAddConn fd ip port # fs" "free_list (w_pool (sv_worker s w)) = []"
  shows "\<exists>c. conns (run_next_functor w s) w fd = Some c \<and>
    (\<forall>n m b body. fst (process_business X (tc_ctx c) \<lparr>magic = m, body_len = b, cmd = cmd_code HEARTBEAT, seq = n\<rparr> body
       (run_next_functor w s)) = Crash NullDeref)"
proof -
  let ?s = "run_next_functor w s"
  have "conns ?s w fd = Some \<lparr>tc_fd = fd, tc_ip = ip, tc_port = port, tc_ctx = hp_next (sv_heap s), tc_closed = False\<rparr>"
    "cc_owner_worker (ctx_of ?s (hp_next (sv_heap s))) = None"
    using assms
    by (auto simp: run_next_functor_def add_connection_in_loop_def new_TcpConnection_def acquire_def make_shared_def
        conn_start_def Let_def destroy_TcpConnection_def update_time_def new_ClientContext_def split: option.split)
  then show ?thesis
    by (simp add: process_business_def run_catchP handle_command_def handle_heartbeat_def uid_of_def send_response_def send_to_def)
qed

theorem exhausted_pool_faults_witness:
  "let s = swap_functors 0 (queue_add_connection 0 6 ''10.0.0.1'' 4000 demo_one) in
   \<exists>c. conns (run_next_functor 0 s) 0 6 = Some c \<and>
     fst (process_business externals_ref (tc_ctx c) ping_hdr [] (run_next_functor 0 s)) = Crash NullDeref"
  using exhausted_pool_faults [of "swap_functors 0 (queue_add_connection 0 6 ''10.0.0.1'' 4000 demo_one)" 0 6 "''10.0.0.1''" 4000 "[]"
      externals_ref]
  by (auto simp: demo_one_eval swap_functors_def queue_add_connection_def queue_in_loop_def ping_hdr_def Let_def)

end
