(* ===== verification/Db_Refine.thy ===== *)
theory Db_Refine
  imports Db_Correct
begin

text \<open>
  The abstract specification of the storage (accounts, friendships, pending requests, unread
  messages, messages on their way) and the proof that the file storage implements it, operation by
  operation; then the theorems on accounts, friendship and offline messages that follow.
\<close>

section \<open>The specification\<close>

record social =
  so_accounts :: "string \<rightharpoonup> int \<times> string"
  so_next_uid :: int
  so_friends :: "(int \<times> int) set"
  so_pending :: "int \<rightharpoonup> int \<times> int \<times> string"
  so_next_req :: int
  so_unread :: "int \<Rightarrow> (int \<times> int \<times> string) list"
  so_next_msg :: int
  so_queue :: "DBChatMessage list"
  so_running :: bool

text \<open>A message is stored: it gets the next id, and it is unread if it was not delivered.\<close>

definition spec_store :: "DBChatMessage \<Rightarrow> social \<Rightarrow> social" where
  "spec_store m a = a\<lparr>so_next_msg := so_next_msg a + 1,
     so_unread := (if dm_delivered m then so_unread a
       else (so_unread a)(dm_to_uid m := so_unread a (dm_to_uid m) @
         [(so_next_msg a, dm_from_uid m, dm_content m)]))\<rparr>"

fun spec_step :: "(string \<Rightarrow> string) \<Rightarrow> db_op \<Rightarrow> social \<Rightarrow> social" where
  "spec_step hash (Register u p) a =
     (if u \<in> dom (so_accounts a) then a
      else a\<lparr>so_accounts := (so_accounts a)(u \<mapsto> (so_next_uid a, hash p)), so_next_uid := so_next_uid a + 1\<rparr>)"
| "spec_step hash (Login u p) a = a"
| "spec_step hash (AddFriend f t m) a =
     (if (f, t) \<in> so_friends a \<or> (\<exists>i m'. so_pending a i = Some (f, t, m')) then a
      else a\<lparr>so_pending := (so_pending a)(so_next_req a \<mapsto> (f, t, m)), so_next_req := so_next_req a + 1\<rparr>)"
| "spec_step hash (AcceptFriend i u) a = (case so_pending a i of
     None \<Rightarrow> a
   | Some (f, t, m) \<Rightarrow>
       if t = u then a\<lparr>so_pending := (so_pending a)(i := None),
         so_friends := (if f < 0 then so_friends a else so_friends a \<union> {(f, u), (u, f)})\<rparr>
       else a)"
| "spec_step hash (Submit m) a = a\<lparr>so_queue := so_queue a @ [m]\<rparr>"
| "spec_step hash (MarkDelivered u n) a =
     a\<lparr>so_unread := (so_unread a)(u := filter (\<lambda>(i, f, c). n < i) (so_unread a u))\<rparr>"
| "spec_step hash WriterRound a =
     (if so_running a then fold spec_store (take 100 (so_queue a)) (a\<lparr>so_queue := drop 100 (so_queue a)\<rparr>) else a)"

section \<open>The abstraction\<close>

definition abs_accounts :: "FileUser list \<Rightarrow> string \<rightharpoonup> int \<times> string" where
  "abs_accounts us = map_of (map (\<lambda>u. (fu_username u, (fu_uid u, fu_password_hash u))) us)"

definition abs_friends :: "(int \<times> int) list \<Rightarrow> (int \<times> int) set" where
  "abs_friends ps = {(a, b). (a, b) \<in> set ps \<or> (b, a) \<in> set ps}"

definition abs_pending :: "FileFriendRequest list \<Rightarrow> int \<rightharpoonup> int \<times> int \<times> string" where
  "abs_pending rs = map_of (map (\<lambda>r. (fq_id r, (fq_from_uid r, fq_to_uid r, fq_message r)))
     (filter (\<lambda>r. fq_status r = 0) rs))"

definition abs_unread :: "FileMessage list \<Rightarrow> int \<Rightarrow> (int \<times> int \<times> string) list" where
  "abs_unread ms uid = map (\<lambda>m. (fm_id m, fm_from_uid m, fm_content m))
     (filter (\<lambda>m. fm_to_uid m = uid \<and> \<not> fm_delivered m) ms)"

definition social_abs :: "('t, 'm) db \<Rightarrow> social" where
  "social_abs s = \<lparr>so_accounts = abs_accounts (file_users s), so_next_uid = file_next_uid s,
     so_friends = abs_friends (file_friends s), so_pending = abs_pending (file_friend_reqs s),
     so_next_req = file_next_req_id s, so_unread = abs_unread (file_messages s),
     so_next_msg = file_next_msg_id s, so_queue = db_queue s, so_running = db_running s\<rparr>"

lemma social_abs_data:
  fixes s s' :: "('t, 'm) db"
  shows "data s = data s' \<Longrightarrow> social_abs s = social_abs s'"
proof -
  have "social_abs (data t) = social_abs t" for t :: "('t, 'm) db" by (simp add: social_abs_def)
  then show "data s = data s' \<Longrightarrow> social_abs s = social_abs s'" by metis
qed

lemma social_abs_of_data: "data s' = data t \<Longrightarrow> social_abs t = a \<Longrightarrow> social_abs s' = a"
  using social_abs_data by blast

section \<open>The pieces of the simulation\<close>

lemma dom_abs_accounts: "dom (abs_accounts us) = fu_username ` set us"
  by (simp add: abs_accounts_def dom_map_of_conv_image_fst image_image)

lemma abs_accounts_snoc:
  "u \<notin> fu_username ` set us \<Longrightarrow> abs_accounts (us @ [\<lparr>fu_uid = i, fu_username = u, fu_password_hash = h\<rparr>]) =
   (abs_accounts us)(u \<mapsto> (i, h))"
  by (simp add: abs_accounts_def map_of_snoc image_image del: map_of_append)

lemma abs_pending_snoc:
  "\<forall>r \<in> set rs. fq_id r < i \<Longrightarrow>
   abs_pending (rs @ [\<lparr>fq_id = i, fq_from_uid = f, fq_to_uid = t, fq_message = m, fq_status = 0\<rparr>]) =
   (abs_pending rs)(i \<mapsto> (f, t, m))"
  unfolding abs_pending_def filter_append map_append
  by (simp del: map_of_append) (rule map_of_snoc, force)

lemma abs_pending_Some:
  assumes "distinct (map fq_id rs)"
  shows "abs_pending rs i = Some (f, t, m) \<longleftrightarrow>
    (\<exists>r \<in> set rs. fq_id r = i \<and> fq_from_uid r = f \<and> fq_to_uid r = t \<and> fq_message r = m \<and> fq_status r = 0)"
proof -
  have "distinct (map fq_id (filter (\<lambda>r. fq_status r = 0) rs))"
    using assms by (induction rs) auto
  then show ?thesis by (force simp: abs_pending_def comp_def)
qed

lemma abs_friends_normal:
  assumes "\<forall>p \<in> set ps. fst p \<le> snd p"
  shows "(f, t) \<in> abs_friends ps \<longleftrightarrow> (min f t, max f t) \<in> set ps"
  using assms by (auto simp: abs_friends_def min_def max_def)

lemma abs_friends_snoc: "abs_friends (ps @ [(min f u, max f u)]) = abs_friends ps \<union> {(f, u), (u, f)}"
  by (auto simp: abs_friends_def min_def max_def)

text \<open>The loop of \<open>accept_friend_request\<close> against the pending requests.\<close>

lemma accept_loop_none:
  assumes "distinct (map fq_id rs)" "\<forall>f m. abs_pending rs i \<noteq> Some (f, a, m)"
  shows "accept_loop i a rs = (-1, rs)"
  using assms(2) unfolding abs_pending_Some [OF assms(1)]
  by (induction rs) auto

lemma abs_pending_Cons:
  "abs_pending (r # rs) = (if fq_status r = 0
     then (abs_pending rs)(fq_id r \<mapsto> (fq_from_uid r, fq_to_uid r, fq_message r)) else abs_pending rs)"
  by (simp add: abs_pending_def)

lemma abs_pending_fresh: "i \<notin> fq_id ` set rs \<Longrightarrow> abs_pending rs i = None"
  by (induction rs) (auto simp: abs_pending_Cons, simp add: abs_pending_def)

lemma accept_loop_some:
  assumes "distinct (map fq_id rs)" "abs_pending rs i = Some (f, a, m)"
  shows "\<exists>rs'. accept_loop i a rs = (f, rs') \<and> abs_pending rs' = (abs_pending rs)(i := None)"
  using assms
proof (induction rs)
  case Nil
  then show ?case by (simp add: abs_pending_def)
next
  case (Cons r rs)
  show ?case
  proof (cases "fq_id r = i \<and> fq_status r = 0")
    case True
    with Cons.prems have "abs_pending rs i = None" by (auto intro: abs_pending_fresh)
    with True Cons.prems show ?thesis by (auto simp: abs_pending_Cons fun_eq_iff)
  next
    case False
    with Cons.prems have pend: "abs_pending rs i = Some (f, a, m)"
      by (auto simp: abs_pending_Cons split: if_splits)
    with Cons.prems have "i \<noteq> fq_id r" by (auto simp: abs_pending_fresh)
    moreover obtain rs' where "accept_loop i a rs = (f, rs')" "abs_pending rs' = (abs_pending rs)(i := None)"
      using Cons.IH [OF _ pend] Cons.prems(1) by (simp, blast)
    ultimately show ?thesis using False by (auto simp: abs_pending_Cons fun_eq_iff)
  qed
qed

lemma abs_unread_mark:
  "abs_unread (map (\<lambda>m. if fm_to_uid m = u \<and> fm_id m \<le> n then m\<lparr>fm_delivered := True\<rparr> else m) ms) =
   (abs_unread ms)(u := filter (\<lambda>(i, f, c). n < i) (abs_unread ms u))"
  by (rule ext, induction ms) (auto simp: abs_unread_def)

lemma social_abs_store: "social_abs (store_message m s) = spec_store m (social_abs s)"
  by (auto simp: social_abs_def store_message_def spec_store_def abs_unread_def fun_eq_iff)

lemma social_abs_store_all: "social_abs (fold store_message ms s) = fold spec_store ms (social_abs s)"
  by (induction ms arbitrary: s) (simp_all add: social_abs_store)

lemma social_abs_queue: "social_abs (s\<lparr>db_queue := xs\<rparr>) = (social_abs s)\<lparr>so_queue := xs\<rparr>"
  by (simp add: social_abs_def)

section \<open>The simulation\<close>

lemma refines_register:
  assumes "file_mode s"
  shows "social_abs (db_step X (Register u p) s) = spec_step (file_hash (x_hash X)) (Register u p) (social_abs s)"
proof -
  have "use_file_storage s" using assms by (simp add: file_mode_def)
  note eff = data_register_user [OF this, of X u p]
  show ?thesis
  proof (cases "u \<in> fu_username ` set (file_users s)")
    case True
    with eff have "social_abs (snd (register_user X u p s)) = social_abs s"
      by (intro social_abs_data) simp
    with True show ?thesis by (simp add: social_abs_def dom_abs_accounts)
  next
    case False
    with eff have "data (snd (register_user X u p s)) = data (s\<lparr>file_next_uid := file_next_uid s + 1,
        file_users := file_users s @ [\<lparr>fu_uid = file_next_uid s, fu_username = u,
          fu_password_hash = file_hash (x_hash X) p\<rparr>]\<rparr>)" by simp
    from social_abs_data [OF this] False show ?thesis
      by (simp add: social_abs_def dom_abs_accounts abs_accounts_snoc)
  qed
qed

lemma refines_add_friend:
  assumes "file_mode s"
  shows "social_abs (db_step X (AddFriend f t m) s) = spec_step hash (AddFriend f t m) (social_abs s)"
proof -
  have inv: "use_file_storage s" "file_inv s" using assms by (simp_all add: file_mode_def)
  note eff = data_add_friend_request [OF inv(1), of X f t m]
  have fr: "(f, t) \<in> abs_friends (file_friends s) \<longleftrightarrow> (min f t, max f t) \<in> set (file_friends s)"
    using inv(2) by (intro abs_friends_normal) (auto simp: file_inv_def)
  have pe: "(\<exists>i m'. abs_pending (file_friend_reqs s) i = Some (f, t, m')) \<longleftrightarrow>
      (\<exists>r \<in> set (file_friend_reqs s). fq_from_uid r = f \<and> fq_to_uid r = t \<and> fq_status r = 0)"
    using inv(2) by (subst abs_pending_Some) (auto simp: file_inv_def)
  show ?thesis
  proof (cases "(min f t, max f t) \<in> set (file_friends s) \<or>
      (\<exists>r \<in> set (file_friend_reqs s). fq_from_uid r = f \<and> fq_to_uid r = t \<and> fq_status r = 0)")
    case True
    with eff have "data (db_step X (AddFriend f t m) s) = data s" by simp
    then have "social_abs (db_step X (AddFriend f t m) s) = social_abs s" by (rule social_abs_data)
    with True show ?thesis by (simp add: social_abs_def fr pe)
  next
    case False
    have "abs_pending (file_friend_reqs s @ [\<lparr>fq_id = file_next_req_id s, fq_from_uid = f, fq_to_uid = t,
        fq_message = m, fq_status = 0\<rparr>]) = (abs_pending (file_friend_reqs s))(file_next_req_id s \<mapsto> (f, t, m))"
      using inv(2) by (intro abs_pending_snoc) (simp add: file_inv_def)
    moreover from False eff have "data (snd (add_friend_request X f t m s)) = data (s\<lparr>file_next_req_id :=
        file_next_req_id s + 1, file_friend_reqs := file_friend_reqs s @ [\<lparr>fq_id = file_next_req_id s,
          fq_from_uid = f, fq_to_uid = t, fq_message = m, fq_status = 0\<rparr>]\<rparr>)" by (simp only: if_False)
    note social_abs_data [OF this]
    ultimately show ?thesis using False by (simp add: social_abs_def fr pe)
  qed
qed

lemma refines_accept:
  assumes "file_mode s"
  shows "social_abs (db_step X (AcceptFriend i u) s) = spec_step hash (AcceptFriend i u) (social_abs s)"
proof -
  have inv: "use_file_storage s" "distinct (map fq_id (file_friend_reqs s))"
    using assms by (simp_all add: file_mode_def file_inv_def)
  show ?thesis
  proof (cases "\<exists>f m. abs_pending (file_friend_reqs s) i = Some (f, u, m)")
    case True
    then obtain f m rs where p: "abs_pending (file_friend_reqs s) i = Some (f, u, m)"
      "accept_loop i u (file_friend_reqs s) = (f, rs)"
      "abs_pending rs = (abs_pending (file_friend_reqs s))(i := None)"
      using accept_loop_some [OF inv(2)] by blast
    note eff = data_accept_friend_request [OF inv(1) p(2), of X]
    show ?thesis
      by (simp, rule social_abs_of_data [OF eff]) (simp add: social_abs_def p abs_friends_snoc)
  next
    case False
    then have "accept_loop i u (file_friend_reqs s) = (-1, file_friend_reqs s)"
      by (intro accept_loop_none [OF inv(2)]) auto
    note eff = data_accept_friend_request [OF inv(1) this, of X]
    show ?thesis
      using False
      by (simp, intro social_abs_of_data [OF eff]) (auto simp: social_abs_def split: option.split)
  qed
qed

lemma refines_messages:
  assumes "use_file_storage s"
  shows "social_abs (db_step X (MarkDelivered u n) s) = spec_step hash (MarkDelivered u n) (social_abs s)"
    and "social_abs (db_step X WriterRound s) = spec_step hash WriterRound (social_abs s)"
proof -
  show "social_abs (db_step X (MarkDelivered u n) s) = spec_step hash (MarkDelivered u n) (social_abs s)"
    by (simp, rule social_abs_of_data [OF data_mark_delivered [OF assms]])
      (simp add: social_abs_def abs_unread_mark)
  have "social_abs (snd (writer_round X s)) =
      social_abs (if db_running s then fold store_message (take 100 (db_queue s)) (s\<lparr>db_queue := drop 100 (db_queue s)\<rparr>) else s)"
    using data_writer_round [OF assms, of X] by (intro social_abs_data) simp
  then show "social_abs (db_step X WriterRound s) = spec_step hash WriterRound (social_abs s)"
    by (auto simp: social_abs_store_all social_abs_queue) (simp_all add: social_abs_def)
qed

lemma db_step_refines:
  assumes "file_mode s"
  shows "social_abs (db_step X op s) = spec_step (file_hash (x_hash X)) op (social_abs s)"
proof (cases op)
  case (Submit m)
  then show ?thesis by (simp add: submit_def social_abs_def)
next
  case (Login u p)
  then show ?thesis using assms by (simp add: file_mode_def)
next
  case (Register u p)
  then show ?thesis using refines_register [OF assms] by blast
next
  case (AddFriend f t m)
  then show ?thesis using refines_add_friend [OF assms] by blast
next
  case (AcceptFriend i u)
  then show ?thesis using refines_accept [OF assms] by blast
next
  case (MarkDelivered u n)
  then show ?thesis using refines_messages(1) assms unfolding file_mode_def by blast
next
  case WriterRound
  then show ?thesis using refines_messages(2) assms unfolding file_mode_def by blast
qed

text \<open>
  C7. The file storage implements the specification: every operation of \<open>DBBatchWriter\<close> in file mode
  does to accounts, friendships, pending requests, unread messages and the message queue exactly
  what the specification says, also when saving to disk fails.
\<close>

theorem file_storage_refines:
  assumes "file_mode s"
  shows "social_abs (db_step X op s) = spec_step (file_hash (x_hash X)) op (social_abs s)"
  using assms by (rule db_step_refines)

section \<open>Histories\<close>

lemma file_mode_history: "file_mode s \<Longrightarrow> file_mode (fold (db_step X) ops s)"
  by (induction ops arbitrary: s) (simp_all add: file_mode_db_step)

text \<open>
  No history of operations breaks the file storage: starting from empty files, user names and
  user ids stay unique, ids are below the counters they come from, messages are in the order of
  their ids and friendship pairs are normalised.
\<close>

theorem file_storage_inv: "file_inv (fold (db_step X) ops ((new_db d cw w)\<lparr>use_file_storage := True\<rparr>))"
proof -
  have "file_mode ((new_db d cw w)\<lparr>use_file_storage := True\<rparr>)"
    by (simp add: file_mode_def file_inv_def new_db_def)
  then have "file_mode (fold (db_step X) ops ((new_db d cw w)\<lparr>use_file_storage := True\<rparr>))"
    by (rule file_mode_history)
  then show ?thesis by (simp add: file_mode_def)
qed

section \<open>Accounts\<close>

text \<open>
  What a client of the storage relies on: an account, once made, stays what it was whatever else is
  done, and logging in is a lookup of the account and a comparison of password hashes.
\<close>

locale account_store =
  fixes login :: "string \<Rightarrow> string \<Rightarrow> 's \<Rightarrow> int outcome \<times> 's"
    and step :: "'op \<Rightarrow> 's \<Rightarrow> 's"
    and inv :: "'s \<Rightarrow> bool"
    and accounts :: "'s \<Rightarrow> string \<rightharpoonup> int \<times> string"
    and hash :: "string \<Rightarrow> string"
  assumes step_inv: "inv s \<Longrightarrow> inv (step op s)"
    and step_account: "inv s \<Longrightarrow> accounts s u = Some a \<Longrightarrow> accounts (step op s) u = Some a"
    and login_law: "inv s \<Longrightarrow> login u p s = (Val (case accounts s u of
        None \<Rightarrow> -1 | Some (i, h) \<Rightarrow> if h = hash p then i else -1), s)"
begin

lemma history_account:
  "inv s \<Longrightarrow> accounts s u = Some a \<Longrightarrow>
   inv (fold step ops s) \<and> accounts (fold step ops s) u = Some a"
  by (induction ops arbitrary: s) (simp_all add: step_inv step_account)

lemma login_history:
  assumes "inv s" "accounts s u = Some (i, hash p)"
  shows "login u p (fold step ops s) = (Val i, fold step ops s)"
    and "hash p' \<noteq> hash p \<Longrightarrow> login u p' (fold step ops s) = (Val (-1), fold step ops s)"
  using history_account [OF assms, of ops] by (auto simp: login_law)

end

lemma so_accounts_store [simp]: "so_accounts (fold spec_store ms a) = so_accounts a"
  by (induction ms arbitrary: a) (simp_all add: spec_store_def)

lemma spec_step_account: "so_accounts a u = Some v \<Longrightarrow> so_accounts (spec_step h op a) u = Some v"
  by (cases op) (auto split: option.splits prod.splits)

lemma find_account:
  "distinct (map fu_username us) \<Longrightarrow>
   (case List.find (\<lambda>x. fu_username x = u \<and> fu_password_hash x = h) us of Some x \<Rightarrow> fu_uid x | None \<Rightarrow> -1) =
   (case abs_accounts us u of None \<Rightarrow> -1 | Some (i, h') \<Rightarrow> if h' = h then i else -1)"
proof (induction us)
  case (Cons x us)
  show ?case
  proof (cases "fu_username x = u")
    case True
    with Cons.prems have "List.find (\<lambda>x. fu_username x = u \<and> fu_password_hash x = h) us = None"
      by (simp add: find_None_iff) (metis image_eqI)
    with True show ?thesis by (auto simp: abs_accounts_def)
  next
    case False
    with Cons show ?thesis by (simp add: abs_accounts_def)
  qed
qed (simp add: abs_accounts_def)

lemma verify_login_file:
  assumes "file_mode s"
  shows "verify_login X u p s = (Val (case abs_accounts (file_users s) u of
    None \<Rightarrow> -1 | Some (i, h) \<Rightarrow> if h = file_hash (x_hash X) p then i else -1), s)"
  using assms find_account [of "file_users s" u "file_hash (x_hash X) p"]
  by (simp add: verify_login_def dispatch_file file_verify_login_def file_mode_def file_inv_def)

interpretation file_accounts: account_store "verify_login X" "db_step X" file_mode
  "\<lambda>s. abs_accounts (file_users s)" "file_hash (x_hash X)" for X :: "('j, 't, 'm) externals"
proof (unfold_locales, goal_cases)
  case (1 s op)
  then show ?case by (rule file_mode_db_step)
next
  case (2 s u a op)
  then have "so_accounts (social_abs (db_step X op s)) u = Some a"
    by (simp only: db_step_refines, intro spec_step_account) (simp add: social_abs_def)
  then show ?case by (simp add: social_abs_def)
next
  case (3 s u p)
  then show ?case by (rule verify_login_file)
qed

lemma register_user_result:
  assumes "use_file_storage s" "register_user X u p s = (Val i, s')"
  shows "i = (if u \<in> fu_username ` set (file_users s) then -2 else file_next_uid s)"
  using assms
  by (auto simp: register_user_def dispatch_file file_register_user_def list_ex_iff Let_def run_seqP
      split: if_splits prod.splits outcome.splits)

lemma register_user_account:
  assumes "file_mode s" "register_user X u p s = (Val i, s')" "i \<noteq> -2"
  shows "file_mode s' \<and> abs_accounts (file_users s') = (abs_accounts (file_users s))(u \<mapsto> (i, file_hash (x_hash X) p))
    \<and> u \<notin> dom (abs_accounts (file_users s)) \<and> i = file_next_uid s"
proof -
  have fs: "use_file_storage s" using assms(1) by (simp add: file_mode_def)
  from register_user_result [OF fs assms(2)] assms(3)
  have new: "u \<notin> fu_username ` set (file_users s)" "i = file_next_uid s" by (auto split: if_splits)
  have s': "s' = db_step X (Register u p) s" using assms(2) by simp
  have "so_accounts (social_abs s') = (so_accounts (social_abs s))(u \<mapsto> (i, file_hash (x_hash X) p))"
    unfolding s' using new by (subst db_step_refines [OF assms(1)]) (auto simp: social_abs_def dom_abs_accounts)
  moreover have "file_mode s'" unfolding s' using assms(1) by (rule file_mode_db_step)
  ultimately show ?thesis using new by (simp add: social_abs_def dom_abs_accounts)
qed

lemma account_uid_range:
  assumes "file_mode s" "abs_accounts (file_users s) v = Some (j, h)"
  shows "0 < j \<and> j < file_next_uid s"
  using assms unfolding abs_accounts_def
  by (auto simp: file_mode_def file_inv_def dest!: map_of_SomeD)

text \<open>
  Registration and login: a registration that succeeds makes an account with an id of its own,
  and from then on, after any history of operations, that name and password log in as that id and
  a password with another hash does not log in.
\<close>

theorem register_then_login:
  assumes "file_mode s" "register_user X u p s = (Val i, s')" "i \<noteq> -2"
  shows "0 < i \<and> (\<forall>v j h. abs_accounts (file_users s) v = Some (j, h) \<longrightarrow> v \<noteq> u \<and> j \<noteq> i) \<and>
    verify_login X u p (fold (db_step X) ops s') = (Val i, fold (db_step X) ops s') \<and>
    (file_hash (x_hash X) p' \<noteq> file_hash (x_hash X) p \<longrightarrow>
      verify_login X u p' (fold (db_step X) ops s') = (Val (-1), fold (db_step X) ops s'))"
proof -
  note acc = register_user_account [OF assms]
  have "0 < i" using acc assms(1) by (simp add: file_mode_def file_inv_def)
  moreover have "v \<noteq> u \<and> j \<noteq> i" if "abs_accounts (file_users s) v = Some (j, h)" for v j h
    using acc that account_uid_range [OF assms(1) that] by auto
  ultimately show ?thesis
    using acc file_accounts.login_history [where X = X and s = s' and u = u and i = i and p = p]
    by auto
qed

section \<open>Examples\<close>

theorem file_storage_refines_witness:
  "social_abs (db_step externals_ref (Register ''ann'' ''pw'') fresh_db) =
     spec_step (file_hash (x_hash externals_ref)) (Register ''ann'' ''pw'') (social_abs fresh_db)"
  by (rule file_storage_refines [OF fresh_db_mode])

lemma fresh_register: "register_user externals_ref ''ann'' ''pw'' fresh_db =
    (Val 1000, snd (register_user externals_ref ''ann'' ''pw'' fresh_db))"
  by (simp add: register_user_def fresh_db_run)

theorem register_then_login_witness:
  "let s = fold (db_step externals_ref) [AddFriend 1000 7 ''hi'', Register ''bob'' ''x'']
       (snd (register_user externals_ref ''ann'' ''pw'' fresh_db))
   in verify_login externals_ref ''ann'' ''pw'' s = (Val 1000, s)"
  using register_then_login [OF fresh_db_mode fresh_register, of "[AddFriend 1000 7 ''hi'', Register ''bob'' ''x'']"]
  by (simp add: Let_def)

end
