(* ===== verification/Db_Theorems.thy ===== *)
theory Db_Theorems
  imports Db_Refine
begin

text \<open>
  Search, friendship, offline messages and the message queue of \<open>DBBatchWriter\<close>, and what becomes of
  stored data when saving or the database fails.
\<close>

section \<open>Search\<close>

lemma search_loop_spec:
  "length result < 20 \<Longrightarrow> search_loop kw result us =
   result @ take (20 - length result) (map (\<lambda>u. (fu_uid u, fu_username u))
     (filter (\<lambda>u. str_contains (map tolower (fu_username u)) kw) us))"
proof (induction us arbitrary: result)
  case (Cons u us)
  show ?case
  proof (cases "length result = 19")
    case True
    with Cons show ?thesis by (simp add: Let_def)
  next
    case False
    with Cons.prems have "length (result @ [(fu_uid u, fu_username u)]) < 20" by simp
    moreover have "20 - length result = Suc (19 - length result)" using Cons.prems by simp
    ultimately show ?thesis
      using Cons.IH [of "result @ [(fu_uid u, fu_username u)]"] Cons.IH [of result] False Cons.prems
      by (simp add: Let_def)
  qed
qed simp

text \<open>
  User search in file mode: the first twenty users, in the order of registration, whose name
  contains the keyword when upper and lower case are not told apart; searching changes nothing.
\<close>

theorem search_users_spec:
  assumes "use_file_storage s"
  shows "search_users X keyword s = (Val (take 20 (map (\<lambda>u. (fu_uid u, fu_username u))
    (filter (\<lambda>u. \<exists>a b. map tolower (fu_username u) = a @ map tolower keyword @ b) (file_users s)))), s)"
  using assms by (simp add: search_users_def dispatch_file file_search_users_def search_loop_spec
      str_contains_iff)

section \<open>Friendship\<close>

lemma set_friends_loop: "fst ` set (friends_loop uid us ps) = {v. (uid, v) \<in> abs_friends ps}"
proof (induction ps)
  case Nil
  then show ?case by (simp add: abs_friends_def)
next
  case (Cons p ps)
  have "{v. (uid, v) \<in> abs_friends (p # ps)} =
      (if fst p = uid then {snd p} else {}) \<union> (if snd p = uid then {fst p} else {}) \<union> {v. (uid, v) \<in> abs_friends ps}"
    by (cases p) (auto simp: abs_friends_def)
  with Cons show ?case by (cases p) auto
qed

lemma get_friends_spec:
  assumes "use_file_storage s"
  shows "\<exists>fs. get_friends X uid s = (Val fs, s) \<and> fst ` set fs = {v. (uid, v) \<in> abs_friends (file_friends s)}"
  using assms set_friends_loop by (simp add: get_friends_def dispatch_file file_get_friends_def)

lemma add_friend_request_result:
  assumes "use_file_storage s" "add_friend_request X a b m s = (Val r, s')"
  shows "r = (if (min a b, max a b) \<in> set (file_friends s) then -2
    else if \<exists>q \<in> set (file_friend_reqs s). fq_from_uid q = a \<and> fq_to_uid q = b \<and> fq_status q = 0 then -3
    else file_next_req_id s)"
  using assms
  by (force simp: add_friend_request_def dispatch_file file_add_friend_request_def list_ex_iff Let_def run_seqP
      split: if_splits prod.splits outcome.splits)

lemma add_friend_request_friends:
  assumes "use_file_storage s" "(min a b, max a b) \<in> set (file_friends s)"
  shows "add_friend_request X a b m s = (Val (-2), s)"
  using assms
  by (force simp: add_friend_request_def dispatch_file file_add_friend_request_def list_ex_iff Let_def)

lemma accept_friend_request_result:
  assumes "use_file_storage s" "accept_loop i u (file_friend_reqs s) = (f, rs)"
    "accept_friend_request X i u s = (Val r, s')"
  shows "r = (if f < 0 then -1 else f)"
  using assms
  by (auto simp: accept_friend_request_def dispatch_file file_accept_friend_request_def Let_def run_seqP
      split: if_splits prod.splits outcome.splits)

lemma accept_friend_request_none:
  assumes "file_mode s" "\<forall>f m. abs_pending (file_friend_reqs s) i \<noteq> Some (f, u, m)"
  shows "accept_friend_request X i u s = (Val (-1), s)"
proof -
  from assms have "use_file_storage s" "accept_loop i u (file_friend_reqs s) = (-1, file_friend_reqs s)"
    by (auto simp: file_mode_def file_inv_def intro: accept_loop_none)
  then show ?thesis
    by (simp add: accept_friend_request_def dispatch_file file_accept_friend_request_def)
qed

text \<open>A request that was taken is pending under its id, from \<open>a\<close> to \<open>b\<close>.\<close>

lemma add_friend_request_pending:
  assumes "file_mode s" "add_friend_request X a b m s = (Val r, s')" "0 < r"
  shows "file_mode s' \<and> abs_pending (file_friend_reqs s') r = Some (a, b, m)"
proof -
  have s': "s' = db_step X (AddFriend a b m) s" using assms(2) by simp
  have fs: "use_file_storage s" and inv: "file_inv s" using assms(1) by (simp_all add: file_mode_def)
  from add_friend_request_result [OF fs assms(2)] assms(3)
  have free: "(min a b, max a b) \<notin> set (file_friends s)"
    "\<not> (\<exists>q \<in> set (file_friend_reqs s). fq_from_uid q = a \<and> fq_to_uid q = b \<and> fq_status q = 0)"
    "r = file_next_req_id s" by (auto split: if_splits)
  have "(a, b) \<notin> abs_friends (file_friends s)"
    using free(1) inv by (subst abs_friends_normal) (auto simp: file_inv_def)
  moreover have "\<nexists>i m'. abs_pending (file_friend_reqs s) i = Some (a, b, m')"
    using free(2) inv by (subst abs_pending_Some) (auto simp: file_inv_def)
  ultimately have "so_pending (social_abs s') r = Some (a, b, m)"
    unfolding s' using free(3) by (subst db_step_refines [OF assms(1)]) (simp add: social_abs_def)
  then show ?thesis unfolding s' using file_mode_db_step [OF assms(1), of X "AddFriend a b m"] by (simp add: social_abs_def)
qed

lemma accept_pending:
  assumes "file_mode s" "abs_pending (file_friend_reqs s) i = Some (a, b, m)" "0 \<le> a"
    and acc: "accept_friend_request X i b s = (Val r, s')"
  shows "r = a \<and> file_mode s' \<and> (a, b) \<in> abs_friends (file_friends s') \<and> (b, a) \<in> abs_friends (file_friends s') \<and>
    abs_pending (file_friend_reqs s') i = None"
proof -
  have s': "s' = db_step X (AcceptFriend i b) s" using acc by simp
  have fs: "use_file_storage s" "distinct (map fq_id (file_friend_reqs s))"
    using assms(1) by (simp_all add: file_mode_def file_inv_def)
  obtain rs where "accept_loop i b (file_friend_reqs s) = (a, rs)"
    using accept_loop_some [OF fs(2) assms(2)] by blast
  from accept_friend_request_result [OF fs(1) this acc] assms(3) have "r = a" by simp
  moreover have "social_abs s' = (social_abs s)\<lparr>so_pending := (so_pending (social_abs s))(i := None),
      so_friends := so_friends (social_abs s) \<union> {(a, b), (b, a)}\<rparr>"
    unfolding s' using assms(2,3) by (subst db_step_refines [OF assms(1)]) (simp add: social_abs_def)
  moreover have "file_mode s'" unfolding s' by (rule file_mode_db_step [OF assms(1)])
  ultimately show ?thesis by (simp add: social_abs_def)
qed

text \<open>
  C28. The friendship handshake in file mode: after \<open>a\<close>'s request to \<open>b\<close> is taken, nobody but \<open>b\<close> can
  accept it; when \<open>b\<close> does, the answer is \<open>a\<close>, each of the two is in the other's friend list, a
  further request in either direction is refused as "already friends", and the request cannot be
  accepted again.
\<close>

theorem friend_handshake:
  assumes "file_mode s" "0 \<le> a" "add_friend_request X a b m s = (Val rid, s1)" "0 < rid"
    and "accept_friend_request X rid b s1 = (Val r, s2)"
  shows "(\<forall>c. c \<noteq> b \<longrightarrow> accept_friend_request X rid c s1 = (Val (-1), s1)) \<and> r = a \<and>
    (\<exists>fa fb. get_friends X a s2 = (Val fa, s2) \<and> b \<in> fst ` set fa \<and>
             get_friends X b s2 = (Val fb, s2) \<and> a \<in> fst ` set fb) \<and>
    add_friend_request X a b m' s2 = (Val (-2), s2) \<and> add_friend_request X b a m' s2 = (Val (-2), s2) \<and>
    accept_friend_request X rid b s2 = (Val (-1), s2)"
proof -
  from add_friend_request_pending [OF assms(1,3,4)]
  have s1: "file_mode s1" "abs_pending (file_friend_reqs s1) rid = Some (a, b, m)" by simp_all
  from accept_pending [OF s1 assms(2,5)]
  have s2: "r = a" "file_mode s2" "(a, b) \<in> abs_friends (file_friends s2)" "(b, a) \<in> abs_friends (file_friends s2)"
    "abs_pending (file_friend_reqs s2) rid = None" by simp_all
  then have fs: "use_file_storage s2" "\<forall>p \<in> set (file_friends s2). fst p \<le> snd p"
    by (simp_all add: file_mode_def file_inv_def)
  have "accept_friend_request X rid c s1 = (Val (-1), s1)" if "c \<noteq> b" for c
    using s1 that by (intro accept_friend_request_none) auto
  moreover have "add_friend_request X a b m' s2 = (Val (-2), s2)" "add_friend_request X b a m' s2 = (Val (-2), s2)"
    using s2(3,4) fs by (simp_all add: add_friend_request_friends abs_friends_normal)
  moreover have "accept_friend_request X rid b s2 = (Val (-1), s2)"
    using s2 by (intro accept_friend_request_none) auto
  moreover obtain fa fb where "get_friends X a s2 = (Val fa, s2)" "get_friends X b s2 = (Val fb, s2)"
    "b \<in> fst ` set fa" "a \<in> fst ` set fb"
    using get_friends_spec [OF fs(1), of X a] get_friends_spec [OF fs(1), of X b] s2(3,4) by blast
  ultimately show ?thesis using s2(1) by blast
qed

text \<open>
  The handshake does not keep friendships unique: the code checks for a pending request only in
  the direction of the new one, so two users can request each other, and when both requests are
  accepted the pair is stored twice and each is in the other's friend list twice.
\<close>

theorem mutual_requests_duplicate:
  "let s = fold (db_step X) [AddFriend 1 2 m, AddFriend 2 1 m', AcceptFriend 1 2, AcceptFriend 2 1]
       ((new_db d cw w)\<lparr>use_file_storage := True\<rparr>)
   in file_friends s = [(1, 2), (1, 2)] \<and> get_friends X 1 s = (Val [(2, txt_user @ to_string 2), (2, txt_user @ to_string 2)], s)"
proof -
  let ?s0 = "(new_db d cw w)\<lparr>use_file_storage := True\<rparr>"
  let ?s1 = "db_step X (AddFriend 1 2 m) ?s0"
  let ?s2 = "db_step X (AddFriend 2 1 m') ?s1"
  let ?s3 = "db_step X (AcceptFriend 1 2) ?s2"
  let ?s4 = "db_step X (AcceptFriend 2 1) ?s3"
  let ?r1 = "\<lparr>fq_id = 1, fq_from_uid = 1, fq_to_uid = 2, fq_message = m, fq_status = 0\<rparr>"
  let ?r2 = "\<lparr>fq_id = 2, fq_from_uid = 2, fq_to_uid = 1, fq_message = m', fq_status = 0\<rparr>"
  have d1: "data ?s1 = data (?s0\<lparr>file_next_req_id := 2, file_friend_reqs := [?r1]\<rparr>)"
    by (simp add: data_add_friend_request new_db_def)
  then have s1: "use_file_storage ?s1" "file_friends ?s1 = []" "file_friend_reqs ?s1 = [?r1]"
    "file_next_req_id ?s1 = 2" "file_users ?s1 = []"
    using data_sel [of ?s1] by (simp_all add: new_db_def)
  have d2: "data ?s2 = data (?s1\<lparr>file_next_req_id := 3, file_friend_reqs := [?r1, ?r2]\<rparr>)"
    using s1 by (simp add: data_add_friend_request)
  then have s2: "use_file_storage ?s2" "file_friends ?s2 = []" "file_friend_reqs ?s2 = [?r1, ?r2]" "file_users ?s2 = []"
    using data_sel [of ?s2] s1 by simp_all
  have d3: "data ?s3 = data (?s2\<lparr>file_friend_reqs := [?r1\<lparr>fq_status := 1\<rparr>, ?r2], file_friends := [(1, 2)]\<rparr>)"
    using s2 by (simp add: data_accept_friend_request [where f = 1 and rs = "[?r1\<lparr>fq_status := 1\<rparr>, ?r2]"])
  then have s3: "use_file_storage ?s3" "file_friends ?s3 = [(1, 2)]" "file_friend_reqs ?s3 = [?r1\<lparr>fq_status := 1\<rparr>, ?r2]" "file_users ?s3 = []"
    using data_sel [of ?s3] s2 by simp_all
  have d4: "data ?s4 = data (?s3\<lparr>file_friend_reqs := [?r1\<lparr>fq_status := 1\<rparr>, ?r2\<lparr>fq_status := 1\<rparr>],
      file_friends := [(1, 2), (1, 2)]\<rparr>)"
    using s3 by (simp add: data_accept_friend_request [where f = 2 and rs = "[?r1\<lparr>fq_status := 1\<rparr>, ?r2\<lparr>fq_status := 1\<rparr>]"])
  then have "use_file_storage ?s4" "file_friends ?s4 = [(1, 2), (1, 2)]" "file_users ?s4 = []"
    using data_sel [of ?s4] s3 by simp_all
  then show ?thesis
    by (simp add: get_friends_def dispatch_file file_get_friends_def shown_name_def)
qed

section \<open>Offline messages\<close>

lemma offline_loop_unread:
  "offline_loop uid ms = map (\<lambda>(i, f, c). \<lparr>dm_id = i, dm_from_uid = f, dm_to_uid = uid, dm_content = c,
     dm_delivered = False\<rparr>) (abs_unread ms uid)"
  by (induction ms) (auto simp: abs_unread_def)

lemma query_offline_file:
  "use_file_storage s \<Longrightarrow> query_offline_messages X uid s = (Val (map (\<lambda>(i, f, c). \<lparr>dm_id = i, dm_from_uid = f,
     dm_to_uid = uid, dm_content = c, dm_delivered = False\<rparr>) (abs_unread (file_messages s) uid)), s)"
  by (simp add: query_offline_messages_def dispatch_file file_query_offline_messages_def offline_loop_unread)

lemma mark_all_unread:
  assumes "file_mode s" "int_ok (file_next_msg_id s)" "mark_delivered X uid 9223372036854775807 s = (r, s')"
  shows "abs_unread (file_messages s') = (abs_unread (file_messages s))(uid := [])"
proof -
  have s': "s' = db_step X (MarkDelivered uid 9223372036854775807) s" using assms(3) by simp
  have "so_unread (social_abs s') = (so_unread (social_abs s))(uid :=
      filter (\<lambda>(i, f, c). 9223372036854775807 < i) (so_unread (social_abs s) uid))"
    unfolding s' by (subst db_step_refines [OF assms(1)]) simp
  then have un: "abs_unread (file_messages s') = (abs_unread (file_messages s))(uid :=
      filter (\<lambda>(i, f, c). 9223372036854775807 < i) (abs_unread (file_messages s) uid))"
    by (simp add: social_abs_def)
  have "\<not> 9223372036854775807 < i" if "(i, f, c) \<in> set (abs_unread (file_messages s) uid)" for i f c
    using that assms(1,2) by (fastforce simp: abs_unread_def file_mode_def file_inv_def int_ok_def INT_MAX_def)
  then have "filter (\<lambda>(i, f, c). 9223372036854775807 < i) (abs_unread (file_messages s) uid) = []"
    by (fastforce simp: filter_empty_conv)
  with un show ?thesis by simp
qed

text \<open>
  Offline delivery in file mode: the query finds exactly the unread messages for the user, in the
  order in which they were stored; after \<open>mark_delivered\<close> with the largest id, nothing is unread for
  that user, and what is unread for anybody else is as before.
\<close>

theorem offline_delivery:
  assumes "file_mode s" "int_ok (file_next_msg_id s)" "mark_delivered X uid 9223372036854775807 s = (r, s')"
  shows "query_offline_messages X uid s = (Val (offline_loop uid (file_messages s)), s) \<and>
    sorted_wrt (<) (map dm_id (offline_loop uid (file_messages s))) \<and>
    query_offline_messages X uid s' = (Val [], s') \<and>
    (v \<noteq> uid \<longrightarrow> fst (query_offline_messages X v s') = fst (query_offline_messages X v s))"
proof -
  have fs: "use_file_storage s" using assms(1) by (simp add: file_mode_def)
  have "s' = db_step X (MarkDelivered uid 9223372036854775807) s" using assms(3) by simp
  then have "use_file_storage s'" using file_mode_db_step [OF assms(1)] unfolding file_mode_def by metis
  moreover have "sorted_wrt (<) (map dm_id (offline_loop uid (file_messages s)))"
    using assms(1) unfolding file_mode_def file_inv_def
    by (simp add: offline_loop_unread abs_unread_def case_prod_unfold comp_def sorted_wrt_map sorted_wrt_filter)
  ultimately show ?thesis
    using mark_all_unread [OF assms] fs by (simp add: query_offline_file offline_loop_unread)
qed

section \<open>The message queue\<close>

text \<open>What a chat message says, apart from the id it is stored under.\<close>

definition dm_payload :: "DBChatMessage \<Rightarrow> int \<times> int \<times> string \<times> bool" where
  "dm_payload m = (dm_from_uid m, dm_to_uid m, dm_content m, dm_delivered m)"

definition fm_payload :: "FileMessage \<Rightarrow> int \<times> int \<times> string \<times> bool" where
  "fm_payload m = (fm_from_uid m, fm_to_uid m, fm_content m, fm_delivered m)"

lemma store_message_frame [simp]:
  "db_queue (fold store_message ms s) = db_queue s" "db_running (fold store_message ms s) = db_running s"
  "use_file_storage (fold store_message ms s) = use_file_storage s"
  by (induction ms arbitrary: s) (simp_all add: store_message_def)

lemma store_message_payload:
  "map fm_payload (file_messages (fold store_message ms s)) = map fm_payload (file_messages s) @ map dm_payload ms"
  by (induction ms arbitrary: s) (simp_all add: store_message_def fm_payload_def dm_payload_def)

lemma writer_round_effect:
  assumes "use_file_storage s" "db_running s" and s': "snd (writer_round X s) = s'"
  shows "use_file_storage s' \<and> db_running s' \<and> db_queue s' = drop 100 (db_queue s) \<and>
    map fm_payload (file_messages s') = map fm_payload (file_messages s) @ map dm_payload (take 100 (db_queue s))"
proof -
  let ?t = "fold store_message (take 100 (db_queue s)) (s\<lparr>db_queue := drop 100 (db_queue s)\<rparr>)"
  have "data s' = data ?t"
    using data_writer_round [OF assms(1), of X] assms(2) by (simp add: s')
  then have "file_messages s' = file_messages ?t" "db_queue s' = db_queue ?t"
    "use_file_storage s' = use_file_storage ?t" "db_running s' = db_running ?t"
    by (metis data_sel)+
  then show ?thesis
    using assms(1,2) by (simp add: store_message_payload)
qed

text \<open>
  The writer thread loses, repeats and reorders nothing in file mode, and it gets to the end of
  its queue: after enough rounds (one for every hundred messages) the queue is empty and everything
  that was in it is stored, behind what was stored before, in the order of submission.
\<close>

theorem queue_drains:
  assumes "use_file_storage s" "db_running s" "length (db_queue s) \<le> 100 * n"
  shows "db_queue ((db_step X WriterRound ^^ n) s) = [] \<and>
    map fm_payload (file_messages ((db_step X WriterRound ^^ n) s)) =
      map fm_payload (file_messages s) @ map dm_payload (db_queue s)"
  using assms
proof (induction n arbitrary: s)
  case (Suc n)
  let ?s1 = "db_step X WriterRound s"
  have eff: "use_file_storage ?s1" "db_running ?s1" "db_queue ?s1 = drop 100 (db_queue s)"
    "map fm_payload (file_messages ?s1) = map fm_payload (file_messages s) @ map dm_payload (take 100 (db_queue s))"
    using writer_round_effect [OF Suc.prems(1,2) refl, of X] by simp_all
  with Suc.prems(3) have "length (db_queue ?s1) \<le> 100 * n" by simp
  from Suc.IH [OF eff(1,2) this] eff(3,4) show ?case
    by (simp only: funpow_Suc_right o_apply append_assoc flip: map_append) (simp add: append_take_drop_id)
qed simp

section \<open>When storage fails\<close>

definition same_mode :: "bool \<Rightarrow> ('t, 'm) db \<Rightarrow> bool" where
  "same_mode b s \<longleftrightarrow> use_file_storage s = b"

lemma keeps_mode_stateful:
  "(\<And>s. use_file_storage (snd (m s)) = use_file_storage s) \<Longrightarrow> keeps (same_mode b) m"
  by (simp add: keeps_def same_mode_def)

lemma keeps_mode_modify: "(\<And>s. use_file_storage (f s) = use_file_storage s) \<Longrightarrow> keeps (same_mode b) (modifyP f)"
  by (intro keeps_modify) (simp add: same_mode_def)

lemma keeps_mode_mysql [keeps_intros]:
  "keeps (same_mode b) (mysql_query M sql)" "keeps (same_mode b) (mysql_store_result M)"
  "keeps (same_mode b) (mysql_insert_id M)" "keeps (same_mode b) (esc M str)"
  by (auto intro!: keeps_mode_stateful simp: mysql_query_def mysql_store_result_def mysql_insert_id_def
      esc_def split: prod.splits)

lemma keeps_sum [keeps_intros]:
  "(\<And>e. keeps I (f e)) \<Longrightarrow> (\<And>v. keeps I (g v)) \<Longrightarrow> keeps I (case x of Inl e \<Rightarrow> f e | Inr v \<Rightarrow> g v)"
  by (cases x) simp_all

lemma keeps_list [keeps_intros]:
  "keeps I f \<Longrightarrow> (\<And>r rs. keeps I (g r rs)) \<Longrightarrow> keeps I (case x of [] \<Rightarrow> f | r # rs \<Rightarrow> g r rs)"
  by (cases x) simp_all

lemma keeps_stox [keeps_intros]: "keeps I (stox lo hi c)" "keeps I (stoi c)" "keeps I (stoll c)"
  unfolding stoi_def stoll_def stox_def by (intro keeps_intros)+

lemma keeps_mapP [keeps_intros]: "(\<And>x. keeps I (f x)) \<Longrightarrow> keeps I (mapP f xs)"
  by (induction xs) (auto intro: keeps_intros)

lemma keeps_mode_connect [keeps_intros]:
  "keeps (same_mode b) (connect_db M)" "keeps (same_mode b) (ensure_connected M)"
  unfolding ensure_connected_def connect_db_def
  by (intro keeps_intros keeps_mode_modify keeps_mode_stateful; simp split: prod.splits)+

lemma keeps_mode_rows [keeps_intros]:
  "keeps (same_mode b) (query_has_rows M sql)"
  "(\<And>r. keeps (same_mode b) (f r)) \<Longrightarrow> keeps (same_mode b) (query_rows M sql f)"
  unfolding query_has_rows_def query_rows_def by (intro keeps_intros; simp)+

lemma keeps_mode_batch [keeps_intros]: "keeps (same_mode b) (batch_values M first ms)"
  by (induction ms arbitrary: first) (auto intro!: keeps_intros)

lemma keeps_mode_save [keeps_intros]:
  "keeps (same_mode b) (save_users_file J)" "keeps (same_mode b) (save_friends_file J)"
  "keeps (same_mode b) (save_friend_reqs_file J)" "keeps (same_mode b) (save_messages_file J)"
  by (intro keeps_mode_stateful, metis prod.collapse same_data_sel(9) save_data)+

lemma keeps_mode_dispatch [keeps_intros]:
  "keeps (same_mode b) f \<Longrightarrow> keeps (same_mode b) m \<Longrightarrow> keeps (same_mode b) (dispatch f m)"
  unfolding dispatch_def by (intro keeps_intros)

lemmas mysql_op_defs = mysql_register_user_def mysql_verify_login_def mysql_add_friend_request_def
  mysql_accept_friend_request_def mysql_mark_delivered_def mysql_store_batch_def

lemma keeps_mode_ops:
  "keeps (same_mode b) (register_user X u p)" "keeps (same_mode b) (verify_login X u p)"
  "keeps (same_mode b) (add_friend_request X f t msg)" "keeps (same_mode b) (accept_friend_request X i a)"
  "keeps (same_mode b) (submit m)" "keeps (same_mode b) (mark_delivered X uid n)"
  "keeps (same_mode b) (writer_round X)"
  unfolding register_user_def verify_login_def add_friend_request_def accept_friend_request_def submit_def
    mark_delivered_def writer_round_def loop_round_def mysql_op_defs file_register_user_def
    file_verify_login_def file_add_friend_request_def file_accept_friend_request_def file_mark_delivered_def
    file_store_batch_def Let_def
  by (intro keeps_intros keeps_mode_modify; simp add: store_message_def)+

text \<open>
  There is no failover while the server runs: the choice between MySQL and the files is made
  when the storage is constructed, and no operation changes it, whatever the database does.
\<close>

theorem no_failover: "use_file_storage (db_step X op s) = use_file_storage s"
proof -
  have mode: "use_file_storage (snd (m s)) = use_file_storage s"
    if "keeps (same_mode (use_file_storage s)) m" for m :: "(_, 'z) prog"
    using keepsD [OF that, of s] by (cases "m s") (simp add: same_mode_def)
  note keeps = keeps_mode_ops [where b = "use_file_storage s"]
  show ?thesis
    by (cases op) (simp_all add: keeps [THEN mode])
qed

text \<open>
  Messages are dropped when the database is lost: with MySQL in use, the connection dead and no
  new one to be had, a round of the writer takes up to a hundred messages off the queue and stores
  them nowhere, neither in a table nor in a file, and reports nothing to anybody.
\<close>

theorem mysql_outage_drops:
  assumes "\<not> use_file_storage s" "db_running s" "mysql_set s"
    and "my_ping (x_mysql X) (mysql_world s) = (False, w1)"
    and "my_init (x_mysql X) (my_close (x_mysql X) w1) = (True, w2)"
    and "my_real_connect (x_mysql X) w2 = (False, w3)"
  shows "writer_round X s = (Val (), if db_queue s = [] then s else
    s\<lparr>db_queue := drop 100 (db_queue s), mysql_world := w3\<rparr>)"
  using assms
  by (simp add: writer_round_def threadP_def run_catchP loop_round_def dispatch_def mysql_store_batch_def
      ensure_connected_def connect_db_def run_bindP run_seqP)

lemma fold_store_can_write: "can_write (fold store_message ms s) = can_write s"
  by (induction ms arbitrary: s) (simp_all add: store_message_def)

text \<open>What \<open>dump\<close> makes of the message file.\<close>

lemma dump_msgs:
  assumes "dump_laws J"
  shows "jl_dump J (msgs_json J s) = None \<longleftrightarrow> (\<exists>m \<in> set (file_messages s). \<not> utf8_valid (fm_content m))"
proof -
  have "jl_dump J (msg_json J m) = None \<longleftrightarrow> \<not> utf8_valid (fm_content m)" for m
    by (simp add: msg_json_def dump_lawsD [OF assms] del: not_None_eq)
  then show ?thesis by (simp add: msgs_json_def dump_lawsD [OF assms] del: not_None_eq)
qed

lemma fold_store_contents:
  "(\<exists>m \<in> set (file_messages (fold store_message ms s)). P (fm_content m)) \<longleftrightarrow>
   (\<exists>m \<in> set (file_messages s). P (fm_content m)) \<or> (\<exists>m \<in> set ms. P (dm_content m))"
proof (induction ms arbitrary: s)
  case (Cons m ms)
  show ?case by (simp add: Cons.IH) (auto simp: store_message_def)
qed simp

text \<open>
  C40. In file mode one chat message that is not valid UTF-8 ends the server: a round of the writer that stores a batch ends the process exactly if the
  batch, or what was stored before, has a message whose text is not UTF-8. \<open>dump\<close> throws on it, the exception leaves the writer
  thread, and the message file, which was opened for writing before, is left empty.
\<close>

theorem undumpable_message_terminates:
  assumes "dump_laws (x_json X)" "use_file_storage s" "db_running s" "db_queue s \<noteq> []" "can_write s (file_path ''messages.json'')"
    and "writer_round X s = (r, s')"
    and "bad \<longleftrightarrow> (\<exists>m \<in> set (file_messages s). \<not> utf8_valid (fm_content m)) \<or> (\<exists>m \<in> set (take 100 (db_queue s)). \<not> utf8_valid (dm_content m))"
  shows "r = (if bad then Crash Terminate else Val ()) \<and>
    (bad \<longrightarrow> disk s' (file_path ''messages.json'') = Some (jl_empty_file (x_json X)))"
proof -
  let ?t = "fold store_message (take 100 (db_queue s)) (s\<lparr>db_queue := drop 100 (db_queue s)\<rparr>)"
  have dump: "jl_dump (x_json X) (msgs_json (x_json X) ?t) = None \<longleftrightarrow> bad"
    using dump_msgs [OF assms(1), of ?t] assms(7) by (simp add: fold_store_contents [where P = "\<lambda>c. \<not> utf8_valid c"])
  have "writer_round X s = threadP (save_messages_file (x_json X)) ?t"
    using assms(2-4) by (simp add: writer_round_def threadP_def run_catchP loop_round_def dispatch_file file_store_batch_def run_bindP
        run_seqP run_forP_modify)
  then show ?thesis
    using assms(5,6) dump by (cases "jl_dump (x_json X) (msgs_json (x_json X) ?t)")
      (auto simp: threadP_def run_catchP run_bindP save_messages_file_def write_json_def fold_store_can_write Let_def)
qed

section \<open>Examples\<close>

theorem search_users_spec_witness:
  "search_users externals_ref ''AN'' (fresh_db\<lparr>file_users := [\<lparr>fu_uid = 1000, fu_username = ''Joanna'', fu_password_hash = []\<rparr>]\<rparr>) =
    (Val (take 20 (map (\<lambda>u. (fu_uid u, fu_username u))
      (filter (\<lambda>u. \<exists>a b. map tolower (fu_username u) = a @ map tolower ''AN'' @ b)
        [\<lparr>fu_uid = 1000, fu_username = ''Joanna'', fu_password_hash = []\<rparr>]))),
     fresh_db\<lparr>file_users := [\<lparr>fu_uid = 1000, fu_username = ''Joanna'', fu_password_hash = []\<rparr>]\<rparr>)"
  using search_users_spec [of "fresh_db\<lparr>file_users := [\<lparr>fu_uid = 1000, fu_username = ''Joanna'', fu_password_hash = []\<rparr>]\<rparr>"
      externals_ref "''AN''"]
  by (simp add: fresh_db_def new_db_def)

lemma fresh_request: "add_friend_request externals_ref 1 2 ''hi'' fresh_db =
    (Val 1, snd (add_friend_request externals_ref 1 2 ''hi'' fresh_db))"
  by (simp add: add_friend_request_def fresh_db_run)

lemma fresh_accept: "accept_friend_request externals_ref 1 2 (snd (add_friend_request externals_ref 1 2 ''hi'' fresh_db)) =
    (Val 1, snd (accept_friend_request externals_ref 1 2 (snd (add_friend_request externals_ref 1 2 ''hi'' fresh_db))))"
  by (simp add: add_friend_request_def accept_friend_request_def fresh_db_run)

theorem friend_handshake_witness:
  "let s1 = snd (add_friend_request externals_ref 1 2 ''hi'' fresh_db);
       s2 = snd (accept_friend_request externals_ref 1 2 s1)
   in accept_friend_request externals_ref 1 3 s1 = (Val (-1), s1) \<and>
      add_friend_request externals_ref 2 1 ''again'' s2 = (Val (-2), s2)"
  using friend_handshake [OF fresh_db_mode _ fresh_request _ fresh_accept, of "''again''"] by (simp add: Let_def)

definition mail_db :: "(json, unit) db" where
  "mail_db = fresh_db\<lparr>file_next_msg_id := 3, file_messages :=
     [\<lparr>fm_id = 1, fm_from_uid = 5, fm_to_uid = 7, fm_content = ''a'', fm_delivered = False\<rparr>,
      \<lparr>fm_id = 2, fm_from_uid = 5, fm_to_uid = 8, fm_content = ''b'', fm_delivered = False\<rparr>]\<rparr>"

theorem offline_delivery_witness:
  "let s' = snd (mark_delivered externals_ref 7 9223372036854775807 mail_db)
   in query_offline_messages externals_ref 7 s' = (Val [], s') \<and>
      fst (query_offline_messages externals_ref 8 s') = fst (query_offline_messages externals_ref 8 mail_db)"
  using offline_delivery [of mail_db externals_ref 7 "fst (mark_delivered externals_ref 7 9223372036854775807 mail_db)"
      "snd (mark_delivered externals_ref 7 9223372036854775807 mail_db)" 8]
  by (simp add: Let_def mail_db_def fresh_db_def new_db_def file_mode_def file_inv_def int_ok_def INT_MIN_def INT_MAX_def)

definition sent_db :: "(json, unit) db" where
  "sent_db = fresh_db\<lparr>db_queue :=
     [\<lparr>dm_id = 0, dm_from_uid = 5, dm_to_uid = 7, dm_content = ''a'', dm_delivered = False\<rparr>]\<rparr>"

theorem queue_drains_witness:
  "db_queue ((db_step externals_ref WriterRound ^^ 1) sent_db) = [] \<and>
   map fm_payload (file_messages ((db_step externals_ref WriterRound ^^ 1) sent_db)) =
     map fm_payload (file_messages sent_db) @ map dm_payload (db_queue sent_db)"
  by (rule queue_drains) (simp_all add: sent_db_def fresh_db_def new_db_def)

theorem mysql_outage_drops_witness:
  "writer_round externals_ref (sent_db\<lparr>use_file_storage := False, mysql_set := True\<rparr>) =
    (Val (), sent_db\<lparr>use_file_storage := False, db_queue := [], mysql_set := True\<rparr>)"
  using mysql_outage_drops [of "sent_db\<lparr>use_file_storage := False, mysql_set := True\<rparr>" externals_ref "()" "()" "()"]
  by (simp add: sent_db_def fresh_db_def new_db_def mysql_down_def)

definition strict :: "(json, json, unit) externals" where
  "strict = externals_ref\<lparr>x_json := json_strict\<rparr>"

definition rude_db :: "(json, unit) db" where
  "rude_db = fresh_db\<lparr>db_queue :=
     [\<lparr>dm_id = 0, dm_from_uid = 5, dm_to_uid = 7, dm_content = ''caf'' @ [CHR 0xE9], dm_delivered = False\<rparr>]\<rparr>"

text \<open>A text in Latin-1; the same queue with an ASCII text is stored.\<close>

theorem undumpable_message_terminates_witness:
  "fst (writer_round strict rude_db) = Crash Terminate \<and>
   disk (snd (writer_round strict rude_db)) (file_path ''messages.json'') = Some (JString []) \<and>
   fst (writer_round strict sent_db) = Val ()"
proof -
  note round = undumpable_message_terminates [OF _ _ _ _ _ prod.collapse [symmetric], of strict]
  have "dump_laws (x_json strict)" by (simp add: strict_def dump_laws_strict)
  from round [OF this, of rude_db True] round [OF this, of sent_db False] show ?thesis
    by (simp add: strict_def rude_db_def sent_db_def fresh_db_def new_db_def json_strict_def json_ref_def continuation_def)
qed

end
