(* ===== verification/Delivery.thy ===== *)
theory Delivery
  imports Business_Safe Db_Theorems
begin

text \<open>
  What the handlers of \<open>src/business.cpp\<close> do: login with delivery of stored messages, routing of chat messages, the
  rate limit, and what becomes of sessions when users log in twice or packets outlive their connection.
\<close>

section \<open>Queued packets\<close>

definition queue_packets :: "nat \<Rightarrow> loop_fn list \<Rightarrow> ('t, 'm) server \<Rightarrow> ('t, 'm) server" where
  "queue_packets w fs s = upd_worker w (\<lambda>wk. wk\<lparr>w_pending := w_pending wk @ fs\<rparr>) s"

lemma queue_packets_sel [simp]:
  "sv_env (queue_packets w fs s) = sv_env s" "sv_tick (queue_packets w fs s) = sv_tick s" "sv_wall (queue_packets w fs s) = sv_wall s"
  "sv_heap (queue_packets w fs s) = sv_heap s" "sv_sessions (queue_packets w fs s) = sv_sessions s"
  "sv_db (queue_packets w fs s) = sv_db s" "sv_ai (queue_packets w fs s) = sv_ai s"
  "w_pending (sv_worker (queue_packets w fs s) w') = w_pending (sv_worker s w') @ (if w' = w then fs else [])"
  by (simp_all add: queue_packets_def)

lemma queue_packets_nil [simp]: "queue_packets w [] s = s"
  by (simp add: queue_packets_def upd_worker_def)

lemma queue_packets_append: "queue_packets w gs (queue_packets w fs s) = queue_packets w (fs @ gs) s"
  by (simp add: queue_packets_def upd_worker_def)

lemma send_to_owned:
  "cc_owner_worker (ctx_of s r) = Some w \<Longrightarrow> send_to r c n b s = (Val (), queue_packets w [FnSendPacket r c n b] s)"
  by (simp add: send_to_def queue_send_packet_def queue_in_loop_def queue_packets_def)

lemma for_send_to:
  "cc_owner_worker (ctx_of s r) = Some w \<Longrightarrow>
   forP ms (\<lambda>m. bindP (getsP sv_wall) (\<lambda>wall. send_to r c n (f wall m))) s =
     (Val (), queue_packets w (map (\<lambda>m. FnSendPacket r c n (f (sv_wall s) m)) ms) s)"
proof (induction ms arbitrary: s)
  case (Cons m ms)
  then show ?case
    by (simp add: run_seqP run_bindP send_to_owned queue_packets_append)
qed simp

section \<open>Login\<close>

text \<open>The state after a login: \<open>d'\<close> is the storage after the stored messages were marked as delivered.\<close>

definition logged_in_as ::
  "('j, 't, 'm) externals \<Rightarrow> ctx_ref \<Rightarrow> nat \<Rightarrow> int \<Rightarrow> u32 \<Rightarrow> ('t, 'm) db \<Rightarrow> ('t, 'm) db \<Rightarrow> ('t, 'm) server \<Rightarrow> ('t, 'm) server" where
  "logged_in_as X r w uid n d d' s =
     (let off = offline_loop uid (file_messages d) in
      queue_packets w [FnSendPacket r (cmd_code ACK) n (ser_Response (x_codec X) (success uid ''login success''))]
        ((queue_packets w (map (\<lambda>m. FnSendPacket r (cmd_code CHAT) 0 (offline_packet X (sv_wall s) m)) off)
           ((upd_ctx r (\<lambda>x. x\<lparr>cc_uid := uid, cc_logged_in := True\<rparr>) s)\<lparr>sv_sessions := session_put uid r (sv_sessions s)\<rparr>))
         \<lparr>sv_db := Some (if off = [] then d else d')\<rparr>))"

lemma login_state:
  assumes "sv_db s = Some d" "file_mode d"
    and "parse_LoginRequest (x_codec X) body = Some req"
    and "fst (verify_login X (lr_username req) (lr_password req) d) = Val uid" "0 < uid"
    and "cc_owner_worker (ctx_of s r) = Some w" "session_get (sv_sessions s) uid = None"
    and "offline_loop uid (file_messages d) = [] \<or> mark_delivered X uid 9223372036854775807 d = (Val (), d')"
    and "cmd hdr = cmd_code LOGIN"
  shows "process_business X r hdr body s = (Val (), logged_in_as X r w uid (seq hdr) d d' s)"
proof -
  have fs: "use_file_storage d" using assms(2) by (simp add: file_mode_def)
  let ?off = "offline_loop uid (file_messages d)"
  let ?s1 = "(upd_ctx r (\<lambda>x. x\<lparr>cc_uid := uid, cc_logged_in := True\<rparr>) s)\<lparr>sv_sessions := session_put uid r (sv_sessions s)\<rparr>"
  let ?db = "if ?off = [] then d else d'"
  let ?pk = "map (\<lambda>m. FnSendPacket r (cmd_code CHAT) 0 (offline_packet X (sv_wall s) m)) ?off"
  have login: "with_db (verify_login X (lr_username req) (lr_password req)) s = (Val uid, s)"
    using assms(1,4) verify_login_unchanged [OF fs, of X "lr_username req" "lr_password req"]
    by (cases "verify_login X (lr_username req) (lr_password req) d") (simp add: with_db_def)
  have bnd: "bind uid r s = (Val (), ?s1)" using assms(7) by (simp add: bind_def run_seqP)
  have owner: "cc_owner_worker (ctx_of ?s1 r) = Some w" using assms(6) by simp
  have query: "with_db (query_offline_messages X uid) ?s1 = (Val ?off, ?s1)"
    using assms(1) by (simp add: with_db_def query_offline_file [OF fs] offline_loop_unread)
  have deliver: "deliver_offline X r uid ?s1 = (Val (), (queue_packets w ?pk ?s1)\<lparr>sv_db := Some ?db\<rparr>)"
    using assms(1,8) owner query for_send_to [OF owner, of ?off "cmd_code CHAT" 0 "offline_packet X"]
    by (auto simp: deliver_offline_def has_db_def run_bindP run_seqP with_db_def)
  show ?thesis
    using assms(1,3,5,9) login bnd deliver owner
    by (simp add: process_business_def run_catchP handle_command_def handle_login_def has_db_def run_bindP run_seqP
        send_response_def send_to_owned logged_in_as_def Let_def)
qed

lemma login_effect:
  assumes "sv_db s = Some d" "file_mode d" "int_ok (file_next_msg_id d)"
    and "parse_LoginRequest (x_codec X) body = Some req"
    and "fst (verify_login X (lr_username req) (lr_password req) d) = Val uid" "0 < uid"
    and "cc_owner_worker (ctx_of s r) = Some w" "session_get (sv_sessions s) uid = None"
    and "mark_delivered X uid 9223372036854775807 d = (Val (), d')"
    and "cmd hdr = cmd_code LOGIN" "process_business X r hdr body s = (res, s')"
  shows "res = Val () \<and> session_get (sv_sessions s') uid = Some r \<and> cc_uid (ctx_of s' r) = uid \<and> cc_logged_in (ctx_of s' r) \<and>
    w_pending (sv_worker s' w) = w_pending (sv_worker s w) @
      map (\<lambda>m. FnSendPacket r (cmd_code CHAT) 0 (offline_packet X (sv_wall s) m)) (offline_loop uid (file_messages d)) @
      [FnSendPacket r (cmd_code ACK) (seq hdr) (ser_Response (x_codec X) (success uid ''login success''))] \<and>
    (\<exists>d'. sv_db s' = Some d' \<and> offline_loop uid (file_messages d') = [])"
proof -
  have "offline_loop uid (file_messages (if offline_loop uid (file_messages d) = [] then d else d')) = []"
    using mark_all_unread [OF assms(2,3,9)] by (simp add: offline_loop_unread)
  then show ?thesis
    using login_state [OF assms(1,2,4-8) disjI2 [OF assms(9)] assms(10)] assms(11) by (auto simp: logged_in_as_def Let_def)
qed

text \<open>
  C17. Login: a client whose name and password the storage accepts is bound to the account's id, every
  message stored for that user is queued for the client, in the order in which they were stored, followed by the
  answer to the login itself, and afterwards nothing is left unread for that user. (In file mode, no
  other connection of the user being there, and when the files can be saved.)
\<close>

theorem login_delivers:
  assumes "sv_db s = Some d" "file_mode d" "int_ok (file_next_msg_id d)"
    and "parse_LoginRequest (x_codec X) body = Some req"
    and "fst (verify_login X (lr_username req) (lr_password req) d) = Val uid" "0 < uid"
    and "cc_owner_worker (ctx_of s r) = Some w" "session_get (sv_sessions s) uid = None"
    and "mark_delivered X uid 9223372036854775807 d = (Val (), d')"
    and "cmd hdr = cmd_code LOGIN" "process_business X r hdr body s = (res, s')"
  shows "res = Val () \<and> session_get (sv_sessions s') uid = Some r \<and> cc_uid (ctx_of s' r) = uid \<and> cc_logged_in (ctx_of s' r) \<and>
    w_pending (sv_worker s' w) = w_pending (sv_worker s w) @
      map (\<lambda>m. FnSendPacket r (cmd_code CHAT) 0 (offline_packet X (sv_wall s) m)) (offline_loop uid (file_messages d)) @
      [FnSendPacket r (cmd_code ACK) (seq hdr) (ser_Response (x_codec X) (success uid ''login success''))] \<and>
    (\<exists>d'. sv_db s' = Some d' \<and> offline_loop uid (file_messages d') = [])"
  by (rule login_effect [OF assms])

definition ann_db :: "(json, unit) db" where
  "ann_db = mail_db\<lparr>file_users := [\<lparr>fu_uid = 7, fu_username = ''ann'', fu_password_hash = file_hash (x_hash externals_ref) ''pw''\<rparr>]\<rparr>"

lemma ann_db_mode: "file_mode ann_db" "int_ok (file_next_msg_id ann_db)"
  by (simp_all add: ann_db_def mail_db_def fresh_db_def new_db_def file_mode_def file_inv_def int_ok_def INT_MIN_def INT_MAX_def)

lemma ann_db_login: "fst (verify_login externals_ref ''ann'' ''pw'' ann_db) = Val 7"
  by (simp add: ann_db_def mail_db_def fresh_db_def new_db_def verify_login_def dispatch_def file_verify_login_def)

lemma ann_db_mark: "mark_delivered externals_ref 7 9223372036854775807 ann_db =
    (Val (), snd (mark_delivered externals_ref 7 9223372036854775807 ann_db))"
  by (simp add: ann_db_def mail_db_def fresh_db_def new_db_def mark_delivered_def dispatch_def file_mark_delivered_def
      save_messages_file_def run_bindP run_seqP write_json_def)

definition login_hdr :: PacketHeader where
  "login_hdr = ping_hdr\<lparr>cmd := cmd_code LOGIN\<rparr>"

theorem login_delivers_witness:
  "let s' = snd (process_business externals_ref 0 login_hdr ''ann'' (demo_one\<lparr>sv_db := Some ann_db\<rparr>)) in
   session_get (sv_sessions s') 7 = Some 0 \<and>
   w_pending (sv_worker s' 0) = [FnSendPacket 0 2 0 ''a'', FnSendPacket 0 3 7 ''login success'']"
  using login_delivers [of "demo_one\<lparr>sv_db := Some ann_db\<rparr>" ann_db externals_ref "''ann''" "\<lparr>lr_username = ''ann'', lr_password = ''pw''\<rparr>"
      7 0 0 "snd (mark_delivered externals_ref 7 9223372036854775807 ann_db)" login_hdr
      "fst (process_business externals_ref 0 login_hdr ''ann'' (demo_one\<lparr>sv_db := Some ann_db\<rparr>))"
      "snd (process_business externals_ref 0 login_hdr ''ann'' (demo_one\<lparr>sv_db := Some ann_db\<rparr>))"]
    ann_db_mode ann_db_login ann_db_mark
  by (simp add: demo_one_eval new_ClientContext_def session_get_no login_hdr_def ping_hdr_def codec_ref_def
      ann_db_def mail_db_def offline_packet_def success_def new_ChatMessage_def new_Response_def)

section \<open>Chat\<close>

lemma rate_update_sel [simp]:
  "cc_uid (rate_update win now c) = cc_uid c" "cc_owner_worker (rate_update win now c) = cc_owner_worker c"
  "cc_fd (rate_update win now c) = cc_fd c"
  by (simp_all add: rate_update_def Let_def)

lemma submit_message_run:
  "sv_db s = Some d \<Longrightarrow> submit_message f t c b s = (Val (), s\<lparr>sv_db := Some (d\<lparr>db_queue := db_queue d @
     [\<lparr>dm_id = 0, dm_from_uid = f, dm_to_uid = t, dm_content = c, dm_delivered = b\<rparr>]\<rparr>)\<rparr>)"
  by (simp add: submit_message_def has_db_def with_db_def submit_def)

text \<open>The state in which a chat packet within the rate limit is handled.\<close>

abbreviation rated :: "ctx_ref \<Rightarrow> ('t, 'm) server \<Rightarrow> ('t, 'm) server" where
  "rated r s \<equiv> upd_ctx r (rate_update (RATE_LIMIT_WINDOW (sv_env s)) (sv_tick s div 1000)) s"

lemma business_chat:
  assumes "cmd hdr = cmd_code CHAT" "cc_rate_msg_count (ctx_of (rated r s) r) \<le> RATE_LIMIT_MSGS (sv_env s)"
    and "handle_chat X r (seq hdr) body (rated r s) = (Val (), s')"
  shows "process_business X r hdr body s = (Val (), s')"
  using assms by (simp add: process_business_def run_catchP rate_limited_def run_bindP handle_command_def)

definition stored_as :: "int \<Rightarrow> ChatMessage \<Rightarrow> bool \<Rightarrow> ('t, 'm) db \<Rightarrow> ('t, 'm) db" where
  "stored_as uid msg del d = d\<lparr>db_queue := db_queue d @ [\<lparr>dm_id = 0, dm_from_uid = uid, dm_to_uid = cm_to_uid msg,
     dm_content = cm_content msg, dm_delivered = del\<rparr>]\<rparr>"

lemma chat_online_run:
  assumes "sv_db s = Some d" "parse_ChatMessage (x_codec X) body = Some msg" "cm_to_uid msg \<noteq> 9999"
    and "cc_owner_worker (ctx_of s r) = Some w" "session_get (sv_sessions s) (cm_to_uid msg) = Some t"
    and "cc_owner_worker (ctx_of s t) = Some w2" "cc_uid (ctx_of s r) = uid"
  shows "handle_chat X r n body s = (Val (), (queue_packets w
      [FnSendPacket r (cmd_code ACK) n (ser_Response (x_codec X) (success uid (txt_sent_to @ to_string (cm_to_uid msg))))]
      (queue_packets w2 [FnSendPacket t (cmd_code CHAT) 0 (ser_ChatMessage (x_codec X) (msg\<lparr>cm_from_uid := uid\<rparr>))] s))
      \<lparr>sv_db := Some (stored_as uid msg True d)\<rparr>)"
  using assms
  by (simp add: handle_chat_def uid_of_def run_seqP send_response_def send_to_owned submit_message_run stored_as_def)

lemma chat_offline_run:
  assumes "sv_db s = Some d" "parse_ChatMessage (x_codec X) body = Some msg" "cm_to_uid msg \<noteq> 9999"
    and "cc_owner_worker (ctx_of s r) = Some w" "session_get (sv_sessions s) (cm_to_uid msg) = None" "cc_uid (ctx_of s r) = uid"
  shows "handle_chat X r n body s = (Val (), queue_packets w [FnSendPacket r (cmd_code ACK) n (ser_Response (x_codec X)
      ((failure (txt_user @ to_string (cm_to_uid msg) @ txt_stored))\<lparr>rs_uid := uid\<rparr>))]
      (s\<lparr>sv_db := Some (stored_as uid msg False d)\<rparr>))"
  using assms
  by (simp add: handle_chat_def uid_of_def run_seqP send_response_def send_to_owned submit_message_run stored_as_def)

text \<open>
  C16. Routing of a chat message (to another user than the AI, within the rate limit): it always leaves with the
  sender's own id, whatever id the packet claimed. If the addressee has a session, the message is queued on the worker that owns the
  addressee's context, then the sender is told that it was sent, and it is queued for storage
  as delivered; otherwise it is queued for storage as not delivered and the sender is told so. Nobody
  else is sent anything.
\<close>

theorem chat_routed:
  assumes "sv_db s = Some d" "parse_ChatMessage (x_codec X) body = Some msg" "cm_to_uid msg \<noteq> 9999"
    and "cc_owner_worker (ctx_of s r) = Some w" "cmd hdr = cmd_code CHAT"
    and "cc_rate_msg_count (ctx_of (rated r s) r) \<le> RATE_LIMIT_MSGS (sv_env s)"
    and "session_get (sv_sessions s) (cm_to_uid msg) = target"
    and "target = None \<or> target = Some t \<and> cc_owner_worker (ctx_of s t) = Some w2"
    and "process_business X r hdr body s = (res, s')" "cc_uid (ctx_of s r) = uid"
  shows "res = Val () \<and> sv_db s' = Some (stored_as uid msg (target \<noteq> None) d) \<and>
    (\<forall>w'. w_pending (sv_worker s' w') = w_pending (sv_worker s w') @
       (if target \<noteq> None \<and> w' = w2
        then [FnSendPacket t (cmd_code CHAT) 0 (ser_ChatMessage (x_codec X) (msg\<lparr>cm_from_uid := uid\<rparr>))] else []) @
       (if w' = w
        then [FnSendPacket r (cmd_code ACK) (seq hdr) (ser_Response (x_codec X)
          (if target \<noteq> None then success uid (txt_sent_to @ to_string (cm_to_uid msg))
           else (failure (txt_user @ to_string (cm_to_uid msg) @ txt_stored))\<lparr>rs_uid := uid\<rparr>))] else []))"
proof -
  let ?s0 = "rated r s"
  have s0: "sv_db ?s0 = Some d" "cc_owner_worker (ctx_of ?s0 r) = Some w" "session_get (sv_sessions ?s0) (cm_to_uid msg) = target"
    "cc_uid (ctx_of ?s0 r) = uid"
    using assms by simp_all
  show ?thesis
  proof (cases target)
    case None
    note run = chat_offline_run [OF s0(1) assms(2,3) s0(2) _ s0(4), of "seq hdr"]
    show ?thesis using business_chat [OF assms(5,6) run] s0(3) None assms(9) by auto
  next
    case (Some t')
    then have t: "t' = t" "cc_owner_worker (ctx_of ?s0 t) = Some w2" using assms(8) by auto
    note run = chat_online_run [OF s0(1) assms(2,3) s0(2) _ t(2) s0(4), of "seq hdr"]
    show ?thesis using business_chat [OF assms(5,6) run] s0(3) Some t(1) assms(9) by auto
  qed
qed

theorem chat_routed_witness:
  "sv_db (snd (process_business externals_ref 0 (ping_hdr\<lparr>cmd := cmd_code CHAT\<rparr>) ''hello'' demo_one)) =
     Some (fresh_db\<lparr>db_queue := [\<lparr>dm_id = 0, dm_from_uid = 0, dm_to_uid = 7, dm_content = ''hello'', dm_delivered = False\<rparr>]\<rparr>)"
  using chat_routed [of demo_one fresh_db externals_ref "''hello''" "new_ChatMessage\<lparr>cm_to_uid := 7, cm_content := ''hello''\<rparr>" 0 0
      "ping_hdr\<lparr>cmd := cmd_code CHAT\<rparr>" None 0 0
      "fst (process_business externals_ref 0 (ping_hdr\<lparr>cmd := cmd_code CHAT\<rparr>) ''hello'' demo_one)"
      "snd (process_business externals_ref 0 (ping_hdr\<lparr>cmd := cmd_code CHAT\<rparr>) ''hello'' demo_one)" 0]
  by (simp add: demo_one_eval new_ClientContext_def session_get_no codec_ref_def new_ChatMessage_def
      demo_settings rate_update_def stored_as_def fresh_db_def new_db_def)

section \<open>The rate limit\<close>

text \<open>
  Packets as the pool's threads handle them, one after the other: the time in milliseconds, the context of the client,
  header and body.
\<close>

type_synonym arrival = "int \<times> ctx_ref \<times> PacketHeader \<times> string"

definition handle_arrival :: "('j, 't, 'm) externals \<Rightarrow> arrival \<Rightarrow> ('t, 'm) server \<Rightarrow> ('t, 'm) server" where
  "handle_arrival X a s = (case a of (t, q, hdr, body) \<Rightarrow> snd (process_business X q hdr body (s\<lparr>sv_tick := t\<rparr>)))"

definition is_chat :: "ctx_ref \<Rightarrow> arrival \<Rightarrow> bool" where
  "is_chat r a = (case a of (t, q, hdr, body) \<Rightarrow> q = r \<and> cmd hdr = cmd_code CHAT)"

text \<open>What the limit of a client depends on: its counter, its window, its worker and the settings.\<close>

definition rate_at :: "env \<Rightarrow> ctx_ref \<Rightarrow> nat \<Rightarrow> int \<Rightarrow> int \<Rightarrow> ('t, 'm) server \<Rightarrow> bool" where
  "rate_at e r w start n s \<longleftrightarrow> sv_env s = e \<and> cc_owner_worker (ctx_of s r) = Some w \<and>
     cc_rate_window_start (ctx_of s r) = start \<and> cc_rate_msg_count (ctx_of s r) = n"

lemma keeps_rate_base [keeps_intros]:
  "keeps (rate_at e r w a n) (send_to q c k b)" "keeps (rate_at e r w a n) (with_db m)" "keeps (rate_at e r w a n) (bind uid q)"
  "keeps (rate_at e r w a n) (\<lambda>s. case submit_stream_request uid p q s of (ok, s') \<Rightarrow> (Val ok, s'))"
  by (rule keepsI; auto simp: rate_at_def send_to_def queue_send_packet_def queue_close_connection_def queue_in_loop_def with_db_def bind_def
      run_seqP submit_stream_request_def Let_def split: option.split prod.split)+

lemma keeps_rate_command [keeps_intros]: "keeps (rate_at e r w a n) (handle_command X q hdr body)"
  unfolding handle_command_def handler_defs reply_defs by (intro keeps_intros)

lemma rate_other:
  assumes "rate_at e r w a n s" "\<not> is_chat r x"
  shows "rate_at e r w a n (handle_arrival X x s)"
proof -
  obtain t q hdr body where x: "x = (t, q, hdr, body)" by (cases x)
  have limit: "cmd hdr = cmd_code CHAT \<Longrightarrow> keeps (rate_at e r w a n) (rate_limited q)"
    using assms(2) by (intro keepsI) (auto simp: x is_chat_def rate_limited_def rate_at_def)
  have "keeps (rate_at e r w a n) (process_business X q hdr body)"
    unfolding process_business_def business_error_def send_response_def by (intro keeps_intros limit)
  from keepsD [OF this, of "s\<lparr>sv_tick := t\<rparr>"] assms(1) show ?thesis by (simp add: x handle_arrival_def rate_at_def)
qed

lemma rate_chat:
  assumes "rate_at e r w a n s" "is_chat r (t, q, hdr, body)"
    and "rate_at e r w a' n' (rated r (s\<lparr>sv_tick := t\<rparr>))"
  shows "rate_at e r w a' n' (handle_arrival X (t, q, hdr, body) s)"
    and "process_business X r hdr body (s\<lparr>sv_tick := t\<rparr>) =
      (if n' \<le> RATE_LIMIT_MSGS e
       then catchP (handle_chat X r (seq hdr) body) (\<lambda>e. business_error X r (seq hdr)) (rated r (s\<lparr>sv_tick := t\<rparr>))
       else (Val (), queue_packets w [FnSendPacket r (cmd_code ACK) (seq hdr) (ser_Response (x_codec X) (failure txt_rate_limited))]
         (rated r (s\<lparr>sv_tick := t\<rparr>))))" (is "?run")
proof -
  let ?s = "rated r (s\<lparr>sv_tick := t\<rparr>)"
  have q: "q = r" "cmd hdr = cmd_code CHAT" using assms(2) by (simp_all add: is_chat_def)
  have n': "cc_rate_msg_count (ctx_of ?s r) = n'" and e: "sv_env s = e" and w: "cc_owner_worker (ctx_of ?s r) = Some w"
    using assms(1,3) unfolding rate_at_def by simp_all
  show ?run
    using q n' e send_to_owned [OF w]
    by (auto simp: process_business_def catchP_def rate_limited_def run_bindP run_seqP send_response_def handle_command_def)
  moreover have "keeps (rate_at e r w a' n') (catchP (handle_chat X r (seq hdr) body) (\<lambda>e. business_error X r (seq hdr)))"
    unfolding business_error_def handler_defs reply_defs by (intro keeps_intros)
  ultimately show "rate_at e r w a' n' (handle_arrival X (t, q, hdr, body) s)"
    using keepsD [of "rate_at e r w a' n'", OF _ assms(3)] assms(3) by (auto simp: handle_arrival_def q(1) rate_at_def)
qed

text \<open>The window opens with a packet that finds none, or finds it expired; then every chat packet counts.\<close>

definition in_window :: "env \<Rightarrow> ctx_ref \<Rightarrow> int \<Rightarrow> arrival \<Rightarrow> bool" where
  "in_window e r start a \<longleftrightarrow> is_chat r a \<longrightarrow> fst a div 1000 - start \<le> RATE_LIMIT_WINDOW e"

lemma rate_open:
  assumes "rate_at e r w a n s" "a = 0 \<or> RATE_LIMIT_WINDOW e < t div 1000 - a"
  shows "rate_at e r w (t div 1000) 1 (rated r (s\<lparr>sv_tick := t\<rparr>))"
  using assms by (auto simp: rate_at_def rate_update_def Let_def)

lemma rate_counted:
  assumes "rate_at e r w a n s" "a \<noteq> 0" "t div 1000 - a \<le> RATE_LIMIT_WINDOW e"
  shows "rate_at e r w a (n + 1) (rated r (s\<lparr>sv_tick := t\<rparr>))"
  using assms by (auto simp: rate_at_def rate_update_def Let_def)

lemma rate_fold:
  assumes "rate_at e r w a n s" "a \<noteq> 0" "list_all (in_window e r a) as"
  shows "rate_at e r w a (n + int (length (filter (is_chat r) as))) (fold (handle_arrival X) as s)"
  using assms
proof (induction as arbitrary: n s)
  case (Cons x as)
  show ?case
  proof (cases "is_chat r x")
    case True
    obtain t q hdr body where x: "x = (t, q, hdr, body)" by (cases x)
    have "rate_at e r w a (n + 1) (handle_arrival X x s)"
      using Cons.prems True unfolding x by (intro rate_chat(1) [OF Cons.prems(1)] rate_counted) (simp_all add: in_window_def)
    from Cons.IH [OF this] Cons.prems True show ?thesis by (simp add: ac_simps)
  next
    case False
    from Cons.IH [OF rate_other [OF Cons.prems(1) False]] Cons.prems False show ?thesis by simp
  qed
qed simp

text \<open>
  C25. The rate limit. A client's window opens with the chat packet that finds no window or finds it expired.
  Whatever packets of any clients the pool handles from then on, however they are spaced, as long as this client's chat packets fall
  into the window: its first \<open>RATE_LIMIT_MSGS\<close> chat packets, the opening one included, go to the chat handler, and every later
  one is answered with the error packet and has no other effect than being counted. (Second 0 of the clock is taken for "no
  window".)
\<close>

theorem rate_limit_enforced:
  assumes "cc_owner_worker (ctx_of s r) = Some w" "1000 \<le> t0" "as = (t0, r, hdr0, body0) # later" "cmd hdr0 = cmd_code CHAT"
    and "cc_rate_window_start (ctx_of s r) = 0 \<or> RATE_LIMIT_WINDOW (sv_env s) < t0 div 1000 - cc_rate_window_start (ctx_of s r)"
    and "list_all (in_window (sv_env s) r (t0 div 1000)) later"
    and "i < length as" "as ! i = (t, r, hdr, body)" "cmd hdr = cmd_code CHAT"
    and "s' = (fold (handle_arrival X) (take i as) s)\<lparr>sv_tick := t\<rparr>"
  shows "process_business X r hdr body s' =
    (if int (length (filter (is_chat r) (take i as))) < RATE_LIMIT_MSGS (sv_env s)
     then catchP (handle_chat X r (seq hdr) body) (\<lambda>e. business_error X r (seq hdr)) (rated r s')
     else (Val (), queue_packets w [FnSendPacket r (cmd_code ACK) (seq hdr) (ser_Response (x_codec X) (failure txt_rate_limited))]
       (rated r s')))"
proof -
  let ?start = "t0 div 1000" and ?n = "length (filter (is_chat r) (take i as))"
  have "rate_at (sv_env s) r w (cc_rate_window_start (ctx_of s r)) (cc_rate_msg_count (ctx_of s r)) s"
    using assms(1) by (simp add: rate_at_def)
  note opened = this rate_open [OF this assms(5)]
  have chat: "is_chat r (t0, r, hdr0, body0)" "is_chat r (t, r, hdr, body)" using assms(4,9) by (simp_all add: is_chat_def)
  have pos: "?start \<noteq> 0" using assms(2) by linarith
  have "\<exists>a n. rate_at (sv_env s) r w a n (fold (handle_arrival X) (take i as) s) \<and> rate_at (sv_env s) r w ?start (int ?n + 1) (rated r s')"
  proof (cases i)
    case 0
    then show ?thesis using opened assms(3,8,10) by auto
  next
    case (Suc j)
    have "list_all (in_window (sv_env s) r ?start) (take j later)" using assms(6) by (auto simp: list_all_iff dest: in_set_takeD)
    from rate_fold [OF rate_chat(1) [OF opened(1) chat(1) opened(2)] pos this, of X X]
    have n: "rate_at (sv_env s) r w ?start (int ?n) (fold (handle_arrival X) (take i as) s)" using chat(1) by (simp add: assms(3) Suc)
    have "(t, r, hdr, body) \<in> set later" using assms(3,7,8) by (auto simp: Suc dest!: sym [of "_ ! _"])
    then have "t div 1000 - ?start \<le> RATE_LIMIT_WINDOW (sv_env s)" using assms(6) chat(2) by (auto simp: list_all_iff in_window_def)
    from rate_counted [OF n pos this] n show ?thesis unfolding assms(10) by blast
  qed
  then obtain a n where at: "rate_at (sv_env s) r w a n (fold (handle_arrival X) (take i as) s)"
    "rate_at (sv_env s) r w ?start (int ?n + 1) (rated r s')" by blast
  have "(int ?n + 1 \<le> RATE_LIMIT_MSGS (sv_env s)) = (int ?n < RATE_LIMIT_MSGS (sv_env s))" by linarith
  with rate_chat(2) [OF at(1) chat(2) at(2) [unfolded assms(10)], of X] show ?thesis unfolding assms(10) by (simp only:)
qed

theorem rate_limit_enforced_witness:
  "let chat = ping_hdr\<lparr>cmd := cmd_code CHAT\<rparr>;
     flood = (5000, 0, chat, ''hello'') # replicate 19 (5000, 0, chat, ''hello'') @ [(5200, 0, ping_hdr, []), (5500, 0, chat, ''again'')];
     s' = (fold (handle_arrival externals_ref) (take 21 flood) demo_one)\<lparr>sv_tick := 5500\<rparr>
   in process_business externals_ref 0 chat ''again'' s' =
     (Val (), queue_packets 0 [FnSendPacket 0 (cmd_code ACK) (seq chat) (ser_Response (x_codec externals_ref) (failure txt_rate_limited))]
       (rated 0 s'))"
proof -
  let ?chat = "ping_hdr\<lparr>cmd := cmd_code CHAT\<rparr>"
  let ?later = "replicate 19 (5000::int, 0::nat, ?chat, ''hello'') @ [(5200, 0, ping_hdr, []), (5500, 0, ?chat, ''again'')]"
  let ?flood = "(5000::int, 0::nat, ?chat, ''hello'') # ?later"
  have demo: "cc_owner_worker (ctx_of demo_one 0) = Some 0" "cc_rate_window_start (ctx_of demo_one 0) = 0"
    and limit: "RATE_LIMIT_MSGS (sv_env demo_one) = 20" "RATE_LIMIT_WINDOW (sv_env demo_one) = 1"
    by (simp_all add: demo_one_eval demo_settings new_ClientContext_def)
  have window: "list_all (in_window (sv_env demo_one) 0 (5000 div 1000)) ?later"
    and nth: "?flood ! 21 = (5500, 0, ?chat, ''again'')" "21 < length ?flood"
    and count: "length (filter (is_chat 0) (take 21 ?flood)) = 20"
    by (simp_all add: limit list_all_iff in_window_def is_chat_def ping_hdr_def take_Cons' nth_Cons' nth_append)
  note run = rate_limit_enforced [OF demo(1) _ refl _ disjI1 [OF demo(2)] window nth(2,1) _ refl, of externals_ref]
  from run show ?thesis unfolding Let_def count limit by simp
qed

end
