(* ===== verification/Sessions_Live.thy ===== *)
theory Sessions_Live
  imports Delivery
begin

text \<open>
  Sessions over time: what happens to the session table and to contexts when a user logs in a second time and when
  a packet is handled after its connection is gone.
\<close>

unbundle bit_operations_syntax

section \<open>A registered user\<close>

definition ann_packet :: string where
  "ann_packet = make_packet (cmd_code REGISTER) 1 ''ann''"

definition ann_hdr :: PacketHeader where
  "ann_hdr = \<lparr>magic = PROTO_MAGIC, body_len = 3, cmd = cmd_code REGISTER, seq = 1\<rparr>"

lemma read_ann: "read_packets ann_packet = ([(ann_hdr, ''ann'')], [], True)"
  using read_packets_wire [of "[(cmd_code REGISTER, 1, ''ann'')]"]
  by (simp add: wire_def received_def ann_packet_def ann_hdr_def)

lemma ann_packet_not_Nil [simp]: "ann_packet \<noteq> []"
  by (simp add: ann_packet_def)

lemmas register_defs = demo_one_eval step_defs event_bits demo_conn_def new_ClientContext_def read_ann new_pool_def
  demo_settings ann_hdr_def handle_register_def codec_ref_def has_db_def with_db_def register_user_def fresh_db_run bind_def
  success_def new_Response_def

definition demo_register :: "event list" where
  "demo_register = [SocketEvent 0 5 EPOLLIN [RData ann_packet, RAgain] [], RunTask]"

definition demo_user :: "(json, unit) server" where
  "demo_user = the (runs externals_ref demo_register demo_one)"

lemma demo_user_eval:
  "runs externals_ref demo_register demo_one = Some demo_user"
  "conns demo_user 0 5 = Some (demo_conn 5 0)" "cc_uid (ctx_of demo_user 0) = 1000"
  "session_get (sv_sessions demo_user) 1000 = Some 0" "cc_owner_worker (ctx_of demo_user 0) = Some 0"
proof -
  have "\<exists>s. runs externals_ref demo_register demo_one = Some s \<and>
      conns s 0 5 = Some (demo_conn 5 0) \<and> cc_uid (ctx_of s 0) = 1000 \<and> session_get (sv_sessions s) 1000 = Some 0 \<and>
      cc_owner_worker (ctx_of s 0) = Some 0"
    by (simp add: demo_register_def register_defs)
  then show "runs externals_ref demo_register demo_one = Some demo_user"
    "conns demo_user 0 5 = Some (demo_conn 5 0)" "cc_uid (ctx_of demo_user 0) = 1000"
    "session_get (sv_sessions demo_user) 1000 = Some 0" "cc_owner_worker (ctx_of demo_user 0) = Some 0"
    by (auto simp: demo_user_def)
qed

section \<open>Logging in twice\<close>

text \<open>
  C37. A second login takes the first connection down, as intended, and itself with it: when a user who has a
  session logs in on another connection, the first connection's worker is told to close it and the session
  is the new connection's; but when the worker does close the first connection, it removes the
  user's session whichever connection it belongs to. The new client is connected and logged in then, and the server takes it for
  offline: messages to it are stored and not delivered.
\<close>

theorem second_login_loses_session:
  assumes "reach X s" "conns s w fd = Some c" "tc_ctx c = r1" "cc_uid (ctx_of s r1) = uid" "0 < uid"
    and "session_get (sv_sessions s) uid = Some r1" "cc_owner_worker (ctx_of s r1) = Some w" "r2 \<noteq> r1"
    and "bind uid r2 s = (res, s1)" "force_close_in_loop w fd s1 = s2"
  shows "res = Val () \<and> w_pending (sv_worker s1 w) = w_pending (sv_worker s w) @ [FnClose fd] \<and>
    session_get (sv_sessions s1) uid = Some r2 \<and>
    session_get (sv_sessions s2) uid = None \<and> cc_uid (ctx_of s2 r2) = uid \<and> cc_logged_in (ctx_of s2 r2) \<and>
    cc_fd (ctx_of s2 r2) = cc_fd (ctx_of s r2)"
proof -
  note d = conn_invD [OF net_inv_conn [OF reach_net_inv [OF assms(1)]] assms(2)]
  have bnd: "(res, s1) = (Val (), (upd_ctx r2 (\<lambda>x. x\<lparr>cc_uid := uid, cc_logged_in := True\<rparr>) (queue_close_connection w fd s))
      \<lparr>sv_sessions := session_put uid r2 (sv_sessions s)\<rparr>)"
    using assms(3,6,7,9) d(3,6) by (simp add: bind_def run_seqP queue_close_connection_def queue_in_loop_def)
  then have s1: "conns s1 w fd = Some c" "w_pending (sv_worker s1 w) = w_pending (sv_worker s w) @ [FnClose fd]"
    "sv_sessions s1 = session_put uid r2 (sv_sessions s)" "ctx_of s1 r1 = ctx_of s r1"
    "ctx_of s1 r2 = (ctx_of s r2)\<lparr>cc_uid := uid, cc_logged_in := True\<rparr>"
    using assms(2,8) by (simp_all add: queue_close_connection_def queue_in_loop_def)
  note close = force_close_sessions(1) [OF s1(1) d(2,1) assms(3)] force_close_heap(2) [OF s1(1) d(2,1) assms(3)]
  show ?thesis
    using bnd s1 close assms(4,5,8,10) by auto
qed

theorem second_login_loses_session_witness:
  "session_get (sv_sessions (force_close_in_loop 0 5 (snd (bind 1000 1 demo_user)))) 1000 = None"
  using second_login_loses_session [OF reach_runs [OF demo_user_eval(1) reach_demo_one], of 0 5 "demo_conn 5 0" 0 1000 1
      "fst (bind 1000 1 demo_user)" "snd (bind 1000 1 demo_user)"]
  by (simp add: demo_user_eval demo_conn_def)

section \<open>Packets that outlive their connection\<close>

text \<open>A packet that logs its sender in as user \<open>uid\<close>: a login that the storage accepts, or a registration that succeeds.\<close>

definition authenticates :: "('j, 't, 'm) externals \<Rightarrow> PacketHeader \<Rightarrow> string \<Rightarrow> ('t, 'm) db \<Rightarrow> int \<Rightarrow> bool" where
  "authenticates X hdr body d uid \<longleftrightarrow> 0 < uid \<and>
     (if cmd hdr = cmd_code LOGIN
      then (case parse_LoginRequest (x_codec X) body of None \<Rightarrow> False
        | Some req \<Rightarrow> fst (verify_login X (lr_username req) (lr_password req) d) = Val uid)
      else cmd hdr = cmd_code REGISTER \<and>
       (case parse_RegisterRequest (x_codec X) body of None \<Rightarrow> False
        | Some req \<Rightarrow> rr_username req \<noteq> [] \<and> rr_password req \<noteq> [] \<and>
            fst (register_user X (rr_username req) (rr_password req) d) = Val uid))"

definition online_as :: "ctx_ref \<Rightarrow> int \<Rightarrow> ('t, 'm) server \<Rightarrow> bool" where
  "online_as r uid s \<longleftrightarrow> session_get (sv_sessions s) uid = Some r \<and> cc_uid (ctx_of s r) = uid \<and> cc_logged_in (ctx_of s r) \<and>
     cc_recv_buf (ctx_of s r) = []"

lemma keeps_online [keeps_intros]: "keeps (online_as r uid) (send_to q c n b)" "keeps (online_as r uid) (with_db m)"
  by (rule keepsI; auto simp: online_as_def send_to_def queue_send_packet_def queue_in_loop_def with_db_def split: option.split prod.split)+

lemma snd_catch: "I (snd (m s)) \<Longrightarrow> (\<And>e. keeps I (h e)) \<Longrightarrow> I (snd (catchP m h s))"
  by (auto simp: catchP_def keeps_def split: prod.splits outcome.splits)

text \<open>However the rest of the handler goes, the context is bound to the user then.\<close>

lemma authenticated_online:
  assumes "authenticates X hdr body d uid" "sv_db s = Some d" "session_get (sv_sessions s) uid = None" "cc_recv_buf (ctx_of s r) = []"
  shows "online_as r uid (snd (process_business X r hdr body s))"
proof -
  let ?bound = "\<lambda>s. (upd_ctx r (\<lambda>x. x\<lparr>cc_uid := uid, cc_logged_in := True\<rparr>) s)\<lparr>sv_sessions := session_put uid r (sv_sessions s)\<rparr>"
  have bnd: "bind uid r u = (Val (), ?bound u)" if "session_get (sv_sessions u) uid = None" for u :: "('b, 'c) server"
    using that by (simp add: bind_def run_seqP)
  have kept: "online_as r uid (snd (m (?bound (s\<lparr>sv_db := d2\<rparr>))))" if "keeps (online_as r uid) m" for m :: "('b, 'c, unit) sprog" and d2
    by (rule keepsD [OF that]) (simp add: online_as_def assms(4))
  have "online_as r uid (snd (handle_command X r hdr body s))"
  proof (cases "cmd hdr = cmd_code LOGIN")
    case True
    then obtain req where req: "parse_LoginRequest (x_codec X) body = Some req"
      "fst (verify_login X (lr_username req) (lr_password req) d) = Val uid" "0 < uid"
      using assms(1) by (auto simp: authenticates_def split: option.splits)
    define d1 where "d1 = snd (verify_login X (lr_username req) (lr_password req) d)"
    let ?rest = "seqP (deliver_offline X r uid) (send_response X r (seq hdr) (success uid ''login success''))"
    have "verify_login X (lr_username req) (lr_password req) d = (Val uid, d1)" using req(2) by (simp add: d1_def prod_eq_iff)
    then have "handle_command X r hdr body s = ?rest (?bound (s\<lparr>sv_db := Some d1\<rparr>))"
      using True req(1,3) assms(2,3) by (simp add: handle_command_def handle_login_def has_db_def with_db_def run_bindP run_seqP bnd)
    moreover have "keeps (online_as r uid) ?rest" unfolding reply_defs by (intro keeps_intros)
    ultimately show ?thesis using kept [of ?rest "Some d1"] by simp
  next
    case False
    then obtain req where req: "parse_RegisterRequest (x_codec X) body = Some req" "rr_username req \<noteq> []" "rr_password req \<noteq> []"
      "fst (register_user X (rr_username req) (rr_password req) d) = Val uid" "0 < uid" "cmd hdr = cmd_code REGISTER"
      using assms(1) by (auto simp: authenticates_def split: option.splits)
    define d1 where "d1 = snd (register_user X (rr_username req) (rr_password req) d)"
    let ?rest = "send_response X r (seq hdr) (success uid (txt_registered @ to_string uid))"
    have "register_user X (rr_username req) (rr_password req) d = (Val uid, d1)" using req(4) by (simp add: d1_def prod_eq_iff)
    then have "handle_command X r hdr body s = ?rest (?bound (s\<lparr>sv_db := Some d1\<rparr>))"
      using req(1-3,5,6) assms(2,3) by (simp add: handle_command_def handle_register_def has_db_def with_db_def run_bindP run_seqP bnd)
    moreover have "keeps (online_as r uid) ?rest" unfolding reply_defs by (intro keeps_intros)
    ultimately show ?thesis using kept [of ?rest "Some d1"] by simp
  qed
  moreover have "cmd hdr \<noteq> cmd_code CHAT" using assms(1) by (auto simp: authenticates_def split: if_splits)
  moreover have "keeps (online_as r uid) (business_error X r (seq hdr))"
    unfolding business_error_def send_response_def by (intro keeps_intros)
  ultimately show ?thesis
    using snd_catch [of "online_as r uid" "handle_command X r hdr body" s "\<lambda>e. business_error X r (seq hdr)"]
    by (simp add: process_business_def)
qed

text \<open>
  C38. A login can fall into the hands of a stranger. Let the next packet in the pool's queue be one that logs its sender in, and let the
  sender's connection, with a context of the pool, be closed before a pool thread takes it. The packet is handled all
  the same, on the context that went back to the pool; and the next client that this worker takes is given that context: it is
  logged in as the first client's user without having sent a byte, and that user's session leads to it. (The user
  has no other session.)
\<close>

theorem stale_login_inherited:
  assumes "reach X s" "conns s w fd = Some c" "tc_ctx c = r" "cc_pool_idx (ctx_of s r) \<noteq> -1"
    and "take_task (sv_pool s) = Some (TaskBusiness r hdr body, p)" "sv_db s = Some d" "authenticates X hdr body d uid"
    and "session_get (sv_sessions s) uid = None"
    and "run_task X (force_close_in_loop w fd s) = (Val (), s2)" "conns s2 w fd2 = None"
    and "s3 = add_connection_in_loop w fd2 ip port s2"
  shows "conns s3 w fd2 = Some \<lparr>tc_fd = fd2, tc_ip = ip, tc_port = port, tc_ctx = r, tc_closed = False\<rparr> \<and>
    cc_recv_buf (ctx_of s3 r) = [] \<and> cc_uid (ctx_of s3 r) = uid \<and> cc_logged_in (ctx_of s3 r) \<and>
    session_get (sv_sessions s3) uid = Some r"
proof -
  let ?s1 = "force_close_in_loop w fd s" and ?i = "nat (cc_pool_idx (ctx_of s r))"
  note inv = reach_net_inv [OF assms(1)]
  note cl = conn_invD [OF net_inv_conn [OF inv] assms(2)]
  note at = assms(2) cl(2,1) assms(3)
  have place: "storage (w_pool (sv_worker s w)) ! ?i = r"
    using inv assms(2-4) unfolding net_inv_def pools_inv_def by fastforce
  have s1: "sv_db ?s1 = Some d" "session_get (sv_sessions ?s1) uid = None" "cc_recv_buf (ctx_of ?s1 r) = []"
    using force_close_sel(12) [OF at] force_close_sessions(1) [OF at] force_close_heap(2) [OF at] assms(4,6,8)
    by (simp_all add: ctx_reset_def)
  have "take_task (sv_pool ?s1) = Some (TaskBusiness r hdr body, p)" using force_close_sel(11) [OF at] assms(5) by simp
  then have s2: "s2 = snd (process_business X r hdr body (?s1\<lparr>sv_pool := p\<rparr>))"
    using assms(9) business_no_throw [of X r hdr body "?s1\<lparr>sv_pool := p\<rparr>"]
    by (auto simp: run_task_def threadP_def run_catchP split: prod.splits outcome.splits)
  have on: "online_as r uid s2" unfolding s2 by (rule authenticated_online [OF assms(7)]) (use s1 in simp_all)
  have "same_net ?s1 s2" using frameD [OF frame_run_task, of ?s1 X] assms(9) by simp
  then have "w_pool (sv_worker s2 w) = (w_pool (sv_worker s w))\<lparr>free_list := free_list (w_pool (sv_worker s w)) @ [?i]\<rparr>"
    using force_close_heap(3) [OF at] assms(4) by (simp add: same_net_def)
  then have acq: "\<exists>p2. acquire (w_pool (sv_worker s2 w)) (sv_heap s2) = (r, p2, sv_heap s2)"
    using place by (simp add: acquire_def Let_def)
  then show ?thesis
    using on assms(10,11)
    by (auto simp: add_connection_in_loop_def new_TcpConnection_def conn_start_def start_heartbeat_timer_def cancel_heartbeat_timer_def
        AddTimer_def update_time_def online_as_def Let_def split: option.split prod.split)
qed

text \<open>The first client registers on descriptor 5 and hangs up; the second, on descriptor 6, is user 1000.\<close>

definition demo_asked :: "(json, unit) server" where
  "demo_asked = the (runs externals_ref [SocketEvent 0 5 EPOLLIN [RData ann_packet, RAgain] []] demo_one)"

theorem stale_login_inherited_witness:
  "let s3 = add_connection_in_loop 0 6 ''10.0.0.1'' 4000 (snd (run_task externals_ref (force_close_in_loop 0 5 demo_asked)))
   in conns s3 0 6 = Some (demo_conn 6 0) \<and> cc_uid (ctx_of s3 0) = 1000 \<and> cc_logged_in (ctx_of s3 0)"
proof -
  have run: "runs externals_ref [SocketEvent 0 5 EPOLLIN [RData ann_packet, RAgain] []] demo_one = Some demo_asked"
    and asked: "conns demo_asked 0 5 = Some (demo_conn 5 0)" "tc_ctx (demo_conn 5 0) = 0" "cc_pool_idx (ctx_of demo_asked 0) \<noteq> -1"
    "take_task (sv_pool demo_asked) = Some (TaskBusiness 0 ann_hdr ''ann'', new_pool)" "sv_db demo_asked = Some fresh_db"
    "session_get (sv_sessions demo_asked) 1000 = None"
    and after: "fst (run_task externals_ref (force_close_in_loop 0 5 demo_asked)) = Val ()"
    "conns (snd (run_task externals_ref (force_close_in_loop 0 5 demo_asked))) 0 6 = None"
    by (simp_all add: demo_asked_def register_defs close_defs ctx_reset_def)
  have "authenticates externals_ref ann_hdr ''ann'' fresh_db 1000"
    by (simp add: authenticates_def register_defs)
  from stale_login_inherited [OF reach_runs [OF run reach_demo_one] asked(1-5) this asked(6) _ after(2) refl, of "''10.0.0.1''" 4000]
    after(1) show ?thesis by (simp add: Let_def prod_eq_iff demo_conn_def)
qed

section \<open>The id of the AI\<close>

text \<open>
  The ids of users are given out in turn, and 9999 is not left out, although it stands for the AI: the user who gets it can log in, but a chat message to
  that id is taken for a question to the AI, is neither passed on nor stored, and at most its sender is answered.
\<close>

theorem ai_id_given_to_user:
  assumes "use_file_storage d" "file_next_uid d = 9999" "\<not> list_ex (\<lambda>u. fu_username u = name) (file_users d)"
    and "register_user X name password d = (Val uid, d')"
    and "cmd hdr = cmd_code CHAT" "parse_ChatMessage (x_codec X) body = Some msg" "cm_to_uid msg = uid"
    and "cc_owner_worker (ctx_of s r) = Some w" "cc_rate_msg_count (ctx_of (rated r s) r) \<le> RATE_LIMIT_MSGS (sv_env s)"
    and "process_business X r hdr body s = (res, s')"
  shows "uid = 9999 \<and> res = Val () \<and> sv_db s' = sv_db s \<and>
    (\<forall>w'. w_pending (sv_worker s' w') = w_pending (sv_worker s w') \<or>
       (\<exists>b. w_pending (sv_worker s' w') = w_pending (sv_worker s w') @ [FnSendPacket r (cmd_code ACK) (seq hdr) b]))"
proof -
  have uid: "uid = 9999"
    using assms(1-4) by (auto simp: register_user_def dispatch_file file_register_user_def Let_def run_seqP split: prod.splits outcome.splits)
  let ?s = "rated r s"
  obtain ok s1 where sub: "submit_stream_request (cc_uid (ctx_of ?s r)) (cm_content msg) r ?s = (ok, s1)" by fastforce
  have s1: "sv_db s1 = sv_db s" "w_pending (sv_worker s1 w') = w_pending (sv_worker s w')" "cc_owner_worker (ctx_of s1 r) = Some w" for w'
    using sub assms(8) by (auto simp: submit_stream_request_def Let_def split: if_splits)
  have "handle_chat X r (seq hdr) body ?s = (Val (), if ok then s1 else queue_packets w
      [FnSendPacket r (cmd_code ACK) (seq hdr) (ser_Response (x_codec X) ((failure txt_ai_busy)\<lparr>rs_uid := cc_uid (ctx_of ?s r)\<rparr>))] s1)"
    using assms(6,7) uid sub s1(3) by (simp add: handle_chat_def handle_ai_chat_def uid_of_def run_bindP send_response_def send_to_owned)
  from business_chat [OF assms(5,9) this] show ?thesis using assms(10) uid s1 by auto
qed

lemma ai_id_registered:
  "fst (register_user externals_ref ''zoe'' ''pw'' (fresh_db\<lparr>file_next_uid := 9999\<rparr>)) = Val 9999"
proof -
  have "\<exists>d'. register_user externals_ref ''zoe'' ''pw'' (fresh_db\<lparr>file_next_uid := 9999\<rparr>) = (Val 9999, d')"
    by (simp add: register_user_def fresh_db_run save_users_file_def write_json_def run_seqP run_bindP)
  then show ?thesis by auto
qed

end
