(* ===== verification/Store_Forward.thy ===== *)
theory Store_Forward
  imports Sessions_Live
begin

text \<open>
  The path of a message to a user who is offline, through the business layer, the storage and back: the composition of
  the chat handler, the database writer and the login handler.
\<close>

lemma offline_loop_member:
  assumes "(f, uid, c, False) \<in> set (map fm_payload ms)"
  shows "\<exists>i. \<lparr>dm_id = i, dm_from_uid = f, dm_to_uid = uid, dm_content = c, dm_delivered = False\<rparr> \<in> set (offline_loop uid ms)"
  using assms by (induction ms) (auto simp: fm_payload_def)

lemma verify_login_users:
  "use_file_storage d \<Longrightarrow> use_file_storage d' \<Longrightarrow> file_users d' = file_users d \<Longrightarrow>
   fst (verify_login X u p d') = fst (verify_login X u p d)"
  by (simp add: verify_login_def dispatch_file file_verify_login_def)

lemma fold_store_users: "file_users (fold store_message ms d) = file_users d"
  by (induction ms arbitrary: d) (simp_all add: store_message_def)

lemma writer_round_users:
  assumes "use_file_storage d" "db_running d"
  shows "file_users (snd (writer_round X d)) = file_users d"
proof -
  have "data (snd (writer_round X d)) = data (fold store_message (take 100 (db_queue d)) (d\<lparr>db_queue := drop 100 (db_queue d)\<rparr>))"
    using data_writer_round [OF assms(1), of X] assms(2) by simp
  then have "file_users (snd (writer_round X d)) = file_users (fold store_message (take 100 (db_queue d)) (d\<lparr>db_queue := drop 100 (db_queue d)\<rparr>))"
    by (metis data_sel(1))
  then show ?thesis by (simp add: fold_store_users)
qed

text \<open>
  C2. Store and forward: a message to a user who is not logged in reaches that user with the next login. When
  the chat packet has been handled, the database writer has made a round, and the user logs in, the
  client's worker has the message queued for that client with the sender's id and the content unchanged.
  (The sender is within the rate limit. In file mode, with fewer than a hundred messages waiting for the writer and files that can be saved.)
\<close>

theorem store_and_forward:
  assumes "sv_db s = Some d" "file_mode d" "db_running d" "length (db_queue d) < 100"
    and "cmd h1 = cmd_code CHAT" "parse_ChatMessage (x_codec X) b1 = Some msg" "cm_to_uid msg = v" "v \<noteq> 9999" "0 < v"
    and "cc_owner_worker (ctx_of s r1) = Some w1" "cc_uid (ctx_of s r1) = uid"
    and "cc_rate_msg_count (ctx_of (rated r1 s) r1) \<le> RATE_LIMIT_MSGS (sv_env s)"
    and "session_get (sv_sessions s) v = None" "process_business X r1 h1 b1 s = (res1, s1)"
    and "db_round X s1 = (Val (), s2)" "sv_db s2 = Some d2" "int_ok (file_next_msg_id d2)"
    and "cmd h2 = cmd_code LOGIN" "parse_LoginRequest (x_codec X) b2 = Some req"
    and "fst (verify_login X (lr_username req) (lr_password req) d) = Val v"
    and "cc_owner_worker (ctx_of s r2) = Some w2" "mark_delivered X v 9223372036854775807 d2 = (Val (), d3)"
    and "process_business X r2 h2 b2 s2 = (res2, s3)"
  shows "res2 = Val () \<and> FnSendPacket r2 (cmd_code CHAT) 0 (ser_ChatMessage (x_codec X)
      (new_ChatMessage\<lparr>cm_from_uid := uid, cm_to_uid := v, cm_content := cm_content msg, cm_timestamp := sv_wall s\<rparr>))
    \<in> set (w_pending (sv_worker s3 w2))"
proof -
  let ?d1 = "stored_as uid msg False d"
  have s0: "sv_db (rated r1 s) = Some d" "cc_owner_worker (ctx_of (rated r1 s) r1) = Some w1"
    "session_get (sv_sessions (rated r1 s)) (cm_to_uid msg) = None" "cc_uid (ctx_of (rated r1 s) r1) = uid"
    using assms by simp_all
  have s1: "s1 = queue_packets w1 [FnSendPacket r1 (cmd_code ACK) (seq h1) (ser_Response (x_codec X)
      ((failure (txt_user @ to_string (cm_to_uid msg) @ txt_stored))\<lparr>rs_uid := uid\<rparr>))] ((rated r1 s)\<lparr>sv_db := Some ?d1\<rparr>)"
    using business_chat [OF assms(5,12) chat_offline_run [OF s0(1) assms(6) _ s0(2-4)]] assms(7,8,14) by simp
  have fs: "use_file_storage ?d1" "db_running ?d1" "file_mode ?d1" using assms(2,3) by (simp_all add: file_mode_def stored_as_def file_inv_def)
  have s2: "s2 = s1\<lparr>sv_db := Some d2\<rparr>" "d2 = snd (writer_round X ?d1)"
    using assms(15,16) by (auto simp: db_round_def has_db_def s1 with_db_def split: prod.splits)
  note round = writer_round_effect [OF fs(1,2) s2(2) [symmetric]]
  have "(uid, v, cm_content msg, False) \<in> set (map fm_payload (file_messages d2))"
    using round assms(4,7) by (simp add: stored_as_def dm_payload_def)
  from offline_loop_member [OF this] obtain i where
    i: "\<lparr>dm_id = i, dm_from_uid = uid, dm_to_uid = v, dm_content = cm_content msg, dm_delivered = False\<rparr> \<in> set (offline_loop v (file_messages d2))"
    by blast
  have "file_mode d2" using keepsD [OF keeps_writer_round fs(3), of X] s2(2) by simp
  moreover have "file_users d2 = file_users d" using writer_round_users [OF fs(1,2), of X] by (simp add: s2(2) stored_as_def)
  then have "fst (verify_login X (lr_username req) (lr_password req) d2) = Val v"
    using verify_login_users [of d d2 X] assms(2,20) round by (simp add: file_mode_def)
  moreover have "cc_owner_worker (ctx_of s2 r2) = Some w2" "session_get (sv_sessions s2) v = None" "sv_wall s2 = sv_wall s"
    using assms(13,21) by (auto simp: s2(1) s1)
  ultimately have "res2 = Val () \<and> w_pending (sv_worker s3 w2) = w_pending (sv_worker s2 w2) @
      map (\<lambda>m. FnSendPacket r2 (cmd_code CHAT) 0 (offline_packet X (sv_wall s) m)) (offline_loop v (file_messages d2)) @
      [FnSendPacket r2 (cmd_code ACK) (seq h2) (ser_Response (x_codec X) (success v ''login success''))]"
    using login_effect [OF assms(16) _ assms(17,19) _ assms(9) _ _ assms(22,18,23)] by simp
  then show ?thesis using i by (force simp: offline_packet_def)
qed

definition chat_hdr :: PacketHeader where
  "chat_hdr = ping_hdr\<lparr>cmd := cmd_code CHAT\<rparr>"

definition mail_start :: "(json, unit) server" where
  "mail_start = demo_one\<lparr>sv_db := Some ann_db\<rparr>"

definition mail_sent :: "(json, unit) server" where
  "mail_sent = snd (process_business externals_ref 0 chat_hdr ''hello'' mail_start)"

definition mail_stored :: "(json, unit) server" where
  "mail_stored = snd (db_round externals_ref mail_sent)"

definition hello :: ChatMessage where
  "hello = new_ChatMessage\<lparr>cm_to_uid := 7, cm_content := ''hello''\<rparr>"

lemma mail_facts:
  "sv_db mail_start = Some ann_db" "db_running ann_db" "length (db_queue ann_db) < 100"
  "parse_ChatMessage (x_codec externals_ref) ''hello'' = Some hello" "cm_to_uid hello = 7"
  "cc_owner_worker (ctx_of mail_start 0) = Some 0" "cc_uid (ctx_of mail_start 0) = 0"
  "cc_rate_msg_count (ctx_of (rated 0 mail_start) 0) \<le> RATE_LIMIT_MSGS (sv_env mail_start)"
  "session_get (sv_sessions mail_start) 7 = None" "cc_owner_worker (ctx_of mail_start 1) = Some 1"
  "parse_LoginRequest (x_codec externals_ref) ''ann'' = Some \<lparr>lr_username = ''ann'', lr_password = ''pw''\<rparr>"
  "cmd chat_hdr = cmd_code CHAT" "cmd login_hdr = cmd_code LOGIN"
  by (simp_all add: mail_start_def demo_one_eval chat_hdr_def login_hdr_def ping_hdr_def codec_ref_def new_ClientContext_def hello_def
      rate_update_def demo_settings ann_db_def mail_db_def fresh_db_def new_db_def)

lemma mail_stored_db: "\<exists>d2 d3. db_round externals_ref mail_sent = (Val (), mail_stored) \<and> sv_db mail_stored = Some d2 \<and>
    int_ok (file_next_msg_id d2) \<and> mark_delivered externals_ref 7 9223372036854775807 d2 = (Val (), d3)"
  by (simp add: mail_stored_def mail_sent_def mail_start_def db_round_def demo_one_eval step_defs chat_hdr_def ping_hdr_def rate_limited_def rate_update_def
      demo_settings new_ClientContext_def codec_ref_def handle_chat_def new_ChatMessage_def uid_of_def submit_message_run has_db_def with_db_def
      writer_round_def loop_round_def dispatch_def file_store_batch_def save_messages_file_def write_json_def store_message_def
      ann_db_def mail_db_def fresh_db_def new_db_def mark_delivered_def file_mark_delivered_def int_ok_def INT_MIN_def INT_MAX_def
      failure_def new_Response_def)

theorem store_and_forward_witness:
  "FnSendPacket 1 (cmd_code CHAT) 0 ''hello'' \<in>
     set (w_pending (sv_worker (snd (process_business externals_ref 1 login_hdr ''ann'' mail_stored)) 1))"
proof -
  obtain d2 d3 where db: "db_round externals_ref mail_sent = (Val (), mail_stored)" "sv_db mail_stored = Some d2"
    "int_ok (file_next_msg_id d2)" "mark_delivered externals_ref 7 9223372036854775807 d2 = (Val (), d3)"
    using mail_stored_db by blast
  have run: "process_business externals_ref 0 chat_hdr ''hello'' mail_start =
      (fst (process_business externals_ref 0 chat_hdr ''hello'' mail_start), mail_sent)" by (simp add: mail_sent_def)
  have login: "fst (verify_login externals_ref (lr_username \<lparr>lr_username = ''ann'', lr_password = ''pw''\<rparr>)
      (lr_password \<lparr>lr_username = ''ann'', lr_password = ''pw''\<rparr>) ann_db) = Val 7" using ann_db_login by simp
  from store_and_forward [OF mail_facts(1) ann_db_mode(1) mail_facts(2,3,12,4,5) _ _ mail_facts(6-9) run db(1-3) mail_facts(13,11)
      login mail_facts(10) db(4) prod.collapse [symmetric]]
  show ?thesis by (simp add: codec_ref_def hello_def)
qed

end
