(* ===== verification/Ai_Theorems.thy ===== *)
theory Ai_Theorems
  imports Store_Forward
begin

text \<open>
  The AI manager: an answer arrives whole and in order however it is cut, the number of answers in progress is bounded
  in every reachable state, and one way in which a place is never given back.
\<close>

unbundle bit_operations_syntax

section \<open>Streaming an answer\<close>

text \<open>The chunks of an answer as they arrive, each at its time.\<close>

fun stream_chunks :: "('j, 't, 'm) externals \<Rightarrow> (int \<times> string) list \<Rightarrow> ai_stream \<Rightarrow> ('t, 'm) server \<Rightarrow> ai_stream \<times> ('t, 'm) server" where
  "stream_chunks X [] st s = (st, s)"
| "stream_chunks X ((t, c) # cs) st s = (case on_chunk X c st (s\<lparr>sv_tick := t\<rparr>) of (st1, s1) \<Rightarrow> stream_chunks X cs st1 s1)"

text \<open>One packet of the answer, and the packets of several pieces with consecutive numbers.\<close>

definition ai_packet :: "('j, 't, 'm) externals \<Rightarrow> StreamRequest \<Rightarrow> int \<Rightarrow> bool \<Rightarrow> int \<Rightarrow> string \<Rightarrow> loop_fn" where
  "ai_packet X req wall is_last n part = FnSendPacket (sr_ctx req) (cmd_code CHAT) 0 (ser_ChatMessage (x_codec X)
     (new_ChatMessage\<lparr>cm_from_uid := 9999, cm_to_uid := sr_uid req, cm_content := part,
       cm_is_stream := (\<not> is_last \<or> part \<noteq> []), cm_is_last_chunk := is_last, cm_stream_seq := n, cm_timestamp := wall\<rparr>))"

fun ai_packets :: "('j, 't, 'm) externals \<Rightarrow> StreamRequest \<Rightarrow> int \<Rightarrow> int \<Rightarrow> string list \<Rightarrow> loop_fn list" where
  "ai_packets X req wall n [] = []"
| "ai_packets X req wall n (p # ps) = ai_packet X req wall False n p # ai_packets X req wall (n + 1) ps"

lemma ai_packet_seq [simp]: "ai_packet X (req\<lparr>sr_seq := n\<rparr>) wall l m p = ai_packet X req wall l m p"
  by (simp add: ai_packet_def)

lemma ai_packets_seq [simp]: "ai_packets X (req\<lparr>sr_seq := n\<rparr>) wall m ps = ai_packets X req wall m ps"
  by (induction ps arbitrary: m) simp_all

lemma send_next_run:
  assumes "cc_owner_worker (ctx_of s (sr_ctx (as_req st))) = Some w" "part \<noteq> [] \<or> is_last"
  shows "send_next X st part is_last s =
    (st\<lparr>as_req := (as_req st)\<lparr>sr_seq := sr_seq (as_req st) + 1\<rparr>\<rparr>,
     queue_packets w [ai_packet X (as_req st) (sv_wall s) is_last (sr_seq (as_req st)) part] s)"
  using assms by (auto simp: send_next_def send_stream_chunk_def Let_def ai_packet_def queue_packets_def queue_send_packet_def queue_in_loop_def)

lemma on_chunk_run:
  assumes "cc_owner_worker (ctx_of s (sr_ctx (as_req st))) = Some w" "0 \<le> cc_fd (ctx_of s (sr_ctx (as_req st)))"
  shows "\<exists>ps. length ps \<le> 1 \<and> [] \<notin> set ps \<and> concat ps @ as_buffer (fst (on_chunk X c st s)) = as_buffer st @ c \<and>
    as_req (fst (on_chunk X c st s)) = (as_req st)\<lparr>sr_seq := sr_seq (as_req st) + int (length ps)\<rparr> \<and>
    as_conn_lost (fst (on_chunk X c st s)) = as_conn_lost st \<and>
    snd (on_chunk X c st s) = queue_packets w (ai_packets X (as_req st) (sv_wall s) (sr_seq (as_req st)) ps) s"
proof (cases "(length (as_buffer st @ c) \<ge> MAX_CHUNK_SIZE \<or> sv_tick s - as_last_flush st \<ge> FLUSH_INTERVAL \<or> CHR 0x0A \<in> set c) \<and>
    as_buffer st @ c \<noteq> []")
  case True
  then show ?thesis using assms
    by (intro exI [of _ "[as_buffer st @ c]"]) (auto simp: on_chunk_def Let_def send_next_run)
next
  case False
  then show ?thesis using assms by (intro exI [of _ "[]"]) (auto simp: on_chunk_def Let_def)
qed

lemma ai_packets_append:
  "ai_packets X req wall n (ps @ qs) = ai_packets X req wall n ps @ ai_packets X req wall (n + int (length ps)) qs"
  by (induction ps arbitrary: n) (simp_all add: algebra_simps)

lemma stream_chunks_run:
  assumes "cc_owner_worker (ctx_of s (sr_ctx (as_req st))) = Some w" "0 \<le> cc_fd (ctx_of s (sr_ctx (as_req st)))"
    and "stream_chunks X cs st s = (st', s')"
  shows "\<exists>ps tick. [] \<notin> set ps \<and> concat ps @ as_buffer st' = as_buffer st @ concat (map snd cs) \<and>
    as_req st' = (as_req st)\<lparr>sr_seq := sr_seq (as_req st) + int (length ps)\<rparr> \<and> as_conn_lost st' = as_conn_lost st \<and>
    s' = (queue_packets w (ai_packets X (as_req st) (sv_wall s) (sr_seq (as_req st)) ps) s)\<lparr>sv_tick := tick\<rparr>"
  using assms
proof (induction X cs st s rule: stream_chunks.induct)
  case (1 X st s)
  then show ?case by (intro exI [of _ "[]"] exI [of _ "sv_tick s"]) auto
next
  case (2 X t c cs st s)
  obtain st1 s1 where chunk: "on_chunk X c st (s\<lparr>sv_tick := t\<rparr>) = (st1, s1)" by fastforce
  obtain ps where ps: "[] \<notin> set ps" "concat ps @ as_buffer st1 = as_buffer st @ c"
    "as_req st1 = (as_req st)\<lparr>sr_seq := sr_seq (as_req st) + int (length ps)\<rparr>" "as_conn_lost st1 = as_conn_lost st"
    "s1 = queue_packets w (ai_packets X (as_req st) (sv_wall s) (sr_seq (as_req st)) ps) (s\<lparr>sv_tick := t\<rparr>)"
    using on_chunk_run [of "s\<lparr>sv_tick := t\<rparr>" st w X c] "2.prems"(1,2) chunk by auto
  have s1: "cc_owner_worker (ctx_of s1 (sr_ctx (as_req st1))) = Some w" "0 \<le> cc_fd (ctx_of s1 (sr_ctx (as_req st1)))"
    using "2.prems"(1,2) by (simp_all add: ps(3,5))
  have "stream_chunks X cs st1 s1 = (st', s')" using "2.prems"(3) chunk by simp
  from "2.IH" [OF chunk [symmetric] s1 this] obtain qs tick where qs: "[] \<notin> set qs"
    "concat qs @ as_buffer st' = as_buffer st1 @ concat (map snd cs)"
    "as_req st' = (as_req st1)\<lparr>sr_seq := sr_seq (as_req st1) + int (length qs)\<rparr>" "as_conn_lost st' = as_conn_lost st1"
    "s' = (queue_packets w (ai_packets X (as_req st1) (sv_wall s1) (sr_seq (as_req st1)) qs) s1)\<lparr>sv_tick := tick\<rparr>"
    by blast
  have "concat (ps @ qs) @ as_buffer st' = as_buffer st @ concat (map snd ((t, c) # cs))"
    using qs(2) ps(2) by (metis append.assoc concat.simps(2) concat_append list.simps(9) snd_conv)
  moreover have "s' = (queue_packets w (ai_packets X (as_req st) (sv_wall s) (sr_seq (as_req st)) (ps @ qs)) s)\<lparr>sv_tick := tick\<rparr>"
    by (simp add: qs(5) ps(3,5) ai_packets_append queue_packets_def upd_worker_def)
  ultimately show ?case using ps(1,3,4) qs(1,3,4) by (intro exI [of _ "ps @ qs"] exI [of _ tick]) auto
qed

text \<open>The packets of an answer whose chunks arrive while the client stays connected.\<close>

lemma stream_parts:
  assumes "sr_seq req = 0" "cc_owner_worker (ctx_of s (sr_ctx req)) = Some w" "0 \<le> cc_fd (ctx_of s (sr_ctx req))"
    and "stream_start req s = (Some st, s0)" "stream_chunks X cs st s0 = (st', s1)" "stream_end X True st' s1 = s2"
  shows "\<exists>parts final. concat parts @ final = concat (map snd cs) \<and> [] \<notin> set parts \<and>
    w_pending (sv_worker s2 w) = w_pending (sv_worker s w) @ ai_packets X req (sv_wall s) 0 parts @
      [ai_packet X req (sv_wall s) True (int (length parts)) final]"
proof -
  have st: "st = \<lparr>as_req = req, as_buffer = [], as_last_flush = sv_tick s, as_conn_lost = False\<rparr>" "s0 = s"
    using assms(3,4) by (auto simp: stream_start_def)
  obtain ps tick where ps: "[] \<notin> set ps" "concat ps @ as_buffer st' = concat (map snd cs)"
    "as_req st' = req\<lparr>sr_seq := int (length ps)\<rparr>"
    "s1 = (queue_packets w (ai_packets X req (sv_wall s) 0 ps) s)\<lparr>sv_tick := tick\<rparr>"
    using stream_chunks_run [of s0 st w X cs st' s1] assms(1,2,3,5) by (auto simp: st)
  have own: "cc_owner_worker (ctx_of s1 (sr_ctx (as_req st'))) = Some w" "0 \<le> cc_fd (ctx_of s1 (sr_ctx (as_req st')))"
    using assms(2,3) by (simp_all add: ps(3,4))
  have "w_pending (sv_worker s2 w) = w_pending (sv_worker s1 w) @ [ai_packet X req (sv_wall s) True (int (length ps)) (as_buffer st')]"
    using own assms(6) [symmetric] by (simp add: stream_end_def stream_finish_def on_complete_def send_next_run erase_stream_def Let_def ps(3,4))
  then show ?thesis using ps by (intro exI [of _ ps] exI [of _ "as_buffer st'"]) simp
qed

text \<open>The chunk callback as \<open>stream_chat\<close> calls it, and the whole request as the sequence of its parts.\<close>

lemma fold_on_chunk:
  "fold (\<lambda>(t, c). \<lambda>(st, s). on_chunk X c st (s\<lparr>sv_tick := t\<rparr>)) timed (st, s) = stream_chunks X timed st s"
  by (induction X timed st s rule: stream_chunks.induct) (auto split: prod.split)

lemma process_stream_parts:
  assumes "stream_start req s = (Some st, s0)" "perform (AI_BASE_URL (sv_env s) @ ''/v1/chat/completions'') (c_str (request_body (sr_prompt req))) = (pieces, ok)"
  shows "\<exists>timed. map snd timed = fst (write_loop J (concat (map snd pieces))) \<and>
    process_stream_request X J True perform req s =
      (case stream_chunks X timed st s0 of (st', s1) \<Rightarrow> stream_end X ok st' s1)"
proof -
  have "read_line J [] = NeedMore" by (simp add: read_line_def)
  from write_pieces [OF this, of pieces "\<lambda>t c (st, s). on_chunk X c st (s\<lparr>sv_tick := t\<rparr>)" "(st, s0)"]
  obtain timed where timed: "map snd timed = fst (write_loop J (concat (map snd pieces)))"
    "snd (fold (stream_write_cb J (\<lambda>t c (st, s). on_chunk X c st (s\<lparr>sv_tick := t\<rparr>))) pieces ([], st, s0)) = stream_chunks X timed st s0"
    by (auto simp: fold_on_chunk)
  have "process_stream_request X J True perform req s =
      (case stream_chunks X timed st s0 of (st', s1) \<Rightarrow> stream_end X ok st' s1)"
    by (simp add: process_stream_request_def assms stream_chat_def timed(2) stream_end_def Let_def split: prod.split)
  with timed(1) show ?thesis by blast
qed

text \<open>
  C18. An answer arrives whole: however the network cuts the bytes of the AI service and whenever they come, the texts
  of its \<open>data:\<close> lines end up in packets queued for the client, if it stays connected. The packets are not empty, carry
  the numbers 0, 1, 2 and so on, and put together they are the answer; exactly the last one, which closes the answer and
  alone may be empty, is marked as the last.
\<close>

theorem answer_streams_through:
  assumes "sr_seq req = 0" "cc_owner_worker (ctx_of s (sr_ctx req)) = Some w" "0 \<le> cc_fd (ctx_of s (sr_ctx req))"
    and "perform (AI_BASE_URL (sv_env s) @ ''/v1/chat/completions'') (c_str (request_body (sr_prompt req))) = (pieces, True)"
    and "concat (map snd pieces) = sse_lines ls partial"
    and "\<forall>l \<in> set ls. CHR 0x0A \<notin> set l" "CHR 0x0A \<notin> set partial"
  shows "\<exists>parts final. concat parts @ final = concat (List.map_filter (stream_line J) ls) \<and> [] \<notin> set parts \<and>
    w_pending (sv_worker (process_stream_request X J True perform req s) w) =
      w_pending (sv_worker s w) @ ai_packets X req (sv_wall s) 0 parts @
      [ai_packet X req (sv_wall s) True (int (length parts)) final]"
proof -
  obtain st where start: "stream_start req s = (Some st, s)" using assms(3) by (simp add: stream_start_def)
  from process_stream_parts [where J = J and X = X and perform = perform, OF start assms(4)] obtain timed where
    timed: "map snd timed = List.map_filter (stream_line J) ls"
      "process_stream_request X J True perform req s =
        (case stream_chunks X timed st s of (st', s1) \<Rightarrow> stream_end X True st' s1)"
    using write_loop_lines [OF assms(6,7), of J] assms(5) by auto
  obtain st' s1 where "stream_chunks X timed st s = (st', s1)" by (cases "stream_chunks X timed st s")
  with stream_parts [OF assms(1-3) start this refl] timed show ?thesis by simp
qed

text \<open>A JSON library in which every text is the content of an event.\<close>

definition sj_ref :: "string stream_json" where
  "sj_ref = \<lparr>sj_parse = Some, sj_contains = (\<lambda>j k. True), sj_member = (\<lambda>j k. Some j), sj_idx = (\<lambda>j n. Some j),
     sj_is_array = (\<lambda>j. True), sj_empty = (\<lambda>j. False), sj_is_null = (\<lambda>j. False), sj_get_string = Some\<rparr>"

definition demo_req :: StreamRequest where
  "demo_req = \<lparr>sr_uid = 0, sr_prompt = ''hello'', sr_ctx = 0, sr_timestamp = 5000, sr_seq = 0\<rparr>"

definition demo_answer :: "(int \<times> string) list" where
  "demo_answer = [(5000, ''data: Hi''), (5100, CHR 0x0A # ''data: the''), (5200, ''re'' @ CHR 0x0A # ''data: [DONE]'' @ [CHR 0x0A])]"

theorem answer_streams_through_witness:
  "\<exists>parts final. concat parts @ final = ''Hithere'' \<and> [] \<notin> set parts \<and>
     w_pending (sv_worker (process_stream_request externals_ref sj_ref True (\<lambda>url body. (demo_answer, True)) demo_req demo_one) 0) =
       ai_packets externals_ref demo_req 0 0 parts @ [ai_packet externals_ref demo_req 0 True (int (length parts)) final]"
  using answer_streams_through [of demo_req demo_one 0 "\<lambda>url body. (demo_answer, True)" demo_answer
      "[''data: Hi'', ''data: there'', ''data: [DONE]'']" "[]" sj_ref externals_ref]
  by (simp add: demo_req_def demo_one_eval new_ClientContext_def demo_answer_def sse_lines_def List.map_filter_simps
      stream_line_def parse_stream_chunk_def delta_content_def non_null_def get_text_def data_line_def sj_ref_def)

section \<open>Without the AI service\<close>

lemma send_fallback_run:
  assumes "cc_owner_worker (ctx_of s (sr_ctx (as_req st))) = Some w" "0 \<le> cc_fd (ctx_of s (sr_ctx (as_req st)))" "msg \<noteq> []"
  shows "\<exists>parts final. concat parts @ final = msg \<and> (\<forall>p \<in> set parts. length p = 15) \<and> final \<noteq> [] \<and> length final \<le> 15 \<and>
    sr_ctx (as_req (fst (send_fallback X msg st s))) = sr_ctx (as_req st) \<and>
    snd (send_fallback X msg st s) = queue_packets w (ai_packets X (as_req st) (sv_wall s) (sr_seq (as_req st)) parts @
      [ai_packet X (as_req st) (sv_wall s) True (sr_seq (as_req st) + int (length parts)) final]) s"
  using assms
proof (induction X msg st s rule: send_fallback.induct)
  case (1 X msg st s)
  let ?st1 = "st\<lparr>as_req := (as_req st)\<lparr>sr_seq := sr_seq (as_req st) + 1\<rparr>\<rparr>"
  let ?s1 = "queue_packets w [ai_packet X (as_req st) (sv_wall s) (length msg \<le> 15) (sr_seq (as_req st)) (take 15 msg)] s"
  have piece: "(if cc_fd (ctx_of s (sr_ctx (as_req st))) \<ge> 0
      then send_next X st (take 15 msg) (length msg \<le> 15) s else (st, s)) = (?st1, ?s1)"
    using "1.prems" by (simp add: send_next_run)
  then have unfold: "send_fallback X msg st s = send_fallback X (drop 15 msg) ?st1 ?s1"
    using "1.prems"(3) by (subst send_fallback.simps) simp
  show ?case
  proof (cases "length msg \<le> 15")
    case True
    then have "send_fallback X msg st s = (?st1, ?s1)" unfolding unfold by (subst send_fallback.simps) simp
    with True "1.prems"(3) show ?thesis by (intro exI [of _ "[]"] exI [of _ msg]) simp
  next
    case False
    with "1.prems" have "cc_owner_worker (ctx_of ?s1 (sr_ctx (as_req ?st1))) = Some w" "0 \<le> cc_fd (ctx_of ?s1 (sr_ctx (as_req ?st1)))"
      "drop 15 msg \<noteq> []" by simp_all
    from "1.IH" [OF "1.prems"(3) piece [symmetric] this] obtain parts final where rest:
      "concat parts @ final = drop 15 msg" "\<forall>p \<in> set parts. length p = 15" "final \<noteq> []" "length final \<le> 15"
      "sr_ctx (as_req (fst (send_fallback X (drop 15 msg) ?st1 ?s1))) = sr_ctx (as_req st)"
      "snd (send_fallback X (drop 15 msg) ?st1 ?s1) =
        queue_packets w (ai_packets X (as_req st) (sv_wall s) (sr_seq (as_req st) + 1) parts @
          [ai_packet X (as_req st) (sv_wall s) True (sr_seq (as_req st) + 1 + int (length parts)) final]) ?s1"
      by auto
    have "concat (take 15 msg # parts) @ final = msg" using rest(1) by simp
    moreover have "snd (send_fallback X msg st s) =
        queue_packets w (ai_packets X (as_req st) (sv_wall s) (sr_seq (as_req st)) (take 15 msg # parts) @
          [ai_packet X (as_req st) (sv_wall s) True (sr_seq (as_req st) + int (length (take 15 msg # parts))) final]) s"
      unfolding unfold rest(6) using False by (simp add: queue_packets_def upd_worker_def algebra_simps)
    ultimately show ?thesis using rest(2-5) False
      by (intro exI [of _ "take 15 msg # parts"] exI [of _ final]) (simp add: unfold)
  qed
qed

lemma fallback_not_Nil: "generate_fallback_response X wall prompt \<noteq> []"
  by (simp add: generate_fallback_response_def Let_def fb_hello_def fb_help_def fb_now_def fb_weather_def fb_who_def fb_short_def
      fb_echo_def)

text \<open>
  C27. Nobody is left without an answer: when the transfer from the AI service fails, after whatever part of an answer, a client that
  stays connected gets the built-in answer to its prompt, whole, in packets of at most 15 bytes that continue the
  numbering, the last of which closes the answer.
\<close>

theorem fallback_answers:
  assumes "sr_seq req = 0" "cc_owner_worker (ctx_of s (sr_ctx req)) = Some w" "0 \<le> cc_fd (ctx_of s (sr_ctx req))"
    and "perform (AI_BASE_URL (sv_env s) @ ''/v1/chat/completions'') (c_str (request_body (sr_prompt req))) = (pieces, False)"
  shows "\<exists>sent unsent parts final.
    concat sent @ unsent = concat (fst (write_loop J (concat (map snd pieces)))) \<and> [] \<notin> set sent \<and>
    concat parts @ final = generate_fallback_response X (sv_wall s) (sr_prompt req) \<and>
    (\<forall>p \<in> set parts. length p = 15) \<and> final \<noteq> [] \<and> length final \<le> 15 \<and>
    w_pending (sv_worker (process_stream_request X J True perform req s) w) = w_pending (sv_worker s w) @
      ai_packets X req (sv_wall s) 0 (sent @ parts) @
      [ai_packet X req (sv_wall s) True (int (length (sent @ parts))) final]"
proof -
  obtain st where start: "stream_start req s = (Some st, s)" and
    st: "as_req st = req" "as_buffer st = []" "as_conn_lost st = False" using assms(3) by (simp add: stream_start_def)
  from process_stream_parts [where J = J and X = X and perform = perform, OF start assms(4)] obtain timed where
    timed: "map snd timed = fst (write_loop J (concat (map snd pieces)))"
      "process_stream_request X J True perform req s =
        (case stream_chunks X timed st s of (st', s1) \<Rightarrow> stream_end X False st' s1)" by blast
  obtain st' s1 where chunks: "stream_chunks X timed st s = (st', s1)" by (cases "stream_chunks X timed st s")
  from stream_chunks_run [of s st w X timed st' s1] assms(1-3) chunks obtain sent tick where sent:
    "concat sent @ as_buffer st' = concat (map snd timed)" "as_req st' = req\<lparr>sr_seq := int (length sent)\<rparr>" "\<not> as_conn_lost st'" "[] \<notin> set sent"
    "s1 = (queue_packets w (ai_packets X req (sv_wall s) 0 sent) s)\<lparr>sv_tick := tick\<rparr>" by (auto simp: st)
  have own: "cc_owner_worker (ctx_of s1 (sr_ctx (as_req st'))) = Some w" "0 \<le> cc_fd (ctx_of s1 (sr_ctx (as_req st')))"
    using assms(2,3) by (simp_all add: sent)
  let ?text = "generate_fallback_response X (sv_wall s) (sr_prompt req)"
  from send_fallback_run [where X = X, OF own fallback_not_Nil [of X "sv_wall s" "sr_prompt req"]] obtain parts final where fb:
    "concat parts @ final = ?text" "\<forall>p \<in> set parts. length p = 15" "final \<noteq> []" "length final \<le> 15"
    "snd (send_fallback X ?text st' s1) = queue_packets w (ai_packets X req (sv_wall s) (int (length sent)) parts @
      [ai_packet X req (sv_wall s) True (int (length sent) + int (length parts)) final]) s1"
    by (auto simp: sent)
  have "w_pending (sv_worker (process_stream_request X J True perform req s) w) =
      w_pending (sv_worker (snd (send_fallback X ?text st' s1)) w)"
    by (simp add: timed(2) chunks stream_end_def stream_finish_def sent(2,3) case_prod_unfold erase_stream_def Let_def)
      (simp add: sent(5))
  also have "\<dots> = w_pending (sv_worker s w) @ ai_packets X req (sv_wall s) 0 (sent @ parts) @
      [ai_packet X req (sv_wall s) True (int (length (sent @ parts))) final]"
    unfolding fb(5) by (simp add: sent(5) ai_packets_append)
  finally show ?thesis using fb(1-4) sent(1,4) timed(1) by (intro exI conjI) auto
qed

lemma demo_fallback: "generate_fallback_response externals_ref wall ''hello'' = fb_hello"
  by (simp add: generate_fallback_response_def tolower_def)

theorem fallback_answers_witness:
  "\<exists>parts final. concat parts @ final = fb_hello \<and> final \<noteq> [] \<and>
     w_pending (sv_worker (process_stream_request externals_ref sj_ref True (\<lambda>url body. ([], False)) demo_req demo_one) 0) =
       ai_packets externals_ref demo_req 0 0 parts @ [ai_packet externals_ref demo_req 0 True (int (length parts)) final]"
proof -
  have none: "write_loop sj_ref [] = ([], [], True)" by (simp add: write_loop.simps read_line_def)
  have demo: "sr_seq demo_req = 0" "cc_owner_worker (ctx_of demo_one (sr_ctx demo_req)) = Some 0"
    "0 \<le> cc_fd (ctx_of demo_one (sr_ctx demo_req))" "sr_prompt demo_req = ''hello''"
    "w_pending (sv_worker demo_one 0) = []" "sv_wall demo_one = 0"
    by (simp_all add: demo_req_def demo_one_eval new_ClientContext_def)
  note answers = fallback_answers [OF demo(1-3), of "\<lambda>url body. ([], False)" "[]" sj_ref externals_ref]
  from answers obtain sent unsent parts final where
    "\<forall>xs \<in> set sent. xs = []" "[] \<notin> set sent" "concat parts @ final = fb_hello" "final \<noteq> []"
    "w_pending (sv_worker (process_stream_request externals_ref sj_ref True (\<lambda>url body. ([], False)) demo_req demo_one) 0) =
       ai_packets externals_ref demo_req 0 0 (sent @ parts) @
       [ai_packet externals_ref demo_req 0 True (int (length (sent @ parts))) final]"
    by (auto simp: demo none demo_fallback)
  moreover from this(1,2) have "sent = []" by (cases sent) auto
  ultimately show ?thesis by (intro exI [of _ parts] exI [of _ final]) simp
qed

section \<open>How many answers are in progress\<close>

definition ai_ok :: "('t, 'm) server \<Rightarrow> bool" where
  "ai_ok s \<longleftrightarrow> length (active_streams (sv_ai s)) \<le> max_concurrent (sv_ai s) \<and> distinct (map fst (active_streams (sv_ai s))) \<and>
     length (pending_requests (sv_ai s)) \<le> 1001"

lemma ai_ok_same: "sv_ai s' = sv_ai s \<Longrightarrow> ai_ok s' = ai_ok s"
  by (simp add: ai_ok_def)

text \<open>Taking requests out of the list of active ones keeps the bounds.\<close>

lemma ai_ok_fewer:
  assumes "ai_ok s" "sv_ai s' = (sv_ai s)\<lparr>active_streams := filter P (active_streams (sv_ai s))\<rparr>"
  shows "ai_ok s'"
  using assms le_trans [OF length_filter_le] by (auto simp: ai_ok_def distinct_map_filter)

lemma ai_ok_erase: "ai_ok s \<Longrightarrow> ai_ok (erase_stream r s)"
  by (auto simp: erase_stream_def Let_def AList.delete_eq intro!: ai_ok_fewer [of s])

subsection \<open>What the rest of the server does to the AI manager\<close>

text \<open>
  What the AI manager works on: its own state, the answers in progress and the requests among the pool's tasks. The rest of
  the server changes it in two ways only: closing a connection cancels its user's requests, and a chat packet may add a request.
  A property that stands both of these stands every event but the manager's own.
\<close>

definition is_stream :: "task \<Rightarrow> bool" where
  "is_stream t = (case t of TaskStream q \<Rightarrow> True | TaskBusiness r hdr body \<Rightarrow> False)"

definition ai_view :: "('t, 'm) server \<Rightarrow> ai_manager \<times> ai_stream list \<times> task list" where
  "ai_view s = (sv_ai s, sv_streams s, filter is_stream (tasks (sv_pool s)))"

lemma ai_view_upd [simp]:
  "ai_view (upd_worker w f s) = ai_view s" "ai_view (upd_ctx r g s) = ai_view s" "ai_view (s\<lparr>sv_open := fds\<rparr>) = ai_view s"
  "ai_view (s\<lparr>sv_conn_count := k\<rparr>) = ai_view s" "ai_view (s\<lparr>sv_heap := h\<rparr>) = ai_view s" "ai_view (s\<lparr>sv_db := db\<rparr>) = ai_view s"
  "ai_view (s\<lparr>sv_sessions := b\<rparr>) = ai_view s" "ai_view (s\<lparr>sv_tick := t, sv_wall := v\<rparr>) = ai_view s"
  by (simp_all add: ai_view_def)

lemma ai_view_frame [simp]:
  "ai_view (queue_in_loop w fn s) = ai_view s" "ai_view (update_event w fd evs s) = ai_view s"
  "ai_view (queue_close_connection w fd s) = ai_view s" "ai_view (queue_send_packet w r c n b s) = ai_view s"
  "ai_view (send w conn bytes s) = ai_view s" "ai_view (send_packet_in_loop w r cm n b s) = ai_view s"
  "ai_view (cancel_heartbeat_timer w fd s) = ai_view s" "ai_view (start_heartbeat_timer w fd s) = ai_view s"
  "ai_view (destroy_TcpConnection conn s) = ai_view s" "ai_view (add_connection_in_loop w fd ip port s) = ai_view s"
  "ai_view (enqueue_task (TaskBusiness r hdr body) s) = ai_view s" "ai_view (remove_event w fd s) = ai_view s"
  "ai_view (release_ctx w r s) = ai_view s" "ai_view (swap_functors w s) = ai_view s"
  by (auto simp: ai_view_def queue_in_loop_def update_event_def queue_close_connection_def queue_send_packet_def send_def
      send_packet_in_loop_def cancel_heartbeat_timer_def start_heartbeat_timer_def destroy_TcpConnection_def add_connection_in_loop_def
      new_TcpConnection_def conn_start_def enqueue_task_def enqueue_def is_stream_def remove_event_def release_ctx_def swap_functors_def
      Let_def split: option.split prod.split)

lemma ai_view_close:
  "ai_view (force_close_in_loop w fd s) = ai_view s \<or> (\<exists>uid > 0. ai_view (force_close_in_loop w fd s) = ai_view (cancel_request uid s))"
proof -
  have cancel: "ai_view (cancel_request uid u) = ai_view (cancel_request uid s)" if "ai_view u = ai_view s" for uid and u :: "('a, 'b) server"
    using that by (simp add: ai_view_def cancel_request_def)
  have "ai_view (close_impl w c u) = ai_view s \<or> (\<exists>uid > 0. ai_view (close_impl w c u) = ai_view (cancel_request uid s))"
    if "ai_view u = ai_view s" for c and u :: "('a, 'b) server"
    using that cancel [of "remove_event w (tc_fd c) u"] by (auto simp: close_impl_def Let_def)
  then show ?thesis by (auto simp: force_close_in_loop_def do_force_close_def split: option.split)
qed

lemma ai_view_fold_enqueue: "ai_view (fold (\<lambda>(hdr, body). enqueue_task (TaskBusiness r hdr body)) ps s) = ai_view s"
  by (induction ps arbitrary: s) auto

locale ai_property =
  fixes I :: "('t, 'm) server \<Rightarrow> bool"
  assumes view: "I s \<Longrightarrow> ai_view s' = ai_view s \<Longrightarrow> I s'"
    and cancel: "I s \<Longrightarrow> 0 < uid \<Longrightarrow> I (cancel_request uid s)"
    and submit: "I s \<Longrightarrow> I (snd (submit_stream_request uid prompt r s))"
begin

lemma close: "I s \<Longrightarrow> I (force_close_in_loop w fd s)"
  using ai_view_close [of w fd s] view cancel by blast

lemma upd: "I s \<Longrightarrow> I (upd_worker w f s)" "I s \<Longrightarrow> I (upd_ctx r g s)"
  by (auto elim!: view)

lemma write_event: "I s \<Longrightarrow> I (handle_write w c ws s)"
proof (induction w c ws s rule: handle_write.induct)
  case (1 w c ws s)
  have "I (update_event w fd evs s)" if "I s" for fd evs s using that by (rule view) simp
  then show ?case using 1
    by (subst handle_write.simps) (auto simp: close upd split: list.split write_result.split)
qed

lemma read_event: "I s \<Longrightarrow> I (snd (read_socket w c rs s))"
proof (induction w c rs s rule: read_socket.induct)
  case (4 w c d rs s)
  have "I (start_heartbeat_timer w fd s)" if "I s" for fd s using that by (rule view) simp
  with 4 show ?case by (auto simp: close upd)
qed (auto simp: close)

lemma packets: "I s \<Longrightarrow> I (take_packets w c s)"
proof -
  assume I: "I s"
  obtain ps rest go_on where run: "read_packets (cc_recv_buf (ctx_of s (tc_ctx c))) = (ps, rest, go_on)"
    by (cases "read_packets (cc_recv_buf (ctx_of s (tc_ctx c)))") auto
  have "I (fold (\<lambda>(hdr, body). enqueue_task (TaskBusiness (tc_ctx c) hdr body)) ps (upd_ctx (tc_ctx c) (\<lambda>x. x\<lparr>cc_recv_buf := rest\<rparr>) s))"
    using I by (rule view) (simp add: ai_view_fold_enqueue)
  then show ?thesis by (simp add: take_packets_def run Let_def close)
qed

lemma events: "I s \<Longrightarrow> I (snd (handle_events w fd revents rs ws s))"
proof -
  have "I (handle_read w c rs s)" if "I s" for c s
    using read_event [OF that, of w c rs] by (auto simp: handle_read_def packets split: prod.split)
  then show "I s \<Longrightarrow> ?thesis" by (auto simp: handle_events_def run_seqP close write_event split: option.split)
qed

lemma functors: "I s \<Longrightarrow> I (run_next_functor w s)"
proof -
  have "I (run_functor w fn s)" if "I s" for fn s
    using that by (cases fn) (auto simp: close elim!: view)
  then show "I s \<Longrightarrow> ?thesis" by (simp add: run_next_functor_def upd split: list.split)
qed

lemma timers: "I s \<Longrightarrow> I (snd (check_timer w s))"
  by (auto simp: check_timer_def close upd split: option.split)

lemma frame_keeps: "(\<And>s. ai_view (snd (m s)) = ai_view s) \<Longrightarrow> keeps I m"
  using view by (auto simp: keeps_def)

lemma keeps_storage: "keeps I (with_db m)"
  by (rule frame_keeps) (auto simp: with_db_def split: option.split prod.split)

lemma keeps_business: "keeps I (process_business X r hdr body)"
proof -
  have base: "keeps I (send_to q c n b)" "keeps I (bind uid q)" "keeps I (rate_limited q)" for q c n b uid
    by (rule frame_keeps; auto simp: send_to_def bind_def rate_limited_def run_seqP split: option.split)+
  have "keeps I (\<lambda>s. case submit_stream_request uid p q s of (ok, s') \<Rightarrow> (Val ok, s'))" for uid p q
    using submit by (auto simp: keeps_def case_prod_unfold)
  note base = base this keeps_storage
  show ?thesis
    unfolding process_business_def business_error_def handle_command_def handler_defs reply_defs by (intro keeps_intros base)
qed

text \<open>Every event but those of the manager.\<close>

lemma exec_event:
  assumes "I s"
    and "e = Schedule \<Longrightarrow> I (schedule_requests X s)"
    and "\<And>i c. e = StreamChunk i c \<Longrightarrow> I (stream_chunk_step X i c s)"
    and "\<And>i ok. e = StreamEnd i ok \<Longrightarrow> I (stream_end_step X i ok s)"
    and "\<And>req p. e = RunTask \<Longrightarrow> take_task (sv_pool s) = Some (TaskStream req, p) \<Longrightarrow> I (snd (run_task X s))"
  shows "I (snd (exec X e s))"
proof (cases e)
  case (Accept w fd ip port)
  then show ?thesis using assms(1) by (auto simp: queue_add_connection_def elim!: view)
next
  case (SwapFunctors w)
  then show ?thesis using assms(1) by (auto elim!: view)
next
  case RunTask
  show ?thesis
  proof (cases "tasks (sv_pool s)")
    case Nil
    then show ?thesis using RunTask assms(1) by (simp add: run_task_def take_task_Nil)
  next
    case (Cons t ts)
    show ?thesis
    proof (cases t)
      case (TaskBusiness r hdr body)
      have "I (s\<lparr>sv_pool := (sv_pool s)\<lparr>tasks := ts\<rparr>\<rparr>)"
        using assms(1) by (rule view) (simp add: ai_view_def Cons TaskBusiness is_stream_def)
      from keepsD [OF keeps_thread [OF keeps_business] this] show ?thesis
        by (simp add: RunTask run_task_def take_task_Cons [OF Cons] TaskBusiness)
    next
      case (TaskStream req)
      then show ?thesis using assms(5) RunTask take_task_Cons [OF Cons] by simp
    qed
  qed
next
  case DbRound
  have "keeps I (db_round X)" unfolding db_round_def has_db_def by (intro keeps_intros keeps_storage)
  from keepsD [OF this assms(1)] show ?thesis by (simp add: DbRound)
next
  case (Tick ms wall)
  then show ?thesis using assms(1) by (auto elim!: view)
qed (use assms in \<open>simp_all add: events timers functors\<close>)

end

subsection \<open>The bounds\<close>

interpretation bounds: ai_property ai_ok
proof (unfold_locales, goal_cases)
  case (1 s s')
  then show ?case by (simp add: ai_ok_def ai_view_def)
next
  case (2 s uid)
  then show ?case by (auto simp: cancel_request_def intro!: ai_ok_fewer [of s])
next
  case (3 s uid prompt r)
  then show ?case by (auto simp: submit_stream_request_def ai_ok_def Let_def)
qed

lemma sv_ai_frame [simp]:
  "sv_ai (queue_in_loop w fn s) = sv_ai s" "sv_ai (enqueue_task t s) = sv_ai s" "sv_ai (queue_send_packet w r c n b s) = sv_ai s"
  "sv_ai (send_stream_chunk X uid r chunk f l i s) = sv_ai s" "sv_ai (snd (send_next X st chunk l s)) = sv_ai s"
  by (auto simp: queue_in_loop_def enqueue_task_def queue_send_packet_def send_stream_chunk_def send_next_def Let_def split: option.split)

lemma ai_ok_fields [simp]:
  "ai_ok (s\<lparr>sv_streams := x\<rparr>) = ai_ok s" "ai_ok (s\<lparr>sv_pool := p\<rparr>) = ai_ok s"
  by (simp_all add: ai_ok_def)

lemma ai_ok_stream_task:
  assumes "ai_ok s" "take_task (sv_pool s) = Some (TaskStream req, p)"
  shows "ai_ok (snd (run_task X s))"
proof -
  have "ai_ok (snd (stream_start req (s\<lparr>sv_pool := p\<rparr>)))" using assms(1) by (simp add: stream_start_def ai_ok_erase)
  then show ?thesis using assms(2) by (auto simp: run_task_def split: prod.split option.split)
qed

lemma ai_ok_schedule: "ai_ok s \<Longrightarrow> ai_ok (schedule_requests X s)"
proof -
  assume ok: "ai_ok s"
  have len: "length (AList.update fd q xs) \<le> Suc (length xs)" for fd and q :: StreamRequest and xs
    by (induction xs) auto
  show ?thesis
  proof (cases "pending_requests (sv_ai s)")
    case Nil
    then show ?thesis using ok by (simp add: schedule_requests_def)
  next
    case (Cons req rest)
    then show ?thesis using ok len [of "cc_fd (ctx_of s (sr_ctx req))" req "active_streams (sv_ai s)"]
      by (auto simp: schedule_requests_def send_error_response_def Let_def ai_ok_def distinct_update)
  qed
qed

lemma sv_ai_stream: "sv_ai (snd (on_chunk X c st s)) = sv_ai s" "sv_ai (snd (on_complete X st s)) = sv_ai s"
  by (auto simp: on_chunk_def on_complete_def Let_def split: prod.split) (metis sv_ai_frame(5) snd_conv)+

lemma sv_ai_fallback: "sv_ai (snd (send_fallback X msg st s)) = sv_ai s"
proof (induction X msg st s rule: send_fallback.induct)
  case (1 X msg st s)
  show ?case
  proof (cases "msg = []")
    case False
    obtain st1 s1 where next1: "(if cc_fd (ctx_of s (sr_ctx (as_req st))) \<ge> 0
        then send_next X st (take 15 msg) (length msg \<le> 15) s else (st, s)) = (st1, s1)" by fastforce
    have "sv_ai (snd (if cc_fd (ctx_of s (sr_ctx (as_req st))) \<ge> 0
        then send_next X st (take 15 msg) (length msg \<le> 15) s else (st, s))) = sv_ai s" by simp
    then have "sv_ai s1 = sv_ai s" unfolding next1 by simp
    with "1.IH" [OF False next1 [symmetric]] show ?thesis
      using False next1 by (subst send_fallback.simps) (simp split: prod.split)
  qed (simp add: send_fallback.simps)
qed

lemma ai_ok_stream_end: "ai_ok s \<Longrightarrow> ai_ok (stream_end X ok st s)"
proof -
  assume inv: "ai_ok s"
  obtain st1 s1 where e1: "(if ok then on_complete X st s else (st, s)) = (st1, s1)" by fastforce
  have "sv_ai (snd (if ok then on_complete X st s else (st, s))) = sv_ai s" by (simp add: sv_ai_stream)
  then have a1: "sv_ai s1 = sv_ai s" unfolding e1 by simp
  obtain st2 s2 where e2: "(if \<not> ok \<and> \<not> as_conn_lost st1
      then send_fallback X (generate_fallback_response X (sv_wall s1) (sr_prompt (as_req st1))) st1 s1 else (st1, s1)) = (st2, s2)" by fastforce
  have "sv_ai (snd (if \<not> ok \<and> \<not> as_conn_lost st1
      then send_fallback X (generate_fallback_response X (sv_wall s1) (sr_prompt (as_req st1))) st1 s1 else (st1, s1))) = sv_ai s1"
    by (simp add: sv_ai_fallback)
  then have "sv_ai s2 = sv_ai s1" unfolding e2 by simp
  then have "ai_ok s2" using inv a1 by (simp add: ai_ok_def)
  then show ?thesis by (simp add: stream_end_def stream_finish_def e1 e2 ai_ok_erase del: if_split)
qed

lemma ai_ok_chunk:
  assumes "ai_ok s"
  shows "ai_ok (stream_chunk_step X i c s)"
proof -
  have "ai_ok (snd (on_chunk X c (sv_streams s ! i) s))" using assms by (simp add: ai_ok_def sv_ai_stream)
  then show ?thesis by (simp add: stream_chunk_step_def case_prod_unfold)
qed

lemma ai_ok_exec: "ai_ok s \<Longrightarrow> ai_ok (snd (exec X e s))"
  by (rule bounds.exec_event)
    (auto simp: stream_end_step_def Let_def ai_ok_chunk ai_ok_schedule ai_ok_stream_end intro: ai_ok_stream_task)

text \<open>
  C23. The limit on AI answers is kept: in every reachable state at most \<open>max_concurrent\<close> answers are marked as in progress,
  no two of them for the same descriptor, and at most 1001 requests wait.
\<close>

theorem ai_bounded:
  assumes "reach X s"
  shows "length (active_streams (sv_ai s)) \<le> max_concurrent (sv_ai s) \<and> distinct (map fst (active_streams (sv_ai s))) \<and>
    length (pending_requests (sv_ai s)) \<le> 1001"
proof -
  have "ai_ok s" using assms
  proof (induction rule: reach.induct)
    case (start s)
    then show ?case by (simp add: initial_def ai_ok_def)
  next
    case (step s e s')
    then show ?case using ai_ok_exec [OF step.IH, of X e] by simp
  qed
  then show ?thesis by (simp add: ai_ok_def)
qed

section \<open>A place that is never given back\<close>

text \<open>The reference externals with chat packets that go to the AI.\<close>

definition externals_ai :: "(json, json, unit) externals" where
  "externals_ai = externals_ref\<lparr>x_codec := codec_ref\<lparr>parse_ChatMessage :=
     (\<lambda>b. Some (new_ChatMessage\<lparr>cm_to_uid := 9999, cm_content := b\<rparr>))\<rparr>\<rparr>"

definition ask_packet :: string where
  "ask_packet = make_packet (cmd_code CHAT) 1 ''why''"

definition ask_hdr :: PacketHeader where
  "ask_hdr = \<lparr>magic = PROTO_MAGIC, body_len = 3, cmd = cmd_code CHAT, seq = 1\<rparr>"

lemma read_ask: "read_packets ask_packet = ([(ask_hdr, ''why'')], [], True)"
  using read_packets_wire [of "[(cmd_code CHAT, 1, ''why'')]"]
  by (simp add: wire_def received_def ask_packet_def ask_hdr_def)

lemma ask_packet_not_Nil [simp]: "ask_packet \<noteq> []"
  by (simp add: ask_packet_def)

text \<open>At the end of a stream whose connection is gone, nothing is sent and nothing is taken off the list.\<close>

lemma send_fallback_closed: "cc_fd (ctx_of s (sr_ctx (as_req st))) < 0 \<Longrightarrow> send_fallback X msg st s = (st, s)"
proof (induction "length msg" arbitrary: msg rule: less_induct)
  case less
  then show ?case by (cases "msg = []") (simp_all add: send_fallback.simps [of X msg] send_fallback.simps [of X "[]"])
qed

lemma stream_end_closed: "cc_fd (ctx_of s (sr_ctx (as_req st))) < 0 \<Longrightarrow> stream_end X ok st s = s"
  by (simp add: stream_end_def stream_finish_def on_complete_def send_fallback_closed erase_stream_def Let_def)

text \<open>All places are taken by requests of nobody, and no stream or task is left that would give one back.\<close>

definition stuck :: "(int \<times> StreamRequest) list \<Rightarrow> StreamRequest list \<Rightarrow> ('t, 'm) server \<Rightarrow> bool" where
  "stuck marks queued s \<longleftrightarrow> active_streams (sv_ai s) = marks \<and> max_concurrent (sv_ai s) \<le> length marks \<and>
     list_all (\<lambda>(fd, q). sr_uid q \<le> 0) marks \<and> sv_streams s = [] \<and> filter is_stream (tasks (sv_pool s)) = [] \<and>
     (\<exists>more. pending_requests (sv_ai s) = queued @ more)"

interpretation stuck: ai_property "stuck marks queued" for marks queued
proof (unfold_locales, goal_cases)
  case (1 s s')
  then show ?case by (simp add: stuck_def ai_view_def)
next
  case (2 s uid)
  then have "filter (\<lambda>(fd, q). sr_uid q \<noteq> uid) marks = marks" by (auto simp: stuck_def list_all_iff filter_id_conv)
  with 2 show ?case by (simp add: stuck_def cancel_request_def)
next
  case (3 s uid prompt r)
  then show ?case by (auto simp: submit_stream_request_def stuck_def Let_def)
qed

lemma stuck_exec:
  assumes "stuck marks queued s" "enabled e s"
  shows "stuck marks queued (snd (exec X e s))"
proof (rule stuck.exec_event [OF assms(1)])
  show "stuck marks queued (schedule_requests X s)"
    using assms(1) by (auto simp: stuck_def schedule_requests_def split: list.split)
  show "stuck marks queued (snd (run_task X s))" if "take_task (sv_pool s) = Some (TaskStream req, p)" for req p
    using that assms(1) by (cases "tasks (sv_pool s)") (auto simp: stuck_def take_task_Nil take_task_Cons is_stream_def)
qed (use assms in \<open>auto simp: stuck_def\<close>)

lemma stuck_runs: "runs X es s = Some s' \<Longrightarrow> stuck marks queued s \<Longrightarrow> stuck marks queued s'"
proof (induction es arbitrary: s)
  case (Cons e es)
  then obtain s1 where "enabled e s" "exec X e s = (Val (), s1)" "runs X es s1 = Some s'"
    by (auto split: if_splits prod.splits outcome.splits)
  with stuck_exec [OF Cons.prems(2), of e X] show ?case using Cons.IH [of s1] by simp
qed simp

text \<open>
  C33. Places for AI answers leak: let a client that is not logged in hang up while an answer to it is on its way. When that
  answer ends, the list of answers in progress is what it was, although the stream is over: \<open>cancel_request\<close> is only
  called for a user id above 0, and at its end the stream looks for its entry under the descriptor of the context, which is -1 by
  then. And once \<open>max_concurrent\<close> entries are left over like this, and no other answer is in progress, the AI answers
  nobody any more: whatever happens from then on, no entry is ever removed, no answer is ever started, and requests are only added
  to the queue.
\<close>

theorem anonymous_stream_leaks:
  assumes "reach X s" "conns s w fd = Some c" "tc_ctx c = r" "cc_uid (ctx_of s r) \<le> 0"
    and "i < length (sv_streams s)" "sr_ctx (as_req (sv_streams s ! i)) = r"
    and "s1 = stream_end_step X i ok (force_close_in_loop w fd s)"
  shows "active_streams (sv_ai s1) = active_streams (sv_ai s) \<and> sv_streams s1 = take i (sv_streams s) @ drop (Suc i) (sv_streams s) \<and>
    (max_concurrent (sv_ai s) \<le> length (active_streams (sv_ai s)) \<and> list_all (\<lambda>(fd, q). sr_uid q \<le> 0) (active_streams (sv_ai s)) \<and>
     sv_streams s1 = [] \<and> filter is_stream (tasks (sv_pool s1)) = [] \<and> runs X es s1 = Some s' \<longrightarrow>
       active_streams (sv_ai s') = active_streams (sv_ai s) \<and> sv_streams s' = [] \<and> filter is_stream (tasks (sv_pool s')) = [] \<and>
       (\<exists>more. pending_requests (sv_ai s') = pending_requests (sv_ai s) @ more))"
proof -
  let ?s0 = "force_close_in_loop w fd s"
  note cl = conn_invD [OF net_inv_conn [OF reach_net_inv [OF assms(1)]] assms(2)]
  note at = assms(2) cl(2,1) assms(3)
  have streams: "sv_streams ?s0 = sv_streams s"
    using ai_view_close [of w fd s] by (auto simp: ai_view_def cancel_request_def)
  have "cc_fd (ctx_of ?s0 r) = -1" using force_close_heap(2) [OF at, of r] by (simp add: ctx_reset_def)
  then have s1: "s1 = ?s0\<lparr>sv_streams := take i (sv_streams s) @ drop (Suc i) (sv_streams s)\<rparr>"
    using assms(6) streams by (simp add: assms(7) stream_end_step_def stream_end_closed Let_def)
  then have ai: "sv_ai s1 = sv_ai s" using force_close_sessions(2) [OF at] assms(4) by simp
  show ?thesis
    using ai s1 stuck_runs [of X es s1 s' "active_streams (sv_ai s)" "pending_requests (sv_ai s)"] by (auto simp: stuck_def)
qed

text \<open>
  A server with one place for an answer: the client on descriptor 5 asks the AI and hangs up, the one on
  descriptor 6 asks and is not answered.
\<close>

definition lone_env :: env where
  "lone_env = demo_env(''AI_MAX_CONCURRENT'' \<mapsto> ''1'')"

definition lone_one :: "(json, unit) server" where
  "lone_one = admit 0 5 (boot lone_env 0 5000 0 fresh_db)"

definition lone_asked :: "(json, unit) server" where
  "lone_asked = the (runs externals_ai [SocketEvent 0 5 EPOLLIN [RData ask_packet, RAgain] [], RunTask, Schedule, RunTask] lone_one)"

definition lone_later :: "event list" where
  "lone_later = [Accept 1 6 ''10.0.0.1'' 4000, SwapFunctors 1, RunFunctor 1, SocketEvent 1 6 EPOLLIN [RData ask_packet, RAgain] [], RunTask, Schedule]"

lemma lone_one_eval:
  "lone_one = demo_one\<lparr>sv_env := lone_env, sv_ai := \<lparr>pending_requests = [], active_streams = [], max_concurrent = 1\<rparr>\<rparr>"
  "HEARTBEAT_SEC lone_env = 60" "RATE_LIMIT_MSGS lone_env = 20" "RATE_LIMIT_WINDOW lone_env = 1"
proof -
  have n: "from_chars True INT_MIN INT_MAX ''1'' = (EcOk, 1, [])"
    by (simp add: from_chars_def is_digit_def dec_value_def digit_val_def INT_MIN_def INT_MAX_def)
  have settings: "WORKER_NUM 0 lone_env = 2" "POOL_SIZE lone_env = 1" "AI_MAX_CONCURRENT lone_env = 1"
    by (simp_all add: setting_defs lone_env_def demo_env_def demo_numbers n)
  show beat: "HEARTBEAT_SEC lone_env = 60" and "RATE_LIMIT_MSGS lone_env = 20" "RATE_LIMIT_WINDOW lone_env = 1"
    by (simp_all add: setting_defs lone_env_def demo_env_def)
  have boot: "boot lone_env 0 5000 0 fresh_db =
      demo_boot\<lparr>sv_env := lone_env, sv_ai := \<lparr>pending_requests = [], active_streams = [], max_concurrent = 1\<rparr>\<rparr>"
    by (simp add: demo_boot_eval boot_def new_StreamingAIManager_def settings numeral_2_eq_2 make_shared_def empty_heap_def size_of_int_def)
  show "lone_one = demo_one\<lparr>sv_env := lone_env, sv_ai := \<lparr>pending_requests = [], active_streams = [], max_concurrent = 1\<rparr>\<rparr>"
    by (simp add: lone_one_def boot beat admit_defs demo_one_eval demo_boot_eval new_worker_def new_timer_def upd_worker_def
        upd_ctx_def heap_upd_def update_time_def demo_conn_def)
qed

lemma reach_lone_one: "reach X lone_one"
  unfolding lone_one_def
  by (rule reach_admit [OF reach.start [OF boot_initial]])
    (use boot_initial [of lone_env 0 5000 0 fresh_db] in \<open>simp_all add: initial_def\<close>)

lemmas ask_defs = lone_one_eval demo_one_eval step_defs event_bits demo_conn_def new_ClientContext_def read_ask new_pool_def
  ask_hdr_def externals_ai_def handle_chat_def handle_ai_chat_def uid_of_def rate_limited_def rate_update_def
  submit_stream_request_def schedule_requests_def stream_start_def new_ChatMessage_def

lemma lone_asked_eval:
  "runs externals_ai [SocketEvent 0 5 EPOLLIN [RData ask_packet, RAgain] [], RunTask, Schedule, RunTask] lone_one = Some lone_asked"
  "conns lone_asked 0 5 = Some (demo_conn 5 0)" "cc_uid (ctx_of lone_asked 0) = 0" "map (\<lambda>st. sr_ctx (as_req st)) (sv_streams lone_asked) = [0]"
  "map (\<lambda>(fd, q). (fd, sr_uid q)) (active_streams (sv_ai lone_asked)) = [(5, 0)]" "max_concurrent (sv_ai lone_asked) = 1"
  "tasks (sv_pool lone_asked) = []" "pending_requests (sv_ai lone_asked) = []"
  by (simp_all add: lone_asked_def ask_defs)

theorem ai_bounded_witness:
  "max_concurrent (sv_ai lone_asked) = 1 \<and> active_streams (sv_ai lone_asked) \<noteq> [] \<and> length (active_streams (sv_ai lone_asked)) \<le> 1"
  using ai_bounded [OF reach_runs [OF lone_asked_eval(1) reach_lone_one]] lone_asked_eval(5,6) by auto

theorem anonymous_stream_leaks_witness:
  "let s1 = stream_end_step externals_ai 0 True (force_close_in_loop 0 5 lone_asked)
   in \<exists>s'. runs externals_ai lone_later s1 = Some s' \<and> map fst (active_streams (sv_ai s')) = [5] \<and> sv_streams s' = [] \<and>
     length (pending_requests (sv_ai s')) = 1"
proof -
  let ?s1 = "stream_end_step externals_ai 0 True (force_close_in_loop 0 5 lone_asked)"
  have "\<exists>s'. runs externals_ai lone_later ?s1 = Some s' \<and> length (pending_requests (sv_ai s')) = 1"
    and tasks: "filter is_stream (tasks (sv_pool ?s1)) = []"
    by (simp_all add: lone_later_def lone_asked_def ask_defs close_defs ctx_reset_def stream_end_step_def stream_end_def stream_finish_def
        on_complete_def erase_stream_def admit_defs new_worker_def new_timer_def)
  then obtain s' where s': "runs externals_ai lone_later ?s1 = Some s'" "length (pending_requests (sv_ai s')) = 1" by blast
  have len: "length (sv_streams lone_asked) = 1" using arg_cong [OF lone_asked_eval(4), of length] by simp
  have ctx: "sr_ctx (as_req (sv_streams lone_asked ! 0)) = tc_ctx (demo_conn 5 0)"
    using lone_asked_eval(4) len by (cases "sv_streams lone_asked") (auto simp: demo_conn_def)
  note leak = anonymous_stream_leaks [OF reach_runs [OF lone_asked_eval(1) reach_lone_one] lone_asked_eval(2) refl _ _ ctx refl,
      of True lone_later s']
  have "list_all (\<lambda>(fd, q). sr_uid q \<le> 0) (active_streams (sv_ai lone_asked))" "length (active_streams (sv_ai lone_asked)) = 1"
    "map fst (active_streams (sv_ai lone_asked)) = [5]"
    using lone_asked_eval(5) by auto
  then show ?thesis using leak s' tasks len lone_asked_eval(3,6) by (auto simp: Let_def demo_conn_def)
qed

end
