(* ===== verification/Client_Theorems.thy ===== *)
theory Client_Theorems
  imports Client Ai_Theorems
begin

text \<open>
  The command line client, alone and against the server: the two ends of the connection agree on
  the bytes between them, what the client shows of an AI answer, and what becomes of a failed login.
\<close>

section \<open>From the server to the client\<close>

lemma client_read_make_packet:
  assumes "length body < 4294967280"
  shows "client_packet (make_packet c s body @ rest) =
    Emit (\<lparr>magic = PROTO_MAGIC, body_len = of_nat (length body), cmd = c, seq = s\<rparr>, body) rest"
proof -
  have "unat (16 + of_nat (length body) :: u32) = 16 + length body"
    using assms by (simp add: unat_of_nat unat_word_ariths)
  then show ?thesis by (simp add: client_packet_def make_packet_def sizeof_PacketHeader_def Let_def)
qed

lemma client_packets_wire:
  assumes "\<forall>(c, s, body) \<in> set ps. length body < 4294967280"
  shows "client_packets (wire ps) = (received ps, [], True)"
  using assms
proof (induction ps)
  case Nil
  then show ?case
    by (simp add: wire_def received_def client_packets.simps client_packet_def sizeof_PacketHeader_def)
next
  case (Cons p ps)
  obtain c s body where p: "p = (c, s, body)" by (cases p) auto
  with Cons.prems have "length body < 4294967280" by simp
  then have "client_packet (make_packet c s body @ wire ps) =
      Emit (\<lparr>magic = PROTO_MAGIC, body_len = of_nat (length body), cmd = c, seq = s\<rparr>, body) (wire ps)"
    by (rule client_read_make_packet)
  from client_stream.prun_emit [OF this] Cons show ?case
    by (simp add: p wire_def received_def)
qed

text \<open>The handlers neither read nor write the buffer and do not stop the client.\<close>

lemma handle_packet_frame [simp]:
  "handle_packet X p (c\<lparr>cl_buffer := b\<rparr>) = (handle_packet X p c)\<lparr>cl_buffer := b\<rparr>"
  "cl_running (handle_packet X p c) = cl_running c" "cl_buffer (handle_packet X p c) = cl_buffer c"
  by (auto simp: handle_packet_def handle_chat_message_def handle_ack_response_def show_item_def Let_def split: option.split)

lemma fold_handle_frame [simp]:
  "fold (handle_packet X) ps (c\<lparr>cl_buffer := b\<rparr>) = (fold (handle_packet X) ps c)\<lparr>cl_buffer := b\<rparr>"
  "cl_running (fold (handle_packet X) ps c) = cl_running c" "cl_buffer (fold (handle_packet X) ps c) = cl_buffer c"
  by (induction ps arbitrary: c) simp_all

lemma client_buffer_same: "cl_buffer c = b \<Longrightarrow> c\<lparr>cl_buffer := b\<rparr> = c"
  by auto

text \<open>Reading pieces one after the other is reading the whole at once.\<close>

lemma receive_pieces:
  assumes "cl_running c" "client_packet (cl_buffer c) = NeedMore"
    and "client_packets (cl_buffer c @ concat pieces) = (ps, rest, True)"
  shows "receive_loop X (map RecvData pieces) c = (Val (), (fold (handle_packet X) ps c)\<lparr>cl_buffer := rest\<rparr>)"
  using assms
proof (induction pieces arbitrary: c ps)
  case Nil
  then show ?case by (simp add: client_stream.prun_needmore)
next
  case (Cons piece pieces)
  obtain qs r ok where run: "client_packets (cl_buffer c @ piece) = (qs, r, ok)" by (cases "client_packets (cl_buffer c @ piece)")
  have ok: ok
  proof (rule ccontr)
    assume "\<not> ok"
    with run have "client_packets ((cl_buffer c @ piece) @ concat pieces) = (qs, r @ concat pieces, False)"
      by (simp add: client_stream.prun_append_bad del: append_assoc)
    with Cons.prems(3) show False by simp
  qed
  obtain qs' where rest: "client_packets (r @ concat pieces) = (qs', rest, True)" "ps = qs @ qs'"
    using client_stream.prun_append [of "cl_buffer c @ piece" qs r "concat pieces"] run ok Cons.prems(3)
    by (auto split: prod.splits)
  let ?c1 = "(fold (handle_packet X) qs c)\<lparr>cl_buffer := r\<rparr>"
  have step: "receive_data X piece c = (Val (), ?c1)" by (simp add: receive_data_def run ok)
  have "receive_loop X (map RecvData pieces) ?c1 = (Val (), (fold (handle_packet X) qs' ?c1)\<lparr>cl_buffer := rest\<rparr>)"
    using Cons.prems(1) run ok rest(1) by (intro Cons.IH) (auto simp: client_stream.prun_stops)
  then show ?case using Cons.prems(1) by (simp add: run_seqP step rest(2))
qed

lemma client_packet_Nil: "client_packet [] = NeedMore"
  by (simp add: client_packet_def sizeof_PacketHeader_def)

text \<open>Whole packets on an empty buffer.\<close>

lemma receive_wire:
  assumes "cl_running c" "cl_buffer c = []" "concat pieces = wire ps" "\<forall>(c, s, body) \<in> set ps. length body < 4294967280"
  shows "receive_loop X (map RecvData pieces) c = (Val (), fold (handle_packet X) (received ps) c)"
  using receive_pieces [of c pieces "received ps" "[]" X] client_packets_wire [OF assms(4)] assms(1-3)
  by (simp add: client_packet_Nil client_buffer_same)

text \<open>
  C4. However the network cuts the server's bytes, the client handles exactly the packets that the server sent, once each and in
  order, and keeps nothing back.
\<close>

theorem client_receives_packets:
  assumes "cl_running c" "cl_buffer c = []" "concat pieces = wire ps" "\<forall>(cm, sq, body) \<in> set ps. length body < 4294967280"
  shows "receive_loop X (map RecvData pieces) c =
    (Val (), fold (\<lambda>(cm, sq, body). handle_packet X
      (\<lparr>magic = PROTO_MAGIC, body_len = of_nat (length body), cmd = cm, seq = sq\<rparr>, body)) ps c)"
  using receive_wire [OF assms(1-3)] assms(4) by (simp add: received_def fold_map comp_def case_prod_unfold)

theorem client_receives_packets_witness:
  "receive_loop codec_ref (map RecvData [take 3 (wire [(3, 1, ''hi'')]), drop 3 (wire [(3, 1, ''hi'')])]) connected_client =
   (Val (), connected_client\<lparr>cl_shown := [ShowSystem False ''hi'']\<rparr>)"
  using client_receives_packets [of connected_client "[take 3 (wire [(3, 1, ''hi'')]), drop 3 (wire [(3, 1, ''hi'')])]" "[(3, 1, ''hi'')]" codec_ref]
  by (simp add: connected_client_def connect_def new_client_def handle_packet_def codec_ref_def handle_ack_response_def new_Response_def show_item_def)

section \<open>An AI answer on the screen\<close>

text \<open>
  Documented behaviour of the generated classes: what was serialized parses back, if the numbers fit in their
  fields (\<open>int32\<close> and \<open>int64\<close>).
\<close>

definition chat_in_range :: "ChatMessage \<Rightarrow> bool" where
  "chat_in_range m \<longleftrightarrow> int_ok (cm_from_uid m) \<and> int_ok (cm_to_uid m) \<and> int_ok (cm_stream_seq m) \<and>
     - (2 ^ 63) \<le> cm_timestamp m \<and> cm_timestamp m < 2 ^ 63"

definition codec_laws :: "codec \<Rightarrow> bool" where
  "codec_laws X \<longleftrightarrow> (\<forall>m. chat_in_range m \<longrightarrow> parse_ChatMessage X (ser_ChatMessage X m) = Some m)"

text \<open>What a queued packet is on the wire.\<close>

fun fn_packet :: "loop_fn \<Rightarrow> outgoing" where
  "fn_packet (FnSendPacket r c n body) = (c, n, body)"
| "fn_packet (FnAddConn fd ip port) = (0, 0, [])"
| "fn_packet (FnClose fd) = (0, 0, [])"

definition ai_message :: "StreamRequest \<Rightarrow> int \<Rightarrow> bool \<Rightarrow> int \<Rightarrow> string \<Rightarrow> ChatMessage" where
  "ai_message req wall is_last n part = new_ChatMessage\<lparr>cm_from_uid := 9999, cm_to_uid := sr_uid req, cm_content := part,
     cm_is_stream := (\<not> is_last \<or> part \<noteq> []), cm_is_last_chunk := is_last, cm_stream_seq := n, cm_timestamp := wall\<rparr>"

lemma fn_packet_ai: "fn_packet (ai_packet X req wall is_last n part) =
    (cmd_code CHAT, 0, ser_ChatMessage (x_codec X) (ai_message req wall is_last n part))"
  by (simp add: ai_packet_def ai_message_def)

definition in_range :: "StreamRequest \<Rightarrow> int \<Rightarrow> nat \<Rightarrow> bool" where
  "in_range req wall n \<longleftrightarrow> int_ok (sr_uid req) \<and> - (2 ^ 63) \<le> wall \<and> wall < 2 ^ 63 \<and> int_ok (int n)"

lemma handle_ai_packet:
  assumes "codec_laws X" "in_range req wall n" "0 \<le> i" "i \<le> int n" "cmd hdr = cmd_code CHAT"
  shows "handle_packet X (hdr, ser_ChatMessage X (ai_message req wall is_last i part)) c =
    handle_chat_message (ai_message req wall is_last i part) c"
proof -
  have "chat_in_range (ai_message req wall is_last i part)"
    using assms(2-4) by (auto simp: chat_in_range_def ai_message_def new_ChatMessage_def in_range_def int_ok_def INT_MIN_def INT_MAX_def)
  with assms(1,5) show ?thesis by (simp add: codec_laws_def handle_packet_def)
qed

text \<open>The part of the state that an answer touches.\<close>

definition after_parts :: "string list \<Rightarrow> client \<Rightarrow> client" where
  "after_parts parts c =
     (if parts = [] then c
      else c\<lparr>cl_last_ai_chunk_time := cl_now c, cl_in_stream := True, cl_stream_started := (cl_stream_started c \<or> \<not> cl_in_stream c),
        cl_shown := cl_shown c @ (if cl_in_stream c then [] else [ShowAiBegin]) @ map ShowAiText parts\<rparr>)"

lemma handle_ai_parts:
  assumes "codec_laws (x_codec X)" "in_range req wall n" "0 \<le> i" "i + int (length parts) \<le> int n" "[] \<notin> set parts"
  shows "fold (handle_packet (x_codec X)) (received (map fn_packet (ai_packets X req wall i parts))) c = after_parts parts c"
  using assms(3-5)
proof (induction parts arbitrary: i c)
  case Nil
  then show ?case by (simp add: received_def after_parts_def)
next
  case (Cons p parts)
  have "fold (handle_packet (x_codec X)) (received (map fn_packet (ai_packets X req wall i (p # parts)))) c =
      fold (handle_packet (x_codec X)) (received (map fn_packet (ai_packets X req wall (i + 1) parts)))
        (handle_chat_message (ai_message req wall False i p) c)"
    using Cons.prems by (simp add: received_def fn_packet_ai handle_ai_packet [OF assms(1,2)])
  also have "\<dots> = after_parts parts (handle_chat_message (ai_message req wall False i p) c)"
    using Cons.prems by (intro Cons.IH) auto
  also have "\<dots> = after_parts (p # parts) c"
    using Cons.prems by (auto simp: after_parts_def handle_chat_message_def ai_message_def new_ChatMessage_def show_item_def Let_def)
  finally show ?case .
qed

lemma handle_ai_answer:
  assumes "codec_laws (x_codec X)" "in_range req wall (length parts)" "[] \<notin> set parts" "\<not> cl_in_stream c"
  shows "fold (handle_packet (x_codec X))
      (received (map fn_packet (ai_packets X req wall 0 parts @ [ai_packet X req wall True (int (length parts)) final]))) c =
    c\<lparr>cl_last_ai_chunk_time := cl_now c, cl_stream_completed := True, cl_stream_started := (cl_stream_started c \<or> parts \<noteq> []),
      cl_shown := cl_shown c @ (if parts = [] then [] else ShowAiBegin # map ShowAiText parts)\<rparr>"
proof -
  have split: "received (ps @ [(cm, sq, body)]) =
      received ps @ [(\<lparr>magic = PROTO_MAGIC, body_len = of_nat (length body), cmd = cm, seq = sq\<rparr>, body)]" for ps cm sq body
    by (simp add: received_def)
  show ?thesis
    using assms(4) by (simp add: split handle_ai_parts [OF assms(1,2) _ _ assms(3)] fn_packet_ai handle_ai_packet [OF assms(1,2)])
      (auto simp: after_parts_def handle_chat_message_def ai_message_def new_ChatMessage_def)
qed

text \<open>
  C19. What the user sees of an AI answer: the packets of an answer, cut in any way, put every part on the screen,
  in order, except the text in the packet that closes the answer. That packet carries the rest of the answer
  (all of it, if the answer is short), which the client throws away.
\<close>

theorem client_drops_final_text:
  assumes "codec_laws (x_codec X)" "in_range req wall (length parts)" "[] \<notin> set parts"
    and "cl_running c" "cl_buffer c = []" "\<not> cl_in_stream c"
    and "sent = map fn_packet (ai_packets X req wall 0 parts @ [ai_packet X req wall True (int (length parts)) final])"
    and "\<forall>(cm, sq, body) \<in> set sent. length body < 4294967280" "concat pieces = wire sent"
  shows "\<exists>c'. receive_loop (x_codec X) (map RecvData pieces) c = (Val (), c') \<and> cl_stream_completed c' \<and>
    \<not> cl_in_stream c' \<and> cl_shown c' = cl_shown c @ (if parts = [] then [] else ShowAiBegin # map ShowAiText parts)"
proof -
  have "fold (handle_packet (x_codec X)) (received sent) c =
      c\<lparr>cl_last_ai_chunk_time := cl_now c, cl_stream_completed := True, cl_stream_started := (cl_stream_started c \<or> parts \<noteq> []),
        cl_shown := cl_shown c @ (if parts = [] then [] else ShowAiBegin # map ShowAiText parts)\<rparr>"
    unfolding assms(7) by (rule handle_ai_answer [OF assms(1-3,6)])
  with receive_wire [OF assms(4,5,9,8), of "x_codec X"] assms(6) show ?thesis by simp
qed

text \<open>A codec that keeps the laws: numbers in unary.\<close>

definition enc_int :: "int \<Rightarrow> string" where
  "enc_int i = (if i < 0 then CHR ''-'' else CHR ''+'') # replicate (nat \<bar>i\<bar>) (CHR ''x'') @ ''.''"

definition dec_int :: "string \<Rightarrow> int \<times> string" where
  "dec_int s = (let n = int (length (takeWhile (\<lambda>c. c = CHR ''x'') (tl s)))
     in (if hd s = CHR ''-'' then - n else n, tl (dropWhile (\<lambda>c. c = CHR ''x'') (tl s))))"

definition enc_chat :: "ChatMessage \<Rightarrow> string" where
  "enc_chat m = enc_int (cm_from_uid m) @ enc_int (cm_to_uid m) @ enc_int (cm_timestamp m) @ enc_int (cm_stream_seq m) @
     [if cm_is_stream m then CHR ''t'' else CHR ''f'', if cm_is_last_chunk m then CHR ''t'' else CHR ''f''] @ cm_content m"

definition dec_chat :: "string \<Rightarrow> ChatMessage" where
  "dec_chat s0 = (case dec_int s0 of (a, s1) \<Rightarrow> case dec_int s1 of (b, s2) \<Rightarrow> case dec_int s2 of (t, s3) \<Rightarrow> case dec_int s3 of (q, s4) \<Rightarrow>
     \<lparr>cm_from_uid = a, cm_to_uid = b, cm_content = drop 2 s4, cm_timestamp = t, cm_is_stream = (s4 ! 0 = CHR ''t''),
       cm_is_last_chunk = (s4 ! 1 = CHR ''t''), cm_stream_seq = q\<rparr>)"

definition externals_full :: "(json, json, unit) externals" where
  "externals_full = externals_ref\<lparr>x_codec := codec_ref\<lparr>parse_ChatMessage := (\<lambda>b. Some (dec_chat b)), ser_ChatMessage := enc_chat\<rparr>\<rparr>"

lemma dec_enc_int: "dec_int (enc_int i @ s) = (i, s)"
  by (simp add: dec_int_def enc_int_def Let_def takeWhile_append dropWhile_append)

lemma codec_laws_full: "codec_laws (x_codec externals_full)"
  by (simp add: codec_laws_def externals_full_def dec_chat_def enc_chat_def dec_enc_int)

lemma length_enc: "length (enc_int i) = nat \<bar>i\<bar> + 2"
  by (simp add: enc_int_def)

theorem client_drops_final_text_witness:
  "\<exists>c'. receive_loop (x_codec externals_full) (map RecvData [wire (map fn_packet (ai_packets externals_full demo_req 0 0 [''Hello''] @
      [ai_packet externals_full demo_req 0 True 1 '' world'']))]) connected_client = (Val (), c') \<and>
     cl_shown c' = [ShowAiBegin, ShowAiText ''Hello'']"
proof -
  let ?sent = "map fn_packet (ai_packets externals_full demo_req 0 0 [''Hello''] @
      [ai_packet externals_full demo_req 0 True (int (length [''Hello''])) '' world''])"
  have "in_range demo_req 0 (length [''Hello''])" by (simp add: in_range_def demo_req_def int_ok_def INT_MIN_def INT_MAX_def)
  moreover have "\<forall>(cm, sq, body) \<in> set ?sent. length body < 4294967280"
    by (simp add: fn_packet_ai externals_full_def enc_chat_def length_enc ai_message_def new_ChatMessage_def demo_req_def)
  ultimately show ?thesis
    using client_drops_final_text [OF codec_laws_full, of demo_req 0 "[''Hello'']" connected_client ?sent "'' world''" "[wire ?sent]"]
    by (simp add: connected_client_def connect_def new_client_def) metis
qed

section \<open>From the client to the server\<close>

text \<open>
  What the client has sent is a sequence of packets with the numbers 1, 2, 3 and so on.
\<close>

definition numbered :: "outgoing list \<Rightarrow> bool" where
  "numbered ps \<longleftrightarrow> map (\<lambda>(cm, sq, body). sq) ps = map (\<lambda>i. of_nat (i + 1)) [0 ..< length ps]"

definition out_ok :: "client \<Rightarrow> bool" where
  "out_ok c \<longleftrightarrow> cl_sends c = [] \<and> (\<exists>ps. cl_out c = wire ps \<and> numbered ps \<and> cl_seq c = of_nat (length ps))"

lemma send_packet_run:
  assumes "cl_sends c = []"
  shows "send_packet cm body c = (True, c\<lparr>cl_seq := cl_seq c + 1, cl_out := cl_out c @ make_packet cm (cl_seq c + 1) body\<rparr>)"
  using assms by (simp add: send_packet_def sock_send_def make_packet_def Let_def)

lemma out_ok_send_packet: "out_ok c \<Longrightarrow> out_ok (snd (send_packet cm body c))"
proof -
  assume "out_ok c"
  then obtain ps where ps: "cl_sends c = []" "cl_out c = wire ps" "numbered ps" "cl_seq c = of_nat (length ps)"
    by (auto simp: out_ok_def)
  let ?ps = "ps @ [(cm, of_nat (length ps + 1), body)]"
  have "numbered ?ps" using ps(3) by (simp add: numbered_def)
  moreover have "wire ?ps = wire ps @ make_packet cm (of_nat (length ps) + 1) body" by (simp add: wire_def add.commute)
  ultimately show ?thesis using ps by (auto simp: out_ok_def send_packet_run intro!: exI [of _ ?ps])
qed

lemma out_ok_fields:
  assumes "cl_sends c' = cl_sends c" "cl_out c' = cl_out c" "cl_seq c' = cl_seq c"
  shows "out_ok c' = out_ok c"
  using assms by (simp add: out_ok_def)

text \<open>What happens to a client, in any order: a line of input, bytes between two lines, a beat of the heartbeat.\<close>

datatype client_act = InputLine arrivals string | Receive "recv_result list" | Beat

fun act_step :: "codec \<Rightarrow> client_act \<Rightarrow> unit cprog" where
  "act_step X (InputLine ar line) = bindP (chat_turn X ar line) (\<lambda>_. ret ())"
| "act_step X (Receive evs) = receive_loop X evs"
| "act_step X Beat = modifyP (heartbeat_beat X)"

definition client_run :: "codec \<Rightarrow> client_act list \<Rightarrow> unit cprog" where
  "client_run X acts = forP acts (act_step X)"

text \<open>
  A property of the client that sending a packet and noting a contact keep, and that depends on nothing but the bytes sent and the
  contacts, is kept by everything the client does.
\<close>

locale client_invariant =
  fixes I :: "client \<Rightarrow> bool"
  assumes inv_send: "I c \<Longrightarrow> I (snd (send_packet cm body c))"
    and inv_contact: "I c \<Longrightarrow> I (add_recent_contact t c)"
    and inv_frame: "I c \<Longrightarrow> cl_sends c' = cl_sends c \<Longrightarrow> cl_out c' = cl_out c \<Longrightarrow> cl_seq c' = cl_seq c \<Longrightarrow>
      cl_recent_contacts c' = cl_recent_contacts c \<Longrightarrow> I c'"
begin

lemma inv_fields:
  assumes "I c"
  shows "I (c\<lparr>cl_uid := u\<rparr>)" "I (c\<lparr>cl_running := b\<rparr>)" "I (c\<lparr>cl_chat_target := u\<rparr>)" "I (c\<lparr>cl_pending_response := p\<rparr>)"
    "I (c\<lparr>cl_in_stream := b\<rparr>)" "I (c\<lparr>cl_buffer := str\<rparr>)" "I (start_heartbeat c)" "I (c\<lparr>cl_now := u\<rparr>)"
    "I (c\<lparr>cl_stream_completed := b, cl_stream_started := b', cl_last_ai_chunk_time := u\<rparr>)"
  using assms by (auto intro: inv_frame simp: start_heartbeat_def)

lemma inv_handle_packet: "I c \<Longrightarrow> I (handle_packet X p c)"
  by (erule inv_frame) (auto simp: handle_packet_def handle_chat_message_def handle_ack_response_def show_item_def Let_def
      split: option.split)

lemma inv_fold_packets: "I c \<Longrightarrow> I (fold (handle_packet X) ps c)"
  by (induction ps arbitrary: c) (simp_all add: inv_handle_packet)

lemma inv_receive_data: "keeps I (receive_data X bytes)"
  by (rule keepsI) (auto simp: receive_data_def Let_def inv_fold_packets inv_fields split: prod.split)

lemma inv_receive_loop: "keeps I (receive_loop X evs)"
proof (rule keepsI)
  fix c
  assume "I c"
  then show "I (snd (receive_loop X evs c))"
  proof (induction X evs c rule: receive_loop.induct)
    case (2 X ev evs c)
    have "I (snd (receive_data X bytes c))" for bytes using "2.prems" by (rule keepsD [OF inv_receive_data])
    then have "receive_data X bytes c = (out, c') \<Longrightarrow> I c'" for bytes out c' by (metis snd_conv)
    with 2 show ?case
      by (cases ev) (auto simp: run_seqP inv_fields split: prod.split outcome.split)
  qed simp
qed

lemma inv_send_message: "I c \<Longrightarrow> I (snd (send_message X to_uid txt c))"
  by (simp add: send_message_def inv_send)

lemma inv_heartbeat: "I c \<Longrightarrow> I (heartbeat_beat X c)"
  by (simp add: heartbeat_beat_def inv_send)

lemma inv_wait_auth: "keeps I (wait_auth_result X evs)"
  unfolding wait_auth_result_def
  by (intro keeps_seq inv_receive_loop keepsI) (auto simp: Let_def inv_fields)

lemma inv_do_auth: "I c \<Longrightarrow> I (snd (do_auth X cm body evs c))"
  using inv_send [OF inv_fields(4)] keepsD [OF inv_wait_auth]
  by (auto simp: do_auth_def split: prod.split) (metis snd_conv)+

lemma inv_command: "keeps I (client_command X evs line)"
proof (rule keepsI)
  fix c
  assume I: "I c"
  have "I (snd (auth_command (\<lambda>u p. do_register X u p evs) s c))" "I (snd (auth_command (\<lambda>u p. do_login X u p evs) s c))" for s
    using I by (auto simp: auth_command_def do_register_def do_login_def inv_do_auth split: option.split)
  moreover have "I (chat_command s c)" "I (snd (to_command X s c))" for s
    using I by (auto simp: chat_command_def to_command_def Let_def inv_contact inv_fields inv_send_message split: option.split)
  ultimately show "I (snd (client_command X evs line c))"
    using I by (simp add: client_command_def inv_fields case_prod_unfold split: option.split)
qed

lemma inv_wait_rounds: "I c \<Longrightarrow> I (snd (wait_rounds X rounds c))"
proof (induction X rounds c rule: wait_rounds.induct)
  case (2 X dt evs rounds c)
  then show ?case using keepsD [OF inv_receive_loop, of c X evs]
    by (auto simp: run_seqP Let_def inv_fields split: prod.split outcome.split)
qed (simp add: inv_fields)

lemma inv_wait_stream: "keeps I (wait_for_stream_completion X evs rounds)"
  unfolding wait_for_stream_completion_def
  by (intro keeps_seq inv_receive_loop keepsI) (simp add: inv_wait_rounds)

lemma inv_send_line: "I c \<Longrightarrow> I (snd (send_line X ar line c))"
proof -
  assume I: "I c"
  then have "I (snd (send_message X 9999 line
      (c\<lparr>cl_stream_completed := False, cl_stream_started := False, cl_last_ai_chunk_time := cl_now c\<rparr>)))"
    by (intro inv_send_message inv_fields)
  with I show ?thesis
    using keepsD [OF keeps_seq [OF inv_wait_stream keeps_ret], of _ X "ar_begin ar" "ar_rounds ar" True]
    by (simp add: send_line_def case_prod_unfold inv_send_message)
qed

lemma inv_chat_turn: "keeps I (chat_turn X ar line)"
  unfolding chat_turn_def
  by (intro keeps_if keeps_ret keeps_bind inv_command keepsI inv_send_line)

theorem inv_client_run: "keeps I (client_run X acts)"
proof -
  have "keeps I (act_step X a)" for a
    by (cases a) (auto intro!: keeps_bind inv_chat_turn keeps_ret inv_receive_loop keeps_modify inv_heartbeat)
  then show ?thesis unfolding client_run_def by (intro keeps_for)
qed

end

interpretation sent_bytes: client_invariant out_ok
proof
  show "out_ok (add_recent_contact t c)" if "out_ok c" for c t
    using that by (simp add: out_ok_def add_recent_contact_def Let_def)
qed (simp_all add: out_ok_send_packet, simp add: out_ok_def)

text \<open>
  What the client has sent, whatever the user types and whatever arrives, and with beats of the heartbeat between two lines, is a sequence of packets
  numbered 1, 2, 3 and so on, as long as the socket takes the bytes.
\<close>

lemma client_run_sends:
  assumes "client_run X acts connected_client = (out, c)"
  shows "\<exists>ps. cl_out c = wire ps \<and> numbered ps"
proof -
  have "out_ok connected_client" by (auto simp: out_ok_def connected_client_def connect_def new_client_def wire_def numbered_def intro!: exI [of _ "[]"])
  then have "out_ok (snd (client_run X acts connected_client))" by (rule keepsD [OF sent_bytes.inv_client_run])
  then show ?thesis unfolding assms out_ok_def by auto
qed

section \<open>Contacts\<close>

definition contacts_ok :: "client \<Rightarrow> bool" where
  "contacts_ok c \<longleftrightarrow> distinct (cl_recent_contacts c) \<and> length (cl_recent_contacts c) \<le> 10"

lemma contacts_ok_add: "contacts_ok c \<Longrightarrow> contacts_ok (add_recent_contact t c)"
proof -
  assume ok: "contacts_ok c"
  have "length (filter (\<lambda>x. x \<noteq> t) (cl_recent_contacts c)) \<le> 10"
    using ok by (simp add: contacts_ok_def le_trans [OF length_filter_le])
  then show ?thesis using ok
    by (auto simp: contacts_ok_def add_recent_contact_def Let_def distinct_butlast dest: in_set_butlastD)
qed

interpretation contacts: client_invariant contacts_ok
proof
  show "contacts_ok (snd (send_packet cm body c))" if "contacts_ok c" for c cm body
    using that by (simp add: contacts_ok_def send_packet_def sock_send_def Let_def split: list.split)
  show "contacts_ok (add_recent_contact t c)" if "contacts_ok c" for c t
    using that by (rule contacts_ok_add)
qed (simp add: contacts_ok_def)

lemma contacts_bounded: "contacts_ok (snd (client_run X acts connected_client))"
  by (rule keepsD [OF contacts.inv_client_run]) (simp add: contacts_ok_def connected_client_def connect_def new_client_def)

section \<open>A failed login\<close>

text \<open>The words of a command line.\<close>

lemma read_word_run:
  assumes "w \<noteq> []" "\<forall>c \<in> set w. \<not> is_space c" "\<forall>c \<in> set pre. is_space c" "rest = [] \<or> is_space (hd rest)"
  shows "read_word (pre @ w @ rest) = Some (w, rest)"
proof -
  have "dropWhile is_space (pre @ w @ rest) = w @ rest"
    using assms(1-3) by (cases w) (simp_all add: dropWhile_append)
  moreover have "takeWhile (\<lambda>c. \<not> is_space c) (w @ rest) = w" "dropWhile (\<lambda>c. \<not> is_space c) (w @ rest) = rest"
    using assms(2,4) by (cases rest; simp add: takeWhile_append dropWhile_append)+
  ultimately show ?thesis using assms(1) by (simp add: read_word_def Let_def)
qed

text \<open>While the client waits, what arrives changes neither what it has sent nor who and with whom it is.\<close>

lemma receive_loop_timeouts: "receive_loop X evs c = receive_loop X (filter (\<lambda>e. e \<noteq> RecvTimeout) evs) c"
proof (induction X evs c rule: receive_loop.induct)
  case (2 X ev evs c)
  have "receive_loop X es c = (Val (), c)" if "\<not> cl_running c" for es using that by (cases es) simp_all
  with 2 show ?case by (cases ev) (auto simp: run_seqP split: prod.split outcome.split)
qed simp

definition unauthorised :: "client \<Rightarrow> client \<Rightarrow> bool" where
  "unauthorised c0 c \<longleftrightarrow> cl_out c = cl_out c0 \<and> cl_seq c = cl_seq c0 \<and> cl_uid c = cl_uid c0 \<and> cl_chat_target c = cl_chat_target c0 \<and>
     cl_sends c = cl_sends c0 \<and> cl_wall c = cl_wall c0 \<and> pa_uid (cl_pending_response c) \<le> 0"

lemma unauthorised_packets:
  assumes "\<forall>(cm, n, body) \<in> set ps. cm = cmd_code ACK \<longrightarrow> parse_Response X body = Some (failure txt_login_failed)" "unauthorised c0 c"
  shows "unauthorised c0 (fold (handle_packet X) (received ps) c)"
  using assms
proof (induction ps arbitrary: c)
  case (Cons p ps)
  obtain cm n body where p: "p = (cm, n, body)" by (cases p)
  have "unauthorised c0 (handle_packet X (\<lparr>magic = PROTO_MAGIC, body_len = of_nat (length body), cmd = cm, seq = n\<rparr>, body) c)"
    using Cons.prems by (auto simp: p handle_packet_def handle_chat_message_def handle_ack_response_def show_item_def unauthorised_def
        failure_def new_Response_def Let_def split: option.split)
  with Cons.IH Cons.prems(1) show ?case by (simp add: p received_def)
qed (simp add: received_def)

lemma wait_refused:
  assumes "cl_running c" "cl_buffer c = []" "filter (\<lambda>e. e \<noteq> RecvTimeout) evs = map RecvData pieces" "concat pieces = wire ps"
    and "\<forall>(cm, n, body) \<in> set ps. length body < 4294967280"
    and "\<forall>(cm, n, body) \<in> set ps. cm = cmd_code ACK \<longrightarrow> parse_Response X body = Some (failure txt_login_failed)"
    and "unauthorised c c"
  shows "\<exists>c'. wait_auth_result X evs c = (Val False, c') \<and> unauthorised c c'"
proof -
  let ?c1 = "fold (handle_packet X) (received ps) c"
  have "receive_loop X evs c = (Val (), ?c1)"
    unfolding receive_loop_timeouts [of X evs] assms(3) by (rule receive_wire) (use assms in simp_all)
  moreover have "unauthorised c ?c1" by (rule unauthorised_packets [OF assms(6,7)])
  ultimately show ?thesis by (auto simp: wait_auth_result_def run_seqP Let_def unauthorised_def)
qed

text \<open>
  C39. A failed login gives the password away: a user who is logged in and types \<open>/login\<close> with another name, where the
  server refuses or does not answer within the time, sends the whole line, password included, as a message to the user with whom he is
  chatting, because \<open>handle_command\<close> reports the failure as "not a command". (What arrives meanwhile, in
  any pieces and with any pauses, are any packets whose answers, if there are any, are refusals; the heartbeat sends nothing meanwhile.)
\<close>

theorem failed_login_sends_password:
  assumes "is_logged_in c" "cl_chat_target c \<noteq> 9999" "cl_sends c = []" "cl_running c" "cl_buffer c = []"
    and "u \<noteq> []" "p \<noteq> []" "\<forall>x \<in> set u. \<not> is_space x" "\<forall>x \<in> set p. \<not> is_space x" "line = ''/login '' @ u @ '' '' @ p"
    and "filter (\<lambda>e. e \<noteq> RecvTimeout) (ar_auth ar) = map RecvData pieces" "concat pieces = wire ps"
    and "\<forall>(cm, n, body) \<in> set ps. length body < 4294967280"
    and "\<forall>(cm, n, body) \<in> set ps. cm = cmd_code ACK \<longrightarrow> parse_Response X body = Some (failure txt_login_failed)"
  shows "\<exists>c'. chat_turn X ar line c = (Val True, c') \<and> cl_out c' = cl_out c @
    make_packet (cmd_code LOGIN) (cl_seq c + 1) (ser_LoginRequest X \<lparr>lr_username = u, lr_password = p\<rparr>) @
    make_packet (cmd_code CHAT) (cl_seq c + 1 + 1) (ser_ChatMessage X (new_ChatMessage\<lparr>cm_from_uid := cl_uid c,
      cm_to_uid := cl_chat_target c, cm_content := line, cm_timestamp := cl_wall c\<rparr>))"
proof -
  let ?body = "ser_LoginRequest X \<lparr>lr_username = u, lr_password = p\<rparr>"
  let ?c1 = "c\<lparr>cl_pending_response := \<lparr>pa_active = True, pa_uid = -1, pa_msg = []\<rparr>, cl_seq := cl_seq c + 1,
      cl_out := cl_out c @ make_packet (cmd_code LOGIN) (cl_seq c + 1) ?body\<rparr>"
  have "unauthorised ?c1 ?c1" by (simp add: unauthorised_def)
  from wait_refused [OF _ _ assms(11-14) this] assms(4,5)
  obtain c2 where c2: "wait_auth_result X (ar_auth ar) ?c1 = (Val False, c2)" "unauthorised ?c1 c2" by auto
  then have "do_login X u p (ar_auth ar) c = (Val False, c2)"
    using assms(3,6,7) by (simp add: do_login_def do_auth_def send_packet_run)
  moreover have "read_word line = Some (''/login'', '' '' @ u @ '' '' @ p)"
    using read_word_run [of "''/login''" "[]" "'' '' @ u @ '' '' @ p"] by (simp add: assms(10) is_space_def)
  moreover have "read_word ('' '' @ u @ '' '' @ p) = Some (u, '' '' @ p)" "read_word ('' '' @ p) = Some (p, [])"
    using read_word_run [of u "'' ''" "'' '' @ p"] read_word_run [of p "'' ''" "[]"] assms(6-9) by (simp_all add: is_space_def)
  ultimately have "client_command X (ar_auth ar) line c = (Val False, c2)"
    by (simp add: client_command_def auth_command_def assms(10))
  then show ?thesis using assms(1-3) c2(2)
    by (simp add: chat_turn_def assms(10) run_bindP send_line_def is_logged_in_def send_message_def send_packet_run unauthorised_def)
qed

definition demo_logged_in :: client where
  "demo_logged_in = connected_client\<lparr>cl_uid := 7, cl_chat_target := 8\<rparr>"

text \<open>What arrives: the server's refusal in two pieces; or nothing, for a second.\<close>

definition refusal :: arrivals where
  "refusal = \<lparr>ar_auth = [RecvData (take 5 (wire [(cmd_code ACK, 1, txt_login_failed)])), RecvTimeout,
     RecvData (drop 5 (wire [(cmd_code ACK, 1, txt_login_failed)]))], ar_begin = [], ar_rounds = []\<rparr>"

definition silence :: arrivals where
  "silence = \<lparr>ar_auth = [RecvTimeout], ar_begin = [], ar_rounds = []\<rparr>"

theorem failed_login_sends_password_witness:
  "\<exists>c1 c2. chat_turn codec_ref refusal ''/login bob secret'' demo_logged_in = (Val True, c1) \<and>
     chat_turn codec_ref silence ''/login bob secret'' demo_logged_in = (Val True, c2) \<and>
     cl_out c1 = make_packet 1 1 ''bob'' @ make_packet 2 2 ''/login bob secret'' \<and> cl_out c2 = cl_out c1"
proof -
  note leak = failed_login_sends_password [of demo_logged_in "''bob''" "''secret''" "''/login bob secret''", where X = codec_ref]
  have "\<exists>c1. chat_turn codec_ref refusal ''/login bob secret'' demo_logged_in = (Val True, c1) \<and>
      cl_out c1 = make_packet 1 1 ''bob'' @ make_packet 2 2 ''/login bob secret''"
    using leak [of refusal "[take 5 (wire [(cmd_code ACK, 1, txt_login_failed)]), drop 5 (wire [(cmd_code ACK, 1, txt_login_failed)])]"
        "[(cmd_code ACK, 1, txt_login_failed)]"]
    by (simp add: demo_logged_in_def connected_client_def connect_def new_client_def is_logged_in_def is_space_def codec_ref_def failure_def
        new_Response_def refusal_def txt_login_failed_def)
  moreover have "\<exists>c2. chat_turn codec_ref silence ''/login bob secret'' demo_logged_in = (Val True, c2) \<and>
      cl_out c2 = make_packet 1 1 ''bob'' @ make_packet 2 2 ''/login bob secret''"
    using leak [of silence "[]" "[]"]
    by (simp add: demo_logged_in_def connected_client_def connect_def new_client_def is_logged_in_def is_space_def codec_ref_def silence_def wire_def)
  ultimately show ?thesis by auto
qed

end
