(* ===== verification/Demo_Pair.thy ===== *)
theory Demo_Pair
  imports Output Client_Theorems
begin

text \<open>
  A concrete server on which two users have logged in, one on each worker, for the witnesses about both ends of a conversation.
\<close>

unbundle bit_operations_syntax

definition pair_db :: "(json, unit) db" where
  "pair_db = fresh_db\<lparr>file_users :=
     [\<lparr>fu_uid = 7, fu_username = ''ann'', fu_password_hash = file_hash (x_hash externals_ref) ''pw''\<rparr>,
      \<lparr>fu_uid = 8, fu_username = ''bob'', fu_password_hash = file_hash (x_hash externals_ref) ''pw''\<rparr>]\<rparr>"

definition pair_boot :: "(json, unit) server" where
  "pair_boot = boot demo_env 0 5000 0 pair_db"

definition pair_start :: "(json, unit) server" where
  "pair_start = admit 1 6 (admit 0 5 pair_boot)"

lemma pair_boot_eval: "pair_boot = demo_boot\<lparr>sv_db := Some pair_db\<rparr>"
  by (simp add: pair_boot_def demo_boot_def boot_def split: prod.split)

lemma pair_start_eval:
  "pair_start = \<lparr>sv_env = demo_env, sv_tick = 5000, sv_wall = 0, sv_open = {6, 5},
     sv_heap = \<lparr>hp = (\<lambda>_. new_ClientContext)
       (0 := new_ClientContext\<lparr>cc_owner_worker := Some 0, cc_pool_idx := 0, cc_fd := 5, cc_last_active := 5\<rparr>,
        Suc 0 := new_ClientContext\<lparr>cc_owner_worker := Some (Suc 0), cc_pool_idx := 0, cc_fd := 6, cc_last_active := 5\<rparr>), hp_next = 2\<rparr>,
     sv_worker = (\<lambda>_. new_worker \<lparr>storage = [], free_list = []\<rparr>)
       (0 := \<lparr>w_pool = \<lparr>storage = [0], free_list = []\<rparr>, w_connections = [5 \<mapsto> demo_conn 5 0],
          w_timer = \<lparr>gid = 1, timermap = [(TimerNodeBase 65000 1, 5)]\<rparr>, w_heartbeat = [5 \<mapsto> TimerNodeBase 65000 1],
          w_pending = [], w_running = [], w_epoll = [5 \<mapsto> EPOLLIN OR EPOLLRDHUP OR EPOLLET]\<rparr>,
        Suc 0 := \<lparr>w_pool = \<lparr>storage = [Suc 0], free_list = []\<rparr>, w_connections = [6 \<mapsto> demo_conn 6 (Suc 0)],
          w_timer = \<lparr>gid = 1, timermap = [(TimerNodeBase 65000 1, 6)]\<rparr>, w_heartbeat = [6 \<mapsto> TimerNodeBase 65000 1],
          w_pending = [], w_running = [], w_epoll = [6 \<mapsto> EPOLLIN OR EPOLLRDHUP OR EPOLLET]\<rparr>),
     sv_sessions = no_sessions, sv_pool = new_pool, sv_db = Some pair_db,
     sv_ai = \<lparr>pending_requests = [], active_streams = [], max_concurrent = 20\<rparr>, sv_streams = [], sv_conn_count = 2\<rparr>"
  by (simp add: pair_start_def pair_boot_eval admit_defs demo_boot_eval new_worker_def new_timer_def demo_settings upd_worker_def
      upd_ctx_def heap_upd_def update_time_def demo_conn_def fun_upd_twist)

lemma reach_pair_start: "reach X pair_start"
proof -
  have "reach X pair_boot" by (simp add: pair_boot_def reach.start boot_initial)
  then have "reach X (admit 0 5 pair_boot)" by (rule reach_admit) (simp_all add: pair_boot_eval demo_boot_eval new_worker_def)
  then show ?thesis unfolding pair_start_def
    by (rule reach_admit) (simp_all add: pair_boot_eval demo_boot_eval new_worker_def admit_defs new_timer_def demo_settings upd_worker_def
      upd_ctx_def heap_upd_def update_time_def)
qed

text \<open>A login packet comes in, is handled and answered, and the answer leaves.\<close>

definition login_run :: "nat \<Rightarrow> int \<Rightarrow> string \<Rightarrow> event list" where
  "login_run w fd name = [SocketEvent w fd EPOLLIN [RData (make_packet 1 1 name), RAgain] [], RunTask, SwapFunctors w, RunFunctor w,
     SocketEvent w fd EPOLLOUT [] [WOk 1000]]"

definition login_header :: "string \<Rightarrow> PacketHeader" where
  "login_header name = \<lparr>magic = PROTO_MAGIC, body_len = of_nat (length name), cmd = 1, seq = 1\<rparr>"

lemma read_login: "length name \<le> 65535 \<Longrightarrow> read_packets (make_packet 1 1 name) = ([(login_header name, name)], [], True)"
  using read_packets_wire [of "[(1, 1, name)]"] by (simp add: wire_def received_def login_header_def)

lemma full_sel: "parse_LoginRequest (x_codec externals_full) b = Some \<lparr>lr_username = b, lr_password = ''pw''\<rparr>"
  "ser_Response (x_codec externals_full) = rs_msg" "x_hash externals_full = x_hash externals_ref"
  by (simp_all add: externals_full_def codec_ref_def)

lemma pair_db_mode: "file_mode pair_db" "file_messages pair_db = []"
  by (simp_all add: pair_db_def fresh_db_def new_db_def file_mode_def file_inv_def)

lemma pair_db_login: "fst (verify_login externals_full ''ann'' ''pw'' pair_db) = Val 7" "fst (verify_login externals_full ''bob'' ''pw'' pair_db) = Val 8"
  by (simp_all add: pair_db_def fresh_db_def new_db_def verify_login_def dispatch_def file_verify_login_def full_sel)

lemma login_pair:
  assumes "sv_db s = Some pair_db" "name = ''ann'' \<and> uid = 7 \<or> name = ''bob'' \<and> uid = 8"
    and "cc_owner_worker (ctx_of s r) = Some w" "session_get (sv_sessions s) uid = None"
  shows "process_business externals_full r (login_header name) name s = (Val (), logged_in_as externals_full r w uid 1 pair_db pair_db s)"
  using login_state [OF assms(1) pair_db_mode(1) full_sel(1) _ _ assms(3,4), where hdr = "login_header name" and d' = pair_db] assms(2) pair_db_login
  by (auto simp: pair_db_mode(2) login_header_def)

lemmas flow_defs = handle_events_def handle_read_def take_packets_def start_heartbeat_timer_def cancel_heartbeat_timer_def
  upd_worker_def upd_ctx_def heap_upd_def update_time_def Let_def DelTimer_def AddTimer_def enqueue_task_def enqueue_def
  run_seqP run_bindP run_catchP run_task_def take_task_def thread_step_def threadP_def
  swap_functors_def run_next_functor_def send_packet_in_loop_def send_def update_event_def logged_in_as_def queue_packets_def

text \<open>The state after the login: the heartbeat timer was renewed when the packet came in.\<close>

definition login_done :: "nat \<Rightarrow> int \<Rightarrow> ctx_ref \<Rightarrow> int \<Rightarrow> (json, unit) server \<Rightarrow> (json, unit) server" where
  "login_done w fd r uid s = s\<lparr>sv_heap := heap_upd r (\<lambda>x. x\<lparr>cc_uid := uid, cc_logged_in := True\<rparr>) (sv_heap s),
     sv_worker := (sv_worker s)(w := (sv_worker s w)\<lparr>w_timer := \<lparr>gid = 2, timermap = [(TimerNodeBase 65000 2, fd)]\<rparr>,
       w_heartbeat := [fd \<mapsto> TimerNodeBase 65000 2]\<rparr>),
     sv_sessions := session_put uid r (sv_sessions s)\<rparr>"


definition pair_ann :: "(json, unit) server" where
  "pair_ann = login_done 0 5 0 7 pair_start"

definition pair :: "(json, unit) server" where
  "pair = login_done 1 6 1 8 pair_ann"

lemmas pair_eval = login_run_def pair_start_eval flow_defs event_bits demo_conn_def new_ClientContext_def read_login new_pool_def length_packet
  demo_settings login_pair success_def new_Response_def session_get_no handle_write.simps pair_db_mode full_sel new_worker_def login_done_def

lemma pair_ann_run: "runs externals_full (login_run 0 5 ''ann'') pair_start = Some pair_ann"
  by (simp add: pair_ann_def pair_eval fun_eq_iff)

lemma pair_run: "runs externals_full (login_run 1 6 ''bob'') pair_ann = Some pair"
  by (simp add: pair_def pair_ann_def pair_eval fun_eq_iff)

lemma reach_pair: "reach externals_full pair"
  by (rule reach_runs [OF pair_run reach_runs [OF pair_ann_run reach_pair_start]])

end
