(* ===== verification/Main_Loop.thy ===== *)
theory Main_Loop
  imports Boot Demo
begin

text \<open>
  The loops of the server's own threads: one turn of \<open>EventLoop::loop\<close> as a worker runs it, and \<open>main\<close> with \<open>Acceptor::handle_accept\<close>,
  which spreads new connections over the workers. A turn is shown to be a sequence of steps of the system
  model, so that what holds in every reachable state holds between the turns of the loop as it is written.
\<close>

unbundle bit_operations_syntax

section \<open>The loop of a worker\<close>

definition do_pending_functors :: "nat \<Rightarrow> ('t, 'm) server \<Rightarrow> ('t, 'm) server" where
  "do_pending_functors w s =
     (let s1 = swap_functors w s in (run_next_functor w ^^ length (w_running (sv_worker s1 w))) s1)"

text \<open>
  One turn: what \<open>epoll_wait\<close> reports (a descriptor, its events, and what the socket answers to the calls on it), then
  the timers, then the functors. \<open>while (timer_.CheckTimer());\<close> goes round at most once for each timer.
\<close>

type_synonym ready = "int \<times> u32 \<times> read_result list \<times> write_result list"

definition loop_turn :: "nat \<Rightarrow> ready list \<Rightarrow> ('t, 'm, unit) sprog" where
  "loop_turn w evs =
     seqP (forP evs (\<lambda>(fd, revents, rs, ws). handle_events w fd revents rs ws))
       (modifyP (\<lambda>s. do_pending_functors w (check_timers (length (timermap (w_timer (sv_worker s w)))) w s)))"

text \<open>What handling an event of one socket leaves alone.\<close>

definition ev_local :: "nat \<Rightarrow> int \<Rightarrow> ('t, 'm) server \<Rightarrow> ('t, 'm) server \<Rightarrow> bool" where
  "ev_local w fd s s' \<longleftrightarrow> w_running (sv_worker s' w) = w_running (sv_worker s w) \<and>
     (\<forall>fd'. fd' \<noteq> fd \<longrightarrow> w_epoll (sv_worker s' w) fd' = w_epoll (sv_worker s w) fd') \<and>
     (conns s' w fd = conns s w fd \<or> conns s' w fd = None)"

lemma ev_local_refl [simp]: "ev_local w fd s s"
  by (simp add: ev_local_def)

lemma ev_local_trans: "ev_local w fd s s1 \<Longrightarrow> ev_local w fd s1 s2 \<Longrightarrow> ev_local w fd s s2"
  by (auto simp: ev_local_def)

lemma ev_local_close:
  assumes "\<And>c. conns s w fd = Some c \<Longrightarrow> tc_fd c = fd \<and> \<not> tc_closed c"
  shows "ev_local w fd s (force_close_in_loop w fd s)"
proof (cases "conns s w fd")
  case None
  then show ?thesis by (simp add: force_close_none)
next
  case (Some c)
  with assms have "\<not> tc_closed c" "tc_fd c = fd" by simp_all
  note sel = force_close_sel [OF Some this refl]
  show ?thesis by (auto simp: ev_local_def sel)
qed

lemma ev_local_upd [simp]:
  "ev_local w fd s (upd_ctx r f s)" "ev_local w fd s (update_event w fd evs s)" "ev_local w fd s (start_heartbeat_timer w fd s)"
  "ev_local w fd s (enqueue_task t s)"
  by (auto simp: ev_local_def update_event_def enqueue_task_def)

text \<open>The connection under the descriptor belongs to it.\<close>

definition own_fd :: "nat \<Rightarrow> int \<Rightarrow> ('t, 'm) server \<Rightarrow> bool" where
  "own_fd w fd s \<longleftrightarrow> (\<forall>c. conns s w fd = Some c \<longrightarrow> tc_fd c = fd \<and> \<not> tc_closed c)"

lemma own_fd_local: "own_fd w fd s \<Longrightarrow> ev_local w fd s s' \<Longrightarrow> own_fd w fd s'"
  by (auto simp: own_fd_def ev_local_def)

lemma ev_local_force: "own_fd w fd s \<Longrightarrow> ev_local w fd s (force_close_in_loop w fd s)"
  by (rule ev_local_close) (simp add: own_fd_def)

lemma ev_local_write: "own_fd w (tc_fd c) s \<Longrightarrow> ev_local w (tc_fd c) s (handle_write w c ws s)"
proof (induction w c ws s rule: handle_write.induct)
  case (1 w c ws s)
  let ?s1 = "\<lambda>n. upd_ctx (tc_ctx c) (\<lambda>x. x\<lparr>cc_send_buf := drop n (cc_send_buf x)\<rparr>) s"
  have "ev_local w (tc_fd c) s (handle_write w c ws' (?s1 n))"
    if "cc_send_buf (ctx_of s (tc_ctx c)) \<noteq> []" "ws = WOk n # ws'" "n \<noteq> 0" for n ws'
    using "1.IH" [OF that(1,2) refl that(3)] own_fd_local [OF "1.prems", of "?s1 n"] ev_local_trans [of w "tc_fd c" s "?s1 n"] by simp
  moreover have "ev_local w (tc_fd c) s (update_event w (tc_fd c) evs (upd_ctx r f s))" for evs r f
    using ev_local_trans [OF ev_local_upd(1) ev_local_upd(2)] .
  ultimately show ?case using ev_local_force [OF "1.prems"]
    by (subst handle_write.simps) (auto split: list.split write_result.split)
qed

lemma ev_local_read_socket: "own_fd w (tc_fd c) s \<Longrightarrow> ev_local w (tc_fd c) s (snd (read_socket w c rs s))"
proof (induction w c rs s rule: read_socket.induct)
  case (4 w c d rs s)
  let ?s1 = "start_heartbeat_timer w (tc_fd c)
      (upd_ctx (tc_ctx c) (\<lambda>x. update_time (sv_tick s div 1000) (x\<lparr>cc_recv_buf := cc_recv_buf x @ d\<rparr>)) s)"
  have step: "ev_local w (tc_fd c) s ?s1" using ev_local_trans [OF ev_local_upd(1) ev_local_upd(3)] .
  then show ?case
    using 4 own_fd_local [OF "4.prems" step] ev_local_trans [OF step] by (auto simp: ev_local_force)
qed (simp_all add: ev_local_force)

lemma ev_local_fold_enqueue:
  "ev_local w fd s (fold (\<lambda>(hdr, body). enqueue_task (TaskBusiness r hdr body)) ps s)"
proof (induction ps arbitrary: s)
  case (Cons p ps)
  have "ev_local w fd s (enqueue_task (TaskBusiness r (fst p) (snd p)) s)" by simp
  from ev_local_trans [OF this Cons.IH] show ?case by (simp add: case_prod_unfold)
qed simp

lemma ev_local_take_packets: "own_fd w (tc_fd c) s \<Longrightarrow> ev_local w (tc_fd c) s (take_packets w c s)"
proof -
  assume own: "own_fd w (tc_fd c) s"
  obtain ps rest ok where run: "read_packets (cc_recv_buf (ctx_of s (tc_ctx c))) = (ps, rest, ok)"
    by (cases "read_packets (cc_recv_buf (ctx_of s (tc_ctx c)))") auto
  let ?s1 = "fold (\<lambda>(hdr, body). enqueue_task (TaskBusiness (tc_ctx c) hdr body)) ps
      (upd_ctx (tc_ctx c) (\<lambda>x. x\<lparr>cc_recv_buf := rest\<rparr>) s)"
  have s1: "ev_local w (tc_fd c) s ?s1" using ev_local_trans [OF ev_local_upd(1) ev_local_fold_enqueue] .
  from ev_local_trans [OF s1 ev_local_force [OF own_fd_local [OF own s1]]] s1
  show ?thesis by (simp add: take_packets_def run Let_def)
qed

lemma ev_local_read: "own_fd w (tc_fd c) s \<Longrightarrow> ev_local w (tc_fd c) s (handle_read w c rs s)"
proof -
  assume own: "own_fd w (tc_fd c) s"
  note step = ev_local_read_socket [OF own, of rs]
  from ev_local_trans [OF step ev_local_take_packets [OF own_fd_local [OF own step]]] step
  show ?thesis by (auto simp: handle_read_def split: prod.split)
qed

lemma ev_local_events:
  assumes "own_fd w fd s"
  shows "ev_local w fd s (snd (handle_events w fd revents rs ws s))"
proof (cases "conns s w fd")
  case (Some c)
  with assms have c: "tc_fd c = fd" by (simp add: own_fd_def)
  have read: "ev_local w fd s (handle_read w c rs s)" using ev_local_read [of w c s rs] assms by (simp add: c)
  have wrote: "ev_local w fd s1 (handle_write w c' ws s1)" if "conns s1 w fd = Some c'" "own_fd w fd s1" for s1 c'
    using ev_local_write [of w c' s1 ws] that by (auto simp: own_fd_def)
  show ?thesis
    using Some assms read wrote [OF _ own_fd_local [OF assms read]] wrote [OF _ assms] ev_local_force [OF assms]
    by (auto simp: handle_events_def run_seqP run_bindP intro: ev_local_trans split: option.split)
qed (simp add: handle_events_def)

lemma reach_own_fd:
  assumes "reach X s"
  shows "own_fd w fd s"
  using conn_invD(1,2) [OF net_inv_conn [OF reach_net_inv [OF assms]]] by (simp add: own_fd_def)

text \<open>
  The events of one turn, one step each: an event is still possible after the others were handled. Either all of them are handled, or one of them
  faults in the state that those before it left.
\<close>

definition sock_event :: "nat \<Rightarrow> ready \<Rightarrow> event" where
  "sock_event w ev = (case ev of (fd, revents, rs, ws) \<Rightarrow> SocketEvent w fd revents rs ws)"

definition on_event :: "nat \<Rightarrow> ready \<Rightarrow> ('t, 'm, unit) sprog" where
  "on_event w ev = (case ev of (fd, revents, rs, ws) \<Rightarrow> handle_events w fd revents rs ws)"

lemma exec_sock_event: "exec X (sock_event w ev) = on_event w ev"
  by (cases ev) (simp add: sock_event_def on_event_def)

lemma handle_events_outcome: "fst (handle_events w fd revents rs ws s) = Val () \<or> fst (handle_events w fd revents rs ws s) = Crash UseAfterFree"
  by (auto simp: handle_events_def run_bindP run_seqP split: option.split)

lemma still_enabled:
  assumes "reach X s" "w_running (sv_worker s w) = []" "fst ev \<notin> fst ` set evs"
    and "\<forall>e \<in> set evs. enabled (sock_event w e) s" "on_event w ev s = (res, s1)"
  shows "w_running (sv_worker s1 w) = []" "\<forall>e \<in> set evs. enabled (sock_event w e) s1"
proof -
  obtain fd revents rs ws where ev: "ev = (fd, revents, rs, ws)" by (cases ev)
  have loc: "ev_local w fd s s1"
    using ev_local_events [OF reach_own_fd [OF assms(1)], of w fd revents rs ws] assms(5) by (simp add: ev on_event_def)
  show run1: "w_running (sv_worker s1 w) = []" using loc assms(2) by (simp add: ev_local_def)
  show "\<forall>e \<in> set evs. enabled (sock_event w e) s1"
  proof
    fix e
    assume mem: "e \<in> set evs"
    obtain fd' r a b where e: "e = (fd', r, a, b)" by (cases e)
    have "fd' \<noteq> fd" using assms(3) mem by (force simp: ev e)
    then have "w_epoll (sv_worker s1 w) fd' = w_epoll (sv_worker s w) fd'" using loc by (simp add: ev_local_def)
    moreover have "enabled (sock_event w e) s" using assms(4) mem by blast
    ultimately show "enabled (sock_event w e) s1" using run1 by (simp add: e sock_event_def)
  qed
qed

definition faults_at :: "('j, 't, 'm) externals \<Rightarrow> nat \<Rightarrow> ready list \<Rightarrow> ('t, 'm) server \<Rightarrow> ('t, 'm) server \<Rightarrow> bool" where
  "faults_at X w evs s t \<longleftrightarrow> (\<exists>before ev after s1. evs = before @ ev # after \<and> runs X (map (sock_event w) before) s = Some s1 \<and>
     exec X (sock_event w ev) s1 = (Crash UseAfterFree, t))"

lemma turn_events:
  assumes "reach X s" "w_running (sv_worker s w) = []" "distinct (map fst evs)" "\<forall>e \<in> set evs. enabled (sock_event w e) s"
  shows "(\<exists>s1. forP evs (on_event w) s = (Val (), s1) \<and> runs X (map (sock_event w) evs) s = Some s1 \<and> w_running (sv_worker s1 w) = []) \<or>
    (\<exists>t. forP evs (on_event w) s = (Crash UseAfterFree, t) \<and> faults_at X w evs s t)"
  using assms
proof (induction evs arbitrary: s)
  case (Cons ev evs)
  obtain res s1 where s1: "on_event w ev s = (res, s1)" by fastforce
  have en: "enabled (sock_event w ev) s" using Cons.prems(4) by simp
  have fresh: "fst ev \<notin> fst ` set evs" using Cons.prems(3) by simp
  have "res = Val () \<or> res = Crash UseAfterFree"
    using handle_events_outcome [of w "fst ev" "fst (snd ev)" "fst (snd (snd ev))" "snd (snd (snd ev))" s] s1
    by (simp add: on_event_def case_prod_unfold)
  then show ?case
  proof
    assume "res = Crash UseAfterFree"
    then have "faults_at X w (ev # evs) s s1"
      using s1 unfolding faults_at_def by (intro exI [of _ "[]"] exI [of _ ev] exI [of _ evs] exI [of _ s]) (simp add: exec_sock_event)
    with s1 \<open>res = Crash UseAfterFree\<close> show ?thesis by (simp add: run_seqP)
  next
    assume res: "res = Val ()"
    have "reach X s1" by (rule reach.step [OF Cons.prems(1) en]) (simp add: exec_sock_event s1 res)
    moreover have "w_running (sv_worker s1 w) = []" "\<forall>e \<in> set evs. enabled (sock_event w e) s1"
      using still_enabled [OF Cons.prems(1,2) fresh _ s1] Cons.prems(4) by simp_all
    ultimately have IH: "(\<exists>s2. forP evs (on_event w) s1 = (Val (), s2) \<and> runs X (map (sock_event w) evs) s1 = Some s2 \<and> w_running (sv_worker s2 w) = []) \<or>
        (\<exists>t. forP evs (on_event w) s1 = (Crash UseAfterFree, t) \<and> faults_at X w evs s1 t)"
      using Cons.prems(3) by (intro Cons.IH) simp_all
    have step: "runs X (sock_event w ev # es) s = runs X es s1" for es using en s1 res by (simp add: exec_sock_event)
    have "faults_at X w (ev # evs) s t" if f: "faults_at X w evs s1 t" for t
    proof -
      from f obtain before e after s2 where "evs = before @ e # after" "runs X (map (sock_event w) before) s1 = Some s2"
        "exec X (sock_event w e) s2 = (Crash UseAfterFree, t)" unfolding faults_at_def by blast
      then show ?thesis unfolding faults_at_def using step
        by (intro exI [of _ "ev # before"] exI [of _ e] exI [of _ after] exI [of _ s2]) simp
    qed
    with IH show ?thesis using s1 res step by (auto simp: run_seqP)
  qed
qed simp

lemma turn_timers:
  assumes "reach X s" "w_running (sv_worker s w) = []"
  shows "reach X (check_timers n w s) \<and> w_running (sv_worker (check_timers n w s) w) = []"
  using assms
proof (induction n arbitrary: s)
  case (Suc n)
  have "w_running (sv_worker (snd (check_timer w s)) w) = []"
  proof (cases "CheckTimer (sv_tick s) (w_timer (sv_worker s w))")
    case (Some a)
    obtain k fd t where a: "a = (k, fd, t)" by (cases a)
    have "own_fd w fd (upd_worker w (\<lambda>wk. wk\<lparr>w_timer := t\<rparr>) s)" using reach_own_fd [OF Suc.prems(1), of w fd] by (simp add: own_fd_def)
    from ev_local_force [OF this] Suc.prems(2) show ?thesis by (simp add: check_timer_def Some a ev_local_def)
  qed (simp add: check_timer_def Suc.prems(2))
  moreover have "reach X (snd (check_timer w s))"
    by (rule reach.step [of X s "TimerCheck w"]) (simp_all add: Suc.prems)
  ultimately show ?case using Suc.IH [of "snd (check_timer w s)"] by (simp add: case_prod_unfold)
qed simp

lemma running_next:
  assumes "reach X s"
  shows "w_running (sv_worker (run_next_functor w s) w) = tl (w_running (sv_worker s w))"
proof (cases "w_running (sv_worker s w)")
  case (Cons f fs)
  let ?s = "upd_worker w (\<lambda>wk. wk\<lparr>w_running := fs\<rparr>) s"
  have own: "own_fd w fd ?s" for fd using reach_own_fd [OF assms, of w fd] by (simp add: own_fd_def)
  have "w_running (sv_worker (run_functor w f ?s) w) = fs"
  proof (cases f)
    case (FnClose fd)
    then show ?thesis using ev_local_force [OF own] by (simp add: ev_local_def)
  qed (auto simp: add_connection_in_loop_def new_TcpConnection_def conn_start_def destroy_TcpConnection_def send_packet_in_loop_def
      send_def queue_close_connection_def queue_in_loop_def update_event_def Let_def split: option.split prod.split)
  then show ?thesis by (simp add: run_next_functor_def Cons)
qed (simp add: run_next_functor_def)

text \<open>The timers: the loop ends with none that is due, because every round takes one off.\<close>

lemma tset_erase_shorter: "length (tset_erase k xs) \<le> length xs"
  by (induction k xs rule: tset_erase.induct) auto

lemma DelTimer_shorter: "length (timermap (snd (DelTimer k t))) \<le> length (timermap t)"
  using tset_erase_shorter by (auto simp: DelTimer_def)

lemma check_timer_shorter:
  assumes "fst (check_timer w s)"
  shows "length (timermap (w_timer (sv_worker (snd (check_timer w s)) w))) < length (timermap (w_timer (sv_worker s w)))"
proof -
  obtain k fd t where t: "CheckTimer (sv_tick s) (w_timer (sv_worker s w)) = Some (k, fd, t)"
    using assms by (auto simp: check_timer_def split: option.splits)
  then have short: "length (timermap t) < length (timermap (w_timer (sv_worker s w)))"
    by (auto simp: CheckTimer_def split: list.splits if_splits)
  have "length (timermap (w_timer (sv_worker (force_close_in_loop w fd u) w))) \<le> length (timermap (w_timer (sv_worker u w)))" for u :: "('a, 'b) server"
    using DelTimer_shorter by (auto simp: close_defs cancel_heartbeat_timer_def split: option.split prod.split)
  from this [of "upd_worker w (\<lambda>wk. wk\<lparr>w_timer := t\<rparr>) s"] short show ?thesis by (simp add: check_timer_def t)
qed

lemma check_timers_end:
  "length (timermap (w_timer (sv_worker s w))) \<le> n \<Longrightarrow> \<not> fst (check_timer w (check_timers n w s))"
proof (induction n arbitrary: s)
  case 0
  then show ?case by (simp add: check_timer_def CheckTimer_def)
next
  case (Suc n)
  show ?case
  proof (cases "fst (check_timer w s)")
    case True
    then have "length (timermap (w_timer (sv_worker (snd (check_timer w s)) w))) \<le> n" using check_timer_shorter [OF True] Suc.prems by simp
    from Suc.IH [OF this] True show ?thesis by (simp add: case_prod_unfold)
  next
    case False
    then have "snd (check_timer w s) = s" by (auto simp: check_timer_def split: option.splits)
    with False show ?thesis by (simp add: case_prod_unfold)
  qed
qed

lemma runs_timers:
  assumes "reach X s" "w_running (sv_worker s w) = []"
  shows "\<exists>k. runs X (replicate k (TimerCheck w)) s = Some (check_timers n w s)"
  using assms
proof (induction n arbitrary: s)
  case 0
  show ?case by (intro exI [of _ 0]) simp
next
  case (Suc n)
  let ?s1 = "snd (check_timer w s)"
  have "reach X ?s1" by (rule reach.step [of X s "TimerCheck w"]) (simp_all add: Suc.prems)
  moreover have "w_running (sv_worker ?s1 w) = []" using turn_timers [OF Suc.prems, of 1] by (auto simp: case_prod_unfold split: if_splits)
  ultimately obtain k where "runs X (replicate k (TimerCheck w)) ?s1 = Some (check_timers n w ?s1)" using Suc.IH by blast
  then show ?case using Suc.prems(2)
    by (cases "fst (check_timer w s)") (auto simp: case_prod_unfold intro: exI [of _ "Suc k"] exI [of _ "Suc 0"])
qed

text \<open>The functors: those that were queued at the swap, each once.\<close>

lemma runs_functors: "runs X (replicate n (RunFunctor w)) s = Some ((run_next_functor w ^^ n) s)"
  by (induction n arbitrary: s) (simp_all add: funpow_swap1)

lemma turn_functors:
  assumes "reach X s" "w_running (sv_worker s w) = []"
  shows "runs X (SwapFunctors w # replicate (length (w_pending (sv_worker s w))) (RunFunctor w)) s = Some (do_pending_functors w s)"
    "w_running (sv_worker (do_pending_functors w s) w) = []"
proof -
  have swap: "w_running (sv_worker (swap_functors w s) w) = w_pending (sv_worker s w)" by (simp add: swap_functors_def)
  show "runs X (SwapFunctors w # replicate (length (w_pending (sv_worker s w))) (RunFunctor w)) s = Some (do_pending_functors w s)"
    using assms(2) by (simp add: runs_functors do_pending_functors_def Let_def swap)
  have "reach X ((run_next_functor w ^^ n) s1) \<and> w_running (sv_worker ((run_next_functor w ^^ n) s1) w) = drop n (w_running (sv_worker s1 w))"
    if "reach X s1" for n s1
  proof (induction n)
    case (Suc n)
    have "reach X (run_next_functor w ((run_next_functor w ^^ n) s1))"
      by (rule reach.step [of X "(run_next_functor w ^^ n) s1" "RunFunctor w"]) (simp_all add: Suc)
    then show ?case using Suc by (simp add: running_next [of X] drop_Suc tl_drop)
  qed (simp add: that)
  moreover have "reach X (swap_functors w s)" by (rule reach.step [of X s "SwapFunctors w"]) (simp_all add: assms)
  ultimately show "w_running (sv_worker (do_pending_functors w s) w) = []" by (simp add: do_pending_functors_def Let_def)
qed

text \<open>
  C10. The event loop is covered by the step relation: a turn of a worker's loop, on any set of events that epoll can report and whatever
  the sockets answer, is a sequence of steps of the system: one for each event, then checks of the timers until none is due, then the swap and one step
  for each functor that was queued. It ends in a reachable state, with no functor left half done, unless an event faults (a use
  after free, see the claim on \<open>handle_events\<close>); then it is the first such event, after steps for the events before it. So every invariant of the reachable states holds
  between the turns of the loop as it is written.
\<close>

theorem loop_turn_simulated:
  assumes "reach X s" "w_running (sv_worker s w) = []" "distinct (map fst evs)"
    and "\<forall>(fd, revents, rs, ws) \<in> set evs. enabled (SocketEvent w fd revents rs ws) s"
  shows "(\<exists>s1 k s2 s'. loop_turn w evs s = (Val (), s') \<and>
      runs X (map (\<lambda>(fd, revents, rs, ws). SocketEvent w fd revents rs ws) evs) s = Some s1 \<and>
      runs X (replicate k (TimerCheck w)) s1 = Some s2 \<and> \<not> fst (check_timer w s2) \<and>
      runs X (SwapFunctors w # replicate (length (w_pending (sv_worker s2 w))) (RunFunctor w)) s2 = Some s' \<and>
      reach X s' \<and> w_running (sv_worker s' w) = []) \<or>
    (\<exists>before fd revents rs ws after s1 t. evs = before @ (fd, revents, rs, ws) # after \<and>
      runs X (map (\<lambda>(fd, revents, rs, ws). SocketEvent w fd revents rs ws) before) s = Some s1 \<and>
      exec X (SocketEvent w fd revents rs ws) s1 = (Crash UseAfterFree, t) \<and> loop_turn w evs s = (Crash UseAfterFree, t))"
proof -
  have sock: "(\<lambda>(fd, revents, rs, ws). SocketEvent w fd revents rs ws) = sock_event w"
    "(\<lambda>(fd, revents, rs, ws). handle_events w fd revents rs ws) = (on_event w :: ready \<Rightarrow> ('b, 'c, unit) sprog)"
    by (simp_all add: fun_eq_iff sock_event_def on_event_def)
  have en: "\<forall>e \<in> set evs. enabled (sock_event w e) s" using assms(4) by (auto simp: sock_event_def)
  from turn_events [OF assms(1-3) en] consider
      s1 where "forP evs (on_event w) s = (Val (), s1)" "runs X (map (sock_event w) evs) s = Some s1" "w_running (sv_worker s1 w) = []"
    | t where "forP evs (on_event w) s = (Crash UseAfterFree, t)" "faults_at X w evs s t" by blast
  then show ?thesis
  proof cases
    case (1 s1)
    let ?n = "length (timermap (w_timer (sv_worker s1 w)))"
    let ?s2 = "check_timers ?n w s1"
    have r1: "reach X s1" by (rule reach_runs [OF 1(2) assms(1)])
    note s2 = turn_timers [OF r1 1(3), of ?n] and k = runs_timers [OF r1 1(3), of ?n]
    note functors = turn_functors [of X ?s2 w, OF conjunct1 [OF s2] conjunct2 [OF s2]]
    have "loop_turn w evs s = (Val (), do_pending_functors w ?s2)" by (simp add: loop_turn_def sock run_seqP 1(1))
    moreover have "reach X (do_pending_functors w ?s2)" using reach_runs [OF functors(1)] s2 by blast
    ultimately show ?thesis unfolding sock using 1(2) k check_timers_end [OF order_refl] functors by blast
  next
    case (2 t)
    have "loop_turn w evs s = (Crash UseAfterFree, t)" by (simp add: loop_turn_def sock run_seqP 2(1))
    with 2(2) show ?thesis unfolding sock faults_at_def by (intro disjI2) (fastforce simp: sock_event_def)
  qed
qed

theorem loop_turn_simulated_witness:
  "\<exists>s'. loop_turn 0 [(5, EPOLLIN, [RData ping, RAgain], [])] demo_one = (Val (), s') \<and> reach externals_ref s' \<and>
     tasks (sv_pool s') = [TaskBusiness 0 ping_hdr []]"
proof -
  have "\<exists>s'. loop_turn 0 [(5, EPOLLIN, [RData ping, RAgain], [])] demo_one = (Val (), s') \<and>
      tasks (sv_pool s') = [TaskBusiness 0 ping_hdr []]"
    by (simp add: loop_turn_def do_pending_functors_def demo_one_eval step_defs event_bits demo_conn_def new_ClientContext_def read_ping
        new_pool_def demo_settings check_timer_def CheckTimer_def)
  then obtain s' where s': "loop_turn 0 [(5, EPOLLIN, [RData ping, RAgain], [])] demo_one = (Val (), s')"
    and t: "tasks (sv_pool s') = [TaskBusiness 0 ping_hdr []]" by blast
  have "\<forall>(fd, revents, rs, ws) \<in> set [(5, EPOLLIN, [RData ping, RAgain], [])]. enabled (SocketEvent 0 fd revents rs ws) demo_one"
    by (simp add: demo_one_eval event_bits)
  moreover have "w_running (sv_worker demo_one 0) = []" by (simp add: demo_one_eval)
  ultimately have "reach externals_ref s'"
    using loop_turn_simulated [OF reach_demo_one, of 0 "[(5, EPOLLIN, [RData ping, RAgain], [])]" externals_ref] s' by auto
  with s' t show ?thesis by blast
qed

section \<open>Accepting connections\<close>

text \<open>
  The constructor of \<open>Acceptor\<close>: what the server listens on afterwards, with which backlog. The results of \<open>socket\<close>, \<open>bind\<close> and \<open>listen\<close> are not looked
  at; a socket that could not be bound listens on a port that the kernel chooses (\<open>spare\<close>). The \<open>int\<close> setting becomes a 16-bit port.
\<close>

definition listen_port :: "env \<Rightarrow> u16" where
  "listen_port env = word_of_int (PORT env)"

definition new_Acceptor :: "bool \<Rightarrow> bool \<Rightarrow> bool \<Rightarrow> u16 \<Rightarrow> env \<Rightarrow> u16 \<Rightarrow> (u16 \<times> int) option" where
  "new_Acceptor sock_ok bind_ok listen_ok spare env port =
     (if \<not> sock_ok \<or> \<not> listen_ok then None else Some (if bind_ok then port else spare, BACKLOG env))"

text \<open>
  \<open>main\<close> up to its loop: it returns 1 if the log cannot be set up; otherwise everything is built, and it goes on whatever the acceptor came to.
\<close>

definition main_start ::
  "bool \<Rightarrow> env \<Rightarrow> nat \<Rightarrow> int \<Rightarrow> int \<Rightarrow> ('t, 'm) db \<Rightarrow> (u16 \<Rightarrow> (u16 \<times> int) option) \<Rightarrow> int + (('t, 'm) server \<times> (u16 \<times> int) option)" where
  "main_start log_ok env hw tick wall db acceptor =
     (if \<not> log_ok then Inl 1 else Inr (boot env hw tick wall db, acceptor (listen_port env)))"

lemma listen_port_exact: "int (unat (listen_port env)) = PORT env \<longleftrightarrow> 0 \<le> PORT env \<and> PORT env < 65536"
proof -
  have "int (unat (listen_port env)) = PORT env mod 65536" by (simp add: listen_port_def unsigned_of_int take_bit_eq_mod)
  moreover have "p mod 65536 = p \<longleftrightarrow> 0 \<le> p \<and> p < 65536" for p :: int
    using pos_mod_sign [of 65536 p] pos_mod_bound [of 65536 p] mod_pos_pos_trivial [of p 65536] by linarith
  ultimately show ?thesis by simp
qed

text \<open>A server that could not bind its port runs all the same, and listens elsewhere.\<close>

lemma bind_failure_ignored:
  "main_start True env hw tick wall db (new_Acceptor True False True spare env) =
     Inr (boot env hw tick wall db, Some (spare, BACKLOG env))"
  by (simp add: main_start_def new_Acceptor_def)

text \<open>
  \<open>Acceptor::handle_accept\<close> with the callback of \<open>main\<close>: \<open>accept4\<close> yields the waiting connections until there are none
  (a negative result), and the callback gives each to the next worker. The state is the counter \<open>rr\<close> and the
  server.
\<close>

fun handle_accept :: "int \<Rightarrow> (int \<times> string \<times> u16) list \<Rightarrow> (u32 \<times> ('t, 'm) server, unit) prog" where
  "handle_accept worker_num [] = ret ()"
| "handle_accept worker_num ((fd, ip, port) # rest) = (\<lambda>(rr, s).
     if fd < 0 then (Val (), (rr, s))
     else case pick_worker rr worker_num of
       Inl c \<Rightarrow> (Crash c, (rr, s))
     | Inr (w, rr') \<Rightarrow> handle_accept worker_num rest
         (rr', queue_add_connection w fd ip port (s\<lparr>sv_open := insert fd (sv_open s)\<rparr>)))"

text \<open>
  The loop of \<open>main\<close>: each \<open>epoll_wait\<close> reports some events, and each event calls \<open>handle_accept\<close>. The rounds are those until a signal clears
  \<open>g_running\<close>; a round without events is a timeout.
\<close>

definition main_loop :: "int \<Rightarrow> (int \<times> string \<times> u16) list list list \<Rightarrow> (u32 \<times> ('t, 'm) server, unit) prog" where
  "main_loop worker_num rounds = forP rounds (\<lambda>evs. forP evs (handle_accept worker_num))"

text \<open>What \<open>accept4\<close> yields before it fails.\<close>

definition arrivals :: "(int \<times> string \<times> u16) list list list \<Rightarrow> (int \<times> string \<times> u16) list" where
  "arrivals rounds = concat (map (takeWhile (\<lambda>c. 0 \<le> fst c)) (concat rounds))"

lemma handle_accept_append:
  "seqP (handle_accept n as) (handle_accept n bs) = handle_accept n (takeWhile (\<lambda>c. 0 \<le> fst c) as @ bs)"
proof (induction as)
  case (Cons c as)
  obtain fd ip port where c: "c = (fd, ip, port)" by (cases c)
  show ?case
  proof
    fix x :: "u32 \<times> ('a, 'b) server"
    obtain rr s where x: "x = (rr, s)" by fastforce
    show "seqP (handle_accept n (c # as)) (handle_accept n bs) x = handle_accept n (takeWhile (\<lambda>c. 0 \<le> fst c) (c # as) @ bs) x"
      using Cons.IH by (auto simp: c x run_seqP fun_eq_iff split: sum.split prod.split)
  qed
qed (simp add: fun_eq_iff run_seqP)

lemma accept_events: "forP evs (handle_accept n) = handle_accept n (concat (map (takeWhile (\<lambda>c. 0 \<le> fst c)) evs))"
  by (induction evs) (simp_all add: handle_accept_append)

lemma main_loop_arrivals: "main_loop n rounds = handle_accept n (arrivals rounds)"
proof -
  have "main_loop n rounds = forP (concat rounds) (handle_accept n)"
    unfolding main_loop_def by (induction rounds) (simp_all add: forP_append)
  then show ?thesis by (simp add: accept_events arrivals_def)
qed

text \<open>The connections that worker \<open>w\<close> of \<open>n\<close> gets, when the counter is at \<open>i\<close>.\<close>

fun share :: "nat \<Rightarrow> nat \<Rightarrow> nat \<Rightarrow> (int \<times> string \<times> u16) list \<Rightarrow> loop_fn list" where
  "share n w i [] = []"
| "share n w i ((fd, ip, port) # rest) = (if i mod n = w then FnAddConn fd ip port # share n w (i + 1) rest else share n w (i + 1) rest)"

lemma pick_worker_run:
  assumes "0 < n" "n < 2 ^ 31"
  shows "pick_worker rr (int n) = Inr (unat rr mod n, rr + 1)"
proof -
  have "unat (word_of_nat n :: u32) = n" using assms by (simp add: unat_of_nat)
  moreover from this assms have "(word_of_nat n :: u32) \<noteq> 0" by (metis less_numeral_extra(3) unat_0)
  ultimately show ?thesis by (simp add: pick_worker_def unat_mod_distrib)
qed

lemma handle_accept_shares:
  assumes "0 < n" "n < 2 ^ 31" "unat rr + length cs < 2 ^ 32" "\<forall>c \<in> set cs. 0 \<le> fst c"
  shows "\<exists>s'. handle_accept (int n) cs (rr, s) = (Val (), (rr + of_nat (length cs), s')) \<and>
    sv_open s' = sv_open s \<union> fst ` set cs \<and>
    (\<forall>w. w_pending (sv_worker s' w) = w_pending (sv_worker s w) @ share n w (unat rr) cs)"
  using assms(3,4)
proof (induction cs arbitrary: rr s)
  case (Cons c cs)
  obtain fd ip port where c: "c = (fd, ip, port)" by (cases c)
  let ?s1 = "queue_add_connection (unat rr mod n) fd ip port (s\<lparr>sv_open := insert fd (sv_open s)\<rparr>)"
  have next_rr: "unat (rr + 1) = unat rr + 1" using Cons.prems(1) by (simp add: unat_word_ariths)
  have "unat (rr + 1) + length cs < 2 ^ 32" "\<forall>c \<in> set cs. 0 \<le> fst c"
    using Cons.prems by (simp_all add: next_rr)
  from Cons.IH [OF this, of ?s1] obtain s' where
    s': "handle_accept (int n) cs (rr + 1, ?s1) = (Val (), (rr + 1 + of_nat (length cs), s'))"
      "sv_open s' = insert fd (sv_open s) \<union> fst ` set cs"
      "\<And>w. w_pending (sv_worker s' w) = w_pending (sv_worker ?s1 w) @ share n w (unat rr + 1) cs"
    by (auto simp: queue_add_connection_def queue_in_loop_def next_rr)
  have "w_pending (sv_worker s' w) = w_pending (sv_worker s w) @ share n w (unat rr) (c # cs)" for w
    unfolding s'(3) by (simp add: c queue_add_connection_def queue_in_loop_def)
  moreover have "handle_accept (int n) (c # cs) (rr, s) = (Val (), (rr + of_nat (length (c # cs)), s'))"
    using Cons.prems(2) s'(1) by (simp add: c pick_worker_run [OF assms(1,2)] add.assoc)
  ultimately show ?case using s'(2) by (auto simp: c)
qed simp

text \<open>
  C30. New connections are spread evenly: \<open>main\<close> gives the connections that it accepts, in all the rounds of its loop, to the workers in turn, so that
  worker \<open>w\<close> of \<open>n\<close> gets exactly those at the positions \<open>w\<close> modulo \<open>n\<close>, in order, and no connection is lost, as long as the
  32-bit counter does not wrap around.
\<close>

theorem accept_round_robin:
  assumes "0 < n" "n < 2 ^ 31" "length (arrivals rounds) < 2 ^ 32"
  shows "\<exists>s'. main_loop (int n) rounds (0, s) = (Val (), (of_nat (length (arrivals rounds)), s')) \<and>
    sv_open s' = sv_open s \<union> fst ` set (arrivals rounds) \<and>
    (\<forall>w. w_pending (sv_worker s' w) = w_pending (sv_worker s w) @ share n w 0 (arrivals rounds))"
proof -
  have "\<forall>c \<in> set (arrivals rounds). 0 \<le> fst c" by (auto simp: arrivals_def dest!: set_takeWhileD)
  then show ?thesis using handle_accept_shares [OF assms(1,2), of 0 "arrivals rounds" s] assms(3) by (simp add: main_loop_arrivals)
qed

theorem accept_round_robin_witness:
  "\<exists>s'. main_loop (2 :: int) [[[(7, ''10.0.0.1'', 1000), (8, ''10.0.0.2'', 1001), (-1, [], 0)]], [], [[(9, ''10.0.0.3'', 1002), (-1, [], 0)]]] (0, demo_boot) =
     (Val (), (3, s')) \<and> w_pending (sv_worker s' 0) = w_pending (sv_worker demo_boot 0) @ [FnAddConn 7 ''10.0.0.1'' 1000, FnAddConn 9 ''10.0.0.3'' 1002] \<and>
     w_pending (sv_worker s' 1) = w_pending (sv_worker demo_boot 1) @ [FnAddConn 8 ''10.0.0.2'' 1001]"
  using accept_round_robin [of 2 "[[[(7, ''10.0.0.1'', 1000), (8, ''10.0.0.2'', 1001), (-1, [], 0)]], [], [[(9, ''10.0.0.3'', 1002), (-1, [], 0)]]]" demo_boot]
  by (auto simp: arrivals_def)

end
