(* ===== verification/End_To_End.thy ===== *)
theory End_To_End
  imports Demo_Pair Main_Loop
begin

text \<open>
  A chat message from one user's keyboard to another user's screen: the composition of the client that sends, the network, the
  worker that reads, the business layer, the worker that writes, and the client that receives.
\<close>

unbundle bit_operations_syntax

section \<open>What reading leaves alone\<close>

text \<open>
  The state after the reads of an event that delivered \<open>bytes\<close> and did not end the stream: the receive buffer has grown, the
  connection is marked as alive, and the rest is as before.
\<close>

definition after_input :: "ctx_ref \<Rightarrow> string \<Rightarrow> ('t, 'm) server \<Rightarrow> ('t, 'm) server \<Rightarrow> bool" where
  "after_input r recv s s' \<longleftrightarrow>
     sv_env s' = sv_env s \<and> sv_tick s' = sv_tick s \<and> sv_wall s' = sv_wall s \<and> sv_sessions s' = sv_sessions s \<and> sv_db s' = sv_db s \<and>
     (\<forall>w. conns s' w = conns s w) \<and> (\<forall>w. w_pending (sv_worker s' w) = w_pending (sv_worker s w)) \<and>
     (\<forall>w. w_running (sv_worker s' w) = w_running (sv_worker s w)) \<and>
     (\<exists>l. ctx_of s' r = (ctx_of s r)\<lparr>cc_recv_buf := recv, cc_last_active := l\<rparr>) \<and>
     (\<forall>x. x \<noteq> r \<longrightarrow> ctx_of s' x = ctx_of s x)"

lemma after_inputD:
  assumes "after_input r recv s s'"
  shows "sv_env s' = sv_env s" "sv_tick s' = sv_tick s" "sv_sessions s' = sv_sessions s" "sv_db s' = sv_db s"
    "conns s' w = conns s w" "w_pending (sv_worker s' w) = w_pending (sv_worker s w)"
    "w_running (sv_worker s' w) = w_running (sv_worker s w)" "x \<noteq> r \<Longrightarrow> ctx_of s' x = ctx_of s x"
    "cc_recv_buf (ctx_of s' r) = recv" "cc_send_buf (ctx_of s' x) = cc_send_buf (ctx_of s x)" "cc_fd (ctx_of s' x) = cc_fd (ctx_of s x)"
    "cc_uid (ctx_of s' x) = cc_uid (ctx_of s x)" "cc_owner_worker (ctx_of s' x) = cc_owner_worker (ctx_of s x)"
    "cc_rate_window_start (ctx_of s' x) = cc_rate_window_start (ctx_of s x)"
    "cc_rate_msg_count (ctx_of s' x) = cc_rate_msg_count (ctx_of s x)"
  using assms unfolding after_input_def by (cases "x = r"; auto)+

lemma read_socket_input:
  "input_of rs = (bytes, False) \<Longrightarrow>
   fst (read_socket w c rs s) \<and> after_input (tc_ctx c) (cc_recv_buf (ctx_of s (tc_ctx c)) @ bytes) s (snd (read_socket w c rs s))"
proof (induction w c rs s arbitrary: bytes rule: read_socket.induct)
  case (1 w c s)
  then show ?case by (simp add: after_input_def) (metis ClientContext.surjective ClientContext.update_convs(4,5))
next
  case (2 w c rs s)
  then show ?case by (simp add: after_input_def) (metis ClientContext.surjective ClientContext.update_convs(4,5))
next
  case (4 w c d rs s)
  then obtain bytes' where i: "d \<noteq> []" "input_of rs = (bytes', False)" "bytes = d @ bytes'" by (auto split: if_splits prod.splits)
  from "4.IH" [OF i(1,2)] show ?case using i(1,3) by (simp add: after_input_def update_time_def)
qed simp

lemma swap_fields: "x\<lparr>cc_last_active := l, cc_recv_buf := b\<rparr> = x\<lparr>cc_recv_buf := b, cc_last_active := l\<rparr>"
  by simp

lemma after_input_enqueue: "after_input r recv s s' \<Longrightarrow> after_input r recv s (enqueue_task t s')"
  by (simp add: after_input_def enqueue_task_def)

lemma after_input_fold:
  "after_input r recv s s' \<Longrightarrow> after_input r recv s (fold (\<lambda>(hdr, body). enqueue_task (TaskBusiness r' hdr body)) ps s')"
  by (induction ps arbitrary: s') (auto intro: after_input_enqueue)

lemma handle_read_input:
  assumes "input_of rs = (bytes, False)" "read_packets (cc_recv_buf (ctx_of s (tc_ctx c)) @ bytes) = (ps, rest, True)"
  shows "after_input (tc_ctx c) rest s (handle_read w c rs s)"
proof -
  obtain s1 where s1: "read_socket w c rs s = (True, s1)" "after_input (tc_ctx c) (cc_recv_buf (ctx_of s (tc_ctx c)) @ bytes) s s1"
    using read_socket_input [OF assms(1), of w c s] by (cases "read_socket w c rs s") auto
  have "after_input (tc_ctx c) rest s (upd_ctx (tc_ctx c) (\<lambda>x. x\<lparr>cc_recv_buf := rest\<rparr>) s1)"
    using s1(2) by (auto simp: after_input_def swap_fields)
  from after_input_fold [OF this] show ?thesis
    using assms(2) after_inputD(9) [OF s1(2)] by (simp add: handle_read_def s1(1) take_packets_def Let_def)
qed

section \<open>The server\<close>

lemma rate_count: "cc_rate_msg_count (rate_update win now c) =
    (if cc_rate_window_start c = 0 \<or> now - cc_rate_window_start c > win then 1 else cc_rate_msg_count c + 1)"
  by (simp add: rate_update_def Let_def)

text \<open>A chat packet comes in and is handled: what is queued where.\<close>

lemma chat_taken:
  assumes "reach X s" "conns s wa fa = Some ca" "w_running (sv_worker s wa) = []" "tasks (sv_pool s) = []"
    and "cc_recv_buf (ctx_of s (tc_ctx ca)) = []" "input_of rs = (make_packet (cmd_code CHAT) n body, False)" "length body \<le> 65535"
    and "sv_db s = Some d" "parse_ChatMessage (x_codec X) body = Some msg" "cm_to_uid msg \<noteq> 9999"
    and "cc_owner_worker (ctx_of s (tc_ctx ca)) = Some wa" "session_get (sv_sessions s) (cm_to_uid msg) = Some t"
    and "cc_owner_worker (ctx_of s t) = Some wb" "cc_uid (ctx_of s (tc_ctx ca)) = u"
    and "cc_rate_msg_count (ctx_of (rated (tc_ctx ca) s) (tc_ctx ca)) \<le> RATE_LIMIT_MSGS (sv_env s)"
  shows "\<exists>s'. runs X [SocketEvent wa fa EPOLLIN rs [], RunTask] s = Some s' \<and> sv_env s' = sv_env s \<and> (\<forall>w. conns s' w = conns s w) \<and>
    (\<forall>w fd. conns s w fd \<noteq> None \<longrightarrow> still_open X w fd [SocketEvent wa fa EPOLLIN rs [], RunTask] s) \<and>
    (\<forall>w. w_running (sv_worker s' w) = w_running (sv_worker s w)) \<and>
    (\<forall>x. cc_send_buf (ctx_of s' x) = cc_send_buf (ctx_of s x) \<and> cc_fd (ctx_of s' x) = cc_fd (ctx_of s x)) \<and>
    (\<forall>w. w_pending (sv_worker s' w) = w_pending (sv_worker s w) @
       (if w = wb then [FnSendPacket t (cmd_code CHAT) 0 (ser_ChatMessage (x_codec X) (msg\<lparr>cm_from_uid := u\<rparr>))] else []) @
       (if w = wa then [FnSendPacket (tc_ctx ca) (cmd_code ACK) n
          (ser_Response (x_codec X) (success u (txt_sent_to @ to_string (cm_to_uid msg))))] else []))"
proof -
  note inv = reach_net_inv [OF assms(1)]
  let ?hdr = "\<lparr>magic = PROTO_MAGIC, body_len = of_nat (length body), cmd = cmd_code CHAT, seq = n\<rparr>"
  let ?s1 = "handle_read wa ca rs s" and ?ra = "tc_ctx ca"
  have rd: "read_packets (cc_recv_buf (ctx_of s ?ra) @ make_packet (cmd_code CHAT) n body) = ([(?hdr, body)], [], True)"
    using read_packets_wire [of "[(cmd_code CHAT, n, body)]"] assms(5,7) by (simp add: wire_def received_def)
  have in1: "after_input ?ra [] s ?s1" by (rule handle_read_input [OF assms(6) rd])
  note f1 = after_inputD [OF in1]
  have t1: "tasks (sv_pool ?s1) = [TaskBusiness ?ra ?hdr body]"
  proof -
    obtain go_on s1 where r: "read_socket wa ca rs s = (go_on, s1)" by fastforce
    note eff = read_socket_effect [OF inv assms(2,6), unfolded r] and inv1 = read_socket_inv [OF inv assms(2) r]
    show ?thesis using eff inv1 take_packets_effect(2) [of s1 wa fa ca "[(?hdr, body)]" "[]" True] rd assms(4)
      by (simp add: handle_read_def r)
  qed
  obtain evs where ep: "w_epoll (sv_worker s wa) fa = Some evs" using io_connD [OF inv assms(2)] by blast
  have ev: "enabled (SocketEvent wa fa EPOLLIN rs []) s" "exec X (SocketEvent wa fa EPOLLIN rs []) s = (Val (), ?s1)"
    using assms(2,3) ep by (simp_all add: handle_events_def run_seqP event_bits)
  let ?s2 = "?s1\<lparr>sv_pool := (sv_pool ?s1)\<lparr>tasks := []\<rparr>\<rparr>"
  have rate: "cc_rate_msg_count (ctx_of (rated ?ra ?s2) ?ra) \<le> RATE_LIMIT_MSGS (sv_env ?s2)"
  proof -
    have "cc_rate_msg_count (ctx_of (rated ?ra ?s2) ?ra) = cc_rate_msg_count (ctx_of (rated ?ra s) ?ra)" using f1 by (simp add: rate_count)
    then show ?thesis using assms(15) f1(1) by simp
  qed
  have "handle_chat X ?ra n body (rated ?ra ?s2) = (Val (), (queue_packets wa
      [FnSendPacket ?ra (cmd_code ACK) n (ser_Response (x_codec X) (success u (txt_sent_to @ to_string (cm_to_uid msg))))]
      (queue_packets wb [FnSendPacket t (cmd_code CHAT) 0 (ser_ChatMessage (x_codec X) (msg\<lparr>cm_from_uid := u\<rparr>))] (rated ?ra ?s2)))
      \<lparr>sv_db := Some (stored_as u msg True d)\<rparr>)" (is "_ = (Val (), ?s3)")
    by (rule chat_online_run) (use assms(8-14) f1 in \<open>auto simp: if_distrib\<close>)
  then have "process_business X ?ra ?hdr body ?s2 = (Val (), ?s3)" by (intro business_chat [OF _ rate]) simp_all
  then have task: "exec X RunTask ?s1 = (Val (), ?s3)" by (simp add: run_task_def take_task_Cons [OF t1] threadP_def run_catchP)
  have conns: "conns ?s3 w = conns s w" for w using f1(5) by (simp add: queue_packets_def)
  have "runs X [SocketEvent wa fa EPOLLIN rs [], RunTask] s = Some ?s3" using ev task t1 by simp
  moreover have "conns s w fd \<noteq> None \<Longrightarrow> still_open X w fd [SocketEvent wa fa EPOLLIN rs [], RunTask] s" for w fd
    using ev(2) task f1(5) [of w] conns [of w] by (simp del: exec.simps)
  ultimately show ?thesis using f1 by (intro exI [of _ ?s3]) (auto simp: queue_packets_def rate_update_def Let_def)
qed

lemma conns_send_packet [simp]: "conns (send_packet_in_loop w r c n b s) w' = conns s w'"
  by (auto simp: send_packet_in_loop_def send_def Let_def queue_close_connection_def queue_in_loop_def update_event_def split: option.split)

text \<open>
  A packet waits alone, or before the packets of others, for a connection with nothing to send: a round of its worker puts it on the wire.
\<close>

lemma packet_leaves:
  assumes "reach X s" "conns s w fd = Some c" "w_running (sv_worker s w) = []" "cc_send_buf (ctx_of s (tc_ctx c)) = []"
    and "w_pending (sv_worker s w) = FnSendPacket (tc_ctx c) cm n b # fs"
    and "fs = [] \<or> fs = [FnSendPacket r cm' n' b'] \<and> cc_fd (ctx_of s r) \<noteq> fd"
    and "length (make_packet cm n b) \<le> MAX_SEND_BUF (sv_env s)" "write_out ws (make_packet cm n b) = ([], False)"
    and "es = [SwapFunctors w, RunFunctor w, RunFunctor w, SocketEvent w fd EPOLLOUT [] ws]"
  shows "\<exists>s'. runs X es s = Some s' \<and> traffic X w fd es s = ([(cm, n, b)], make_packet cm n b) \<and> still_open X w fd es s"
proof -
  have cfd: "cc_fd (ctx_of s (tc_ctx c)) = fd" using conn_invD(6) [OF net_inv_conn [OF reach_net_inv [OF assms(1)]] assms(2)] .
  let ?p = "FnSendPacket (tc_ctx c) cm n b"
  let ?s1 = "swap_functors w s"
  let ?s2 = "run_next_functor w ?s1" let ?s3 = "run_next_functor w ?s2"
  have r1: "reach X ?s1" by (rule reach.step [OF assms(1), of "SwapFunctors w"]) (simp_all add: assms(3))
  have r2: "reach X ?s2" by (rule reach.step [OF r1, of "RunFunctor w"]) simp_all
  have r3: "reach X ?s3" by (rule reach.step [OF r2, of "RunFunctor w"]) simp_all
  have s1: "conns ?s1 w fd = Some c" "w_running (sv_worker ?s1 w) = ?p # fs" "sv_heap ?s1 = sv_heap s" "sv_env ?s1 = sv_env s"
    using assms(2,5) by (simp_all add: swap_functors_def)
  have acc1: "accepted w fd (RunFunctor w) ?s1 = [(cm, n, b)]" using s1 cfd assms(4,7) by simp
  have env: "sv_env (send_packet_in_loop w r cm n b x) = sv_env x" "cc_fd (ctx_of (send_packet_in_loop w r cm n b x) y) = cc_fd (ctx_of x y)" for r cm n b x y
    by (auto simp: send_packet_in_loop_def send_def Let_def queue_close_connection_def queue_in_loop_def update_event_def split: option.split)
  have s2: "conns ?s2 w fd = Some c" "w_running (sv_worker ?s2 w) = fs" "cc_fd (ctx_of ?s2 x) = cc_fd (ctx_of s x)" for x
    using s1 running_next [OF r1, of w] by (simp_all add: run_next_functor_def env)
  have b2: "cc_send_buf (ctx_of ?s2 (tc_ctx c)) = make_packet cm n b"
    using functor_step [OF reach_net_inv [OF r1] s1(1), of w] acc1 s1(3) s2(1) assms(4) by (auto simp: output_step_def wire_def)
  have acc2: "accepted w fd (RunFunctor w) ?s2 = []" using assms(6) s2 by auto
  have s3: "conns ?s3 w fd = Some c" "w_running (sv_worker ?s3 w) = []"
    using assms(6) s2 running_next [OF r2, of w] by (auto simp: run_next_functor_def)
  have b3: "cc_send_buf (ctx_of ?s3 (tc_ctx c)) = make_packet cm n b"
    using functor_step [OF reach_net_inv [OF r2] s2(1), of w] acc2 b2 s3(1) by (auto simp: output_step_def wire_def)
  have ep: "w_epoll (sv_worker ?s3 w) fd = Some (read_events OR EPOLLOUT)"
    using io_connD(3) [OF reach_net_inv [OF r3] s3(1)] b3 length_packet by simp
  let ?e = "SocketEvent w fd EPOLLOUT [] ws"
  let ?s4 = "handle_write w c ws ?s3"
  have ev: "enabled ?e ?s3" "exec X ?e ?s3 = (Val (), ?s4)"
    using s3 ep by (simp_all add: handle_events_def run_seqP event_bits read_events_def)
  have out: "emitted w fd ?e ?s3 = make_packet cm n b"
    using s3(1) b3 wrote_out [OF assms(8)] by (simp add: event_bits)
  have "conns ?s4 w fd \<noteq> None" using b3 s3(1) assms(8) by (simp add: handle_write_effect Let_def update_event_def)
  then show ?thesis
    using ev out acc1 acc2 assms(2,3) s1(1) s2(1) s3(1) by (auto simp: assms(9) simp del: emitted.simps(1) accepted.simps(1))
qed

section \<open>From keyboard to screen\<close>

lemma traffic_append:
  assumes "runs X es s = Some s'" "still_open X w fd es s"
  shows "traffic X w fd (es @ es') s =
    (fst (traffic X w fd es s) @ fst (traffic X w fd es' s'), snd (traffic X w fd es s) @ snd (traffic X w fd es' s'))"
  using assms by (induction es arbitrary: s) (auto split: if_splits prod.splits outcome.splits)

lemma runs_append: "runs X (es @ es') s = (case runs X es s of None \<Rightarrow> None | Some s' \<Rightarrow> runs X es' s')"
  by (induction es arbitrary: s) (auto split: prod.split outcome.split)

text \<open>The message as the client makes it, and as the server passes it on.\<close>

definition typed :: "client \<Rightarrow> int \<Rightarrow> string \<Rightarrow> ChatMessage" where
  "typed a v txt = new_ChatMessage\<lparr>cm_from_uid := cl_uid a, cm_to_uid := v, cm_content := txt, cm_timestamp := cl_wall a\<rparr>"

definition passed_on :: "client \<Rightarrow> int \<Rightarrow> string \<Rightarrow> int \<Rightarrow> ChatMessage" where
  "passed_on a v txt u = (typed a v txt)\<lparr>cm_from_uid := u\<rparr>"

lemma client_shows:
  assumes "codec_laws X" "chat_in_range (passed_on a v txt u)" "u \<noteq> 9999" "cl_running b" "cl_buffer b = []" "\<not> cl_in_stream b"
    and "concat pieces = make_packet (cmd_code CHAT) 0 (ser_ChatMessage X (passed_on a v txt u))"
    and "length (ser_ChatMessage X (passed_on a v txt u)) < 4294967280"
  shows "\<exists>b'. receive_loop X (map RecvData pieces) b = (Val (), b') \<and>
    cl_shown b' = cl_shown b @ [ShowUser u txt (u = cl_chat_target b)]"
proof -
  have "receive_loop X (map RecvData pieces) b =
      (Val (), fold (handle_packet X) (received [(cmd_code CHAT, 0, ser_ChatMessage X (passed_on a v txt u))]) b)"
    using assms(7,8) by (intro receive_wire [OF assms(4,5)]) (simp_all add: wire_def)
  moreover have "parse_ChatMessage X (ser_ChatMessage X (passed_on a v txt u)) = Some (passed_on a v txt u)"
    using assms(1,2) by (simp add: codec_laws_def)
  ultimately show ?thesis
    using assms(3,6) by (simp add: received_def handle_packet_def handle_chat_message_def passed_on_def typed_def Let_def show_item_def)
qed

text \<open>
  C1. A message gets from one user's keyboard to the other user's screen. The sender's client is logged in and sends \<open>txt\<close> to user \<open>v\<close>; its
  bytes reach the server in any pieces; the addressee is connected, to the same or another worker; the sender is within the rate limit, no packet has a body over 65535 bytes
  and the addressee's fits into \<open>MAX_SEND_BUF\<close>; and nothing else is under way.
  Then the run of the two workers and a pool thread shown here is possible, it gives the addressee's socket exactly the bytes of one packet
  (however little the socket takes at a time), and the addressee's client, reading them in any pieces, shows \<open>txt\<close> with the id under which the sender
  logged in.
\<close>

theorem chat_end_to_end:
  assumes "codec_laws (x_codec X)" "reach X s" "conns s wa fa = Some ca" "conns s wb fb = Some cb" "(wa, fa) \<noteq> (wb, fb)"
    and "cc_owner_worker (ctx_of s (tc_ctx ca)) = Some wa" "cc_owner_worker (ctx_of s (tc_ctx cb)) = Some wb"
    and "cc_uid (ctx_of s (tc_ctx ca)) = u" "u \<noteq> 9999" "session_get (sv_sessions s) v = Some (tc_ctx cb)" "v \<noteq> 9999" "sv_db s = Some d"
    and "cc_rate_msg_count (ctx_of (rated (tc_ctx ca) s) (tc_ctx ca)) \<le> RATE_LIMIT_MSGS (sv_env s)"
    and "tasks (sv_pool s) = []" "cc_recv_buf (ctx_of s (tc_ctx ca)) = []" "cc_send_buf (ctx_of s (tc_ctx cb)) = []"
    and "\<And>w. w_running (sv_worker s w) = []" "w_pending (sv_worker s wb) = []"
    and "is_logged_in a" "cl_sends a = []" "chat_in_range (typed a v txt)" "chat_in_range (passed_on a v txt u)"
    and "length (ser_ChatMessage (x_codec X) (typed a v txt)) \<le> 65535"
    and "send_message (x_codec X) v txt a = (sent, a')" "cl_out a' = cl_out a @ bytes" "input_of rs = (bytes, False)"
    and "pkt = make_packet (cmd_code CHAT) 0 (ser_ChatMessage (x_codec X) (passed_on a v txt u))"
    and "length pkt \<le> MAX_SEND_BUF (sv_env s)" "length pkt < 4294967280" "write_out ws pkt = ([], False)"
    and "es = [SocketEvent wa fa EPOLLIN rs [], RunTask, SwapFunctors wb, RunFunctor wb, RunFunctor wb, SocketEvent wb fb EPOLLOUT [] ws]"
    and "cl_running b" "cl_buffer b = []" "\<not> cl_in_stream b" "concat pieces = snd (traffic X wb fb es s)"
  shows "sent \<and> (\<exists>s'. runs X es s = Some s') \<and> snd (traffic X wb fb es s) = pkt \<and>
    (\<exists>b'. receive_loop (x_codec X) (map RecvData pieces) b = (Val (), b') \<and>
       cl_shown b' = cl_shown b @ [ShowUser u txt (u = cl_chat_target b)])"
proof -
  let ?msg = "typed a v txt" and ?es1 = "[SocketEvent wa fa EPOLLIN rs [], RunTask]"
  let ?es2 = "[SwapFunctors wb, RunFunctor wb, RunFunctor wb, SocketEvent wb fb EPOLLOUT [] ws]"
  note inv = reach_net_inv [OF assms(2)]
  have sent: "sent" "bytes = make_packet (cmd_code CHAT) (cl_seq a + 1) (ser_ChatMessage (x_codec X) ?msg)"
    using assms(19,20,24,25) by (auto simp: send_message_def send_packet_run typed_def)
  have msg: "parse_ChatMessage (x_codec X) (ser_ChatMessage (x_codec X) ?msg) = Some ?msg" "cm_to_uid ?msg = v"
    "?msg\<lparr>cm_from_uid := u\<rparr> = passed_on a v txt u"
    using assms(1,21) by (simp_all add: codec_laws_def passed_on_def) (simp add: typed_def)
  have "\<exists>s1. runs X ?es1 s = Some s1 \<and> sv_env s1 = sv_env s \<and> (\<forall>w. conns s1 w = conns s w) \<and>
      (\<forall>w fd. conns s w fd \<noteq> None \<longrightarrow> still_open X w fd ?es1 s) \<and>
      (\<forall>w. w_running (sv_worker s1 w) = w_running (sv_worker s w)) \<and>
      (\<forall>x. cc_send_buf (ctx_of s1 x) = cc_send_buf (ctx_of s x) \<and> cc_fd (ctx_of s1 x) = cc_fd (ctx_of s x)) \<and>
      (\<forall>w. w_pending (sv_worker s1 w) = w_pending (sv_worker s w) @
         (if w = wb then [FnSendPacket (tc_ctx cb) (cmd_code CHAT) 0 (ser_ChatMessage (x_codec X) (?msg\<lparr>cm_from_uid := u\<rparr>))] else []) @
         (if w = wa then [FnSendPacket (tc_ctx ca) (cmd_code ACK) (cl_seq a + 1)
            (ser_Response (x_codec X) (success u (txt_sent_to @ to_string (cm_to_uid ?msg))))] else []))"
    using assms(11) by (intro chat_taken [OF assms(2,3,17,14,15) assms(26) [unfolded sent(2)] assms(23,12) msg(1) _ assms(6) _ assms(7,8,13)])
      (simp_all add: msg(2) assms(10))
  then obtain s1 where s1: "runs X ?es1 s = Some s1" "sv_env s1 = sv_env s" "\<And>w. conns s1 w = conns s w"
    "\<And>w. w_running (sv_worker s1 w) = w_running (sv_worker s w)" "\<And>x. cc_send_buf (ctx_of s1 x) = cc_send_buf (ctx_of s x)"
    "\<And>x. cc_fd (ctx_of s1 x) = cc_fd (ctx_of s x)"
    "\<And>w. w_pending (sv_worker s1 w) = w_pending (sv_worker s w) @
       (if w = wb then [FnSendPacket (tc_ctx cb) (cmd_code CHAT) 0 (ser_ChatMessage (x_codec X) (passed_on a v txt u))] else []) @
       (if w = wa then [FnSendPacket (tc_ctx ca) (cmd_code ACK) (cl_seq a + 1)
          (ser_Response (x_codec X) (success u (txt_sent_to @ to_string (cm_to_uid ?msg))))] else [])"
    and still: "conns s wb fb \<noteq> None \<Longrightarrow> still_open X wb fb ?es1 s"
    unfolding msg(3) by blast
  have r1: "reach X s1" by (rule reach_runs [OF s1(1) assms(2)])
  have "wa = wb \<Longrightarrow> fa \<noteq> fb" using assms(5) by simp
  then have fds: "wa = wb \<Longrightarrow> cc_fd (ctx_of s1 (tc_ctx ca)) \<noteq> fb"
    using conn_invD(6) [OF net_inv_conn [OF inv] assms(3)] by (simp add: s1(6))
  obtain s2 where s2: "runs X ?es2 s1 = Some s2" and tr2: "traffic X wb fb ?es2 s1 = ([(cmd_code CHAT, 0, ser_ChatMessage (x_codec X) (passed_on a v txt u))], pkt)"
    using packet_leaves [OF r1, where w = wb and fd = fb and c = cb and ws = ws and es = ?es2, unfolded s1(7)] assms(4,16,17,18,28,30) fds
    unfolding assms(27) by (cases "wa = wb") (simp_all add: s1(2-5), blast+)
  have quiet: "traffic X wb fb ?es1 s = ([], [])" "still_open X wb fb ?es1 s"
    using assms(4,5) still by auto
  have es: "es = ?es1 @ ?es2" by (simp add: assms(31))
  have "snd (traffic X wb fb es s) = pkt" unfolding es traffic_append [OF s1(1) quiet(2)] quiet(1) tr2 by simp
  moreover have "runs X es s = Some s2" unfolding es runs_append s1(1) by (simp add: s2 del: runs.simps)
  ultimately show ?thesis
    using sent(1) client_shows [OF assms(1,22,9,32,33,34), of pieces] assms(27,29,35) by auto
qed

definition ann_client :: client where
  "ann_client = connected_client\<lparr>cl_uid := 7\<rparr>"

definition bob_client :: client where
  "bob_client = connected_client\<lparr>cl_uid := 8\<rparr>"

definition ann_bytes :: string where
  "ann_bytes = make_packet 2 1 (enc_chat (typed ann_client 8 ''hi''))"

definition bob_bytes :: string where
  "bob_bytes = make_packet 2 0 (enc_chat (passed_on ann_client 8 ''hi'' 7))"

definition hi_run :: "event list" where
  "hi_run = [SocketEvent 0 5 EPOLLIN [RData ann_bytes, RAgain] [], RunTask, SwapFunctors 1, RunFunctor 1, RunFunctor 1,
     SocketEvent 1 6 EPOLLOUT [] [WOk 20, WOk 1000]]"

lemma hi_facts:
  "conns pair 0 5 = Some (demo_conn 5 0)" "conns pair 1 6 = Some (demo_conn 6 1)" "tc_ctx (demo_conn fd r) = r"
  "cc_owner_worker (ctx_of pair 0) = Some 0" "cc_owner_worker (ctx_of pair 1) = Some 1" "cc_uid (ctx_of pair 0) = 7"
  "session_get (sv_sessions pair) 8 = Some 1" "sv_db pair = Some pair_db" "tasks (sv_pool pair) = []"
  "cc_rate_msg_count (ctx_of (rated 0 pair) 0) \<le> RATE_LIMIT_MSGS (sv_env pair)"
  "cc_recv_buf (ctx_of pair 0) = []" "cc_send_buf (ctx_of pair 1) = []" "\<And>w. w_running (sv_worker pair w) = []"
  "w_pending (sv_worker pair 1) = []" "MAX_SEND_BUF (sv_env pair) = 5242880"
  by (simp_all add: pair_def pair_ann_def login_done_def pair_start_eval heap_upd_def new_ClientContext_def demo_conn_def new_pool_def
      rate_update_def demo_settings new_worker_def)

lemma hi_messages:
  "chat_in_range (typed ann_client 8 ''hi'')" "chat_in_range (passed_on ann_client 8 ''hi'' 7)"
  "length (enc_chat (typed ann_client 8 ''hi'')) = 27" "length (enc_chat (passed_on ann_client 8 ''hi'' 7)) = 27"
  "ser_ChatMessage (x_codec externals_full) = enc_chat"
  by (simp_all add: chat_in_range_def typed_def passed_on_def ann_client_def connected_client_def connect_def new_client_def new_ChatMessage_def
      int_ok_def INT_MIN_def INT_MAX_def enc_chat_def length_enc externals_full_def)

lemma hi_sent: "send_message (x_codec externals_full) 8 ''hi'' ann_client = (True, ann_client\<lparr>cl_seq := 1, cl_out := ann_bytes\<rparr>)"
  using hi_messages(5) by (simp add: send_message_def send_packet_run is_logged_in_def ann_client_def connected_client_def connect_def new_client_def ann_bytes_def typed_def)

theorem chat_end_to_end_witness:
  "\<exists>b'. receive_loop (x_codec externals_full) (map RecvData [take 5 bob_bytes, drop 5 bob_bytes]) bob_client = (Val (), b') \<and>
     cl_shown b' = [ShowUser 7 ''hi'' False] \<and> snd (traffic externals_full 1 6 hi_run pair) = bob_bytes"
proof -
  have client: "is_logged_in ann_client" "cl_sends ann_client = []" "cl_out ann_client = []" "cl_running bob_client" "cl_buffer bob_client = []"
    "\<not> cl_in_stream bob_client" "cl_shown bob_client = []" "cl_chat_target bob_client = 9999"
    by (simp_all add: is_logged_in_def ann_client_def bob_client_def connected_client_def connect_def new_client_def)
  have "length bob_bytes = 43" by (simp add: bob_bytes_def hi_messages)
  then have wr: "write_out [WOk 20, WOk 1000] bob_bytes = ([], False)" and len: "length bob_bytes \<le> 5242880" "length bob_bytes < 4294967280"
    by (auto simp: write_out.simps)
  have bytes: "input_of [RData ann_bytes, RAgain] = (ann_bytes, False)" by (simp add: ann_bytes_def length_packet)
  note e2e = chat_end_to_end [OF codec_laws_full reach_pair hi_facts(1,2), unfolded hi_facts(3), OF _ hi_facts(4-6) _ hi_facts(7) _ hi_facts(8,10,9,11-14)
      client(1,2) hi_messages(1,2), unfolded hi_messages(3,5), OF _ _ _ _ hi_sent _ bytes]
  have "snd (traffic externals_full 1 6 hi_run pair) = bob_bytes" if "concat pieces = snd (traffic externals_full 1 6 hi_run pair)" for pieces
    using e2e [where pkt = bob_bytes and ws = "[WOk 20, WOk 1000]" and es = hi_run and b = bob_client and pieces = pieces] client wr len that
    by (simp add: hi_facts bob_bytes_def hi_run_def hi_messages)
  from this [of "[snd (traffic externals_full 1 6 hi_run pair)]"] have out: "snd (traffic externals_full 1 6 hi_run pair) = bob_bytes" by simp
  then show ?thesis
    using e2e [where pkt = bob_bytes and ws = "[WOk 20, WOk 1000]" and es = hi_run and b = bob_client and pieces = "[take 5 bob_bytes, drop 5 bob_bytes]"] client wr len
    by (simp add: hi_facts bob_bytes_def hi_run_def hi_messages)
qed

end
