(* ===== verification/Client_Threads.thy ===== *)
theory Client_Threads
  imports Client_Theorems
begin

text \<open>
  The two threads of \<open>chat_client.cpp\<close> that send: the user's and the heartbeat's. \<open>send_packet\<close> takes no lock, so its parts
  (reading \<open>seq_\<close>, writing it back, sending the header, sending the body) are steps of their own here, and the threads take
  them in any order. An uninterrupted call is \<open>send_packet\<close> of \<open>Client\<close>. As long as no call begins
  within another, the server reads what both threads have sent; where the heartbeat's header gets between a header and
  its body, it does not.
\<close>

section \<open>The threads\<close>

datatype who = User | Heartbeat

fun other :: "who \<Rightarrow> who" where
  "other User = Heartbeat"
| "other Heartbeat = User"

text \<open>Where a thread is within \<open>send_packet\<close>, with its number for the packet.\<close>

datatype send_pc = Ready | Loaded u32 | Stored u32 | HeadSent u32

text \<open>\<open>sn_todo\<close>: the packets that the thread still sends, command and body; it is in the call for the first of them unless it is \<open>Ready\<close>.\<close>

record sender =
  sn_todo :: "(u32 \<times> string) list"
  sn_pc :: send_pc

record link =
  ln_seq :: u32
  ln_out :: string
  ln_sender :: "who \<Rightarrow> sender"

definition set_pc :: "who \<Rightarrow> send_pc \<Rightarrow> link \<Rightarrow> link" where
  "set_pc w pc l = l\<lparr>ln_sender := (ln_sender l)(w := (ln_sender l w)\<lparr>sn_pc := pc\<rparr>)\<rparr>"

definition sent_packet :: "who \<Rightarrow> link \<Rightarrow> link" where
  "sent_packet w l = l\<lparr>ln_sender := (ln_sender l)(w := \<lparr>sn_todo = tl (sn_todo (ln_sender l w)), sn_pc = Ready\<rparr>)\<rparr>"

text \<open>The next part of \<open>send_packet\<close> in thread \<open>w\<close>, where the socket takes the bytes.\<close>

definition send_part :: "who \<Rightarrow> link \<Rightarrow> link" where
  "send_part w l = (case sn_todo (ln_sender l w) of
     [] \<Rightarrow> l
   | (cm, body) # rest \<Rightarrow> (case sn_pc (ln_sender l w) of
       Ready \<Rightarrow> set_pc w (Loaded (ln_seq l + 1)) l
     | Loaded n \<Rightarrow> set_pc w (Stored n) (l\<lparr>ln_seq := n\<rparr>)
     | Stored n \<Rightarrow>
         let l1 = l\<lparr>ln_out := ln_out l @ header_bytes \<lparr>magic = PROTO_MAGIC, body_len = of_nat (length body), cmd = cm, seq = n\<rparr>\<rparr>
         in if body = [] then sent_packet w l1 else set_pc w (HeadSent n) l1
     | HeadSent n \<Rightarrow> sent_packet w (l\<lparr>ln_out := ln_out l @ body\<rparr>)))"

definition start_link :: "(who \<Rightarrow> (u32 \<times> string) list) \<Rightarrow> link" where
  "start_link todo = \<lparr>ln_seq = 0, ln_out = [], ln_sender = (\<lambda>w. \<lparr>sn_todo = todo w, sn_pc = Ready\<rparr>)\<rparr>"

text \<open>The calls of a schedule do not overlap: a thread that has something to send only moves while the other is in no call.\<close>

fun untorn :: "who list \<Rightarrow> link \<Rightarrow> bool" where
  "untorn [] l = True"
| "untorn (w # ws) l = ((sn_todo (ln_sender l w) = [] \<or> sn_pc (ln_sender l (other w)) = Ready) \<and> untorn ws (send_part w l))"

lemma link_sel [simp]:
  "ln_seq (set_pc w pc l) = ln_seq l" "ln_out (set_pc w pc l) = ln_out l" "ln_seq (sent_packet w l) = ln_seq l" "ln_out (sent_packet w l) = ln_out l"
  "ln_sender (set_pc w pc l) x = (if x = w then (ln_sender l w)\<lparr>sn_pc := pc\<rparr> else ln_sender l x)"
  "ln_sender (sent_packet w l) x = (if x = w then \<lparr>sn_todo = tl (sn_todo (ln_sender l w)), sn_pc = Ready\<rparr> else ln_sender l x)"
  by (simp_all add: set_pc_def sent_packet_def)

lemma other_neq [simp]: "other w \<noteq> w" "w \<noteq> other w" "other (other w) = w"
  by (cases w; simp)+

lemma all_who: "(\<forall>w. P w) \<longleftrightarrow> P User \<and> P Heartbeat"
  by (metis who.exhaust)

lemma other_cases: "x = w \<or> x = other w"
  by (cases x; cases w) simp_all

text \<open>A call that nothing interrupts is the call of the sequential model.\<close>

lemma send_steps_send_packet:
  assumes "sn_todo (ln_sender l w) = (cm, body) # rest" "sn_pc (ln_sender l w) = Ready" "cl_sends c = []"
    and "ln_seq l = cl_seq c" "ln_out l = cl_out c" "steps = (if body = [] then 3 else 4)"
  shows "ln_seq ((send_part w ^^ steps) l) = cl_seq (snd (send_packet cm body c)) \<and>
    ln_out ((send_part w ^^ steps) l) = cl_out (snd (send_packet cm body c)) \<and>
    ln_sender ((send_part w ^^ steps) l) w = \<lparr>sn_todo = rest, sn_pc = Ready\<rparr>"
  using assms by (simp add: send_packet_run make_packet_def send_part_def eval_nat_numeral)

section \<open>Calls that do not overlap\<close>

text \<open>The packets on the wire, each with the thread that sent it.\<close>

definition of_thread :: "who \<Rightarrow> (who \<times> outgoing) list \<Rightarrow> (u32 \<times> string) list" where
  "of_thread w tps = map (\<lambda>(x, cm, sq, body). (cm, body)) (filter (\<lambda>(x, p). x = w) tps)"

definition in_call :: "outgoing list \<Rightarrow> sender \<Rightarrow> link \<Rightarrow> bool" where
  "in_call ps sn l \<longleftrightarrow> (let k = of_nat (length ps) in case sn_pc sn of
     Ready \<Rightarrow> ln_out l = wire ps \<and> ln_seq l = k
   | Loaded n \<Rightarrow> ln_out l = wire ps \<and> ln_seq l = k \<and> n = k + 1
   | Stored n \<Rightarrow> ln_out l = wire ps \<and> ln_seq l = n \<and> n = k + 1
   | HeadSent n \<Rightarrow> ln_seq l = n \<and> n = k + 1 \<and> (case sn_todo sn of [] \<Rightarrow> False
       | (cm, body) # rest \<Rightarrow> body \<noteq> [] \<and>
           ln_out l = wire ps @ header_bytes \<lparr>magic = PROTO_MAGIC, body_len = of_nat (length body), cmd = cm, seq = n\<rparr>))"

definition serial :: "(who \<Rightarrow> (u32 \<times> string) list) \<Rightarrow> (who \<times> outgoing) list \<Rightarrow> link \<Rightarrow> bool" where
  "serial todo tps l \<longleftrightarrow> numbered (map snd tps) \<and> (\<forall>w. todo w = of_thread w tps @ sn_todo (ln_sender l w)) \<and>
     (\<exists>w. sn_pc (ln_sender l (other w)) = Ready \<and> in_call (map snd tps) (ln_sender l w) l)"

lemma serial_start: "serial todo [] (start_link todo)"
  by (simp add: serial_def start_link_def numbered_def of_thread_def in_call_def wire_def)

text \<open>While the other thread is in no call, it is this thread's call that is in progress.\<close>

lemma serial_turn:
  assumes "serial todo tps l" "sn_pc (ln_sender l (other w)) = Ready"
  shows "in_call (map snd tps) (ln_sender l w) l"
proof -
  obtain x where x: "sn_pc (ln_sender l (other x)) = Ready" "in_call (map snd tps) (ln_sender l x) l"
    using assms(1) by (auto simp: serial_def)
  show ?thesis
  proof (cases "x = w")
    case False
    then have "x = other w" using other_cases by blast
    with x assms(2) show ?thesis by (simp add: in_call_def)
  qed (use x in simp)
qed

text \<open>The packet is complete: it is the next one on the wire.\<close>

lemma serial_sent:
  assumes "serial todo tps l" "sn_todo (ln_sender l w) = (cm, body) # rest" "sn_pc (ln_sender l (other w)) = Ready"
    and "n = of_nat (length tps) + 1" "ln_out l' = wire (map snd tps) @ make_packet cm n body" "ln_seq l' = n" "ln_sender l' = ln_sender l"
  shows "serial todo (tps @ [(w, cm, n, body)]) (sent_packet w l')"
proof -
  have "numbered (map snd (tps @ [(w, cm, n, body)]))"
    using assms(1,4) by (simp add: serial_def numbered_def add.commute)
  moreover have "todo x = of_thread x (tps @ [(w, cm, n, body)]) @ sn_todo (ln_sender (sent_packet w l') x)" for x
    using assms(1,2,7) by (auto simp: serial_def of_thread_def)
  moreover have "in_call (map snd (tps @ [(w, cm, n, body)])) (ln_sender (sent_packet w l') w) (sent_packet w l')"
    using assms(4-7) by (simp add: in_call_def wire_def add.commute)
  moreover have "sn_pc (ln_sender (sent_packet w l') (other w)) = Ready" using assms(3,7) by simp
  ultimately show ?thesis unfolding serial_def by blast
qed

lemma serial_moved:
  assumes "serial todo tps l" "sn_pc (ln_sender l (other w)) = Ready" "ln_sender l' = ln_sender l"
    and "in_call (map snd tps) ((ln_sender l w)\<lparr>sn_pc := pc\<rparr>) (set_pc w pc l')"
  shows "serial todo tps (set_pc w pc l')"
proof -
  have "todo x = of_thread x tps @ sn_todo (ln_sender (set_pc w pc l') x)" for x
    using assms(1,3) by (simp add: serial_def)
  then show ?thesis using assms unfolding serial_def by (auto intro!: exI [of _ w])
qed

lemma serial_step:
  assumes "serial todo tps l" "sn_todo (ln_sender l w) = [] \<or> sn_pc (ln_sender l (other w)) = Ready"
  shows "\<exists>tps'. serial todo tps' (send_part w l)"
proof (cases "sn_todo (ln_sender l w)")
  case Nil
  then show ?thesis using assms(1) by (auto simp: send_part_def)
next
  case (Cons p rest)
  then obtain cm body where p: "sn_todo (ln_sender l w) = (cm, body) # rest" by (cases p) auto
  with assms(2) have free: "sn_pc (ln_sender l (other w)) = Ready" by simp
  note call = serial_turn [OF assms(1) free]
  note sent = serial_sent [OF assms(1) p free refl] and moved = serial_moved [OF assms(1) free]
  show ?thesis
  proof (cases "sn_pc (ln_sender l w)")
    case Ready
    with call show ?thesis by (auto simp: send_part_def p in_call_def Let_def intro!: exI [of _ tps] moved)
  next
    case (Loaded n)
    with call show ?thesis by (auto simp: send_part_def p in_call_def Let_def intro!: exI [of _ tps] moved)
  next
    case (Stored n)
    show ?thesis
    proof (cases "body = []")
      case True
      with Stored call show ?thesis by (auto simp: send_part_def p in_call_def Let_def make_packet_def intro!: exI sent)
    next
      case False
      with Stored call show ?thesis by (auto simp: send_part_def p in_call_def Let_def intro!: exI [of _ tps] moved)
    qed
  next
    case (HeadSent n)
    with call show ?thesis by (auto simp: send_part_def p in_call_def Let_def make_packet_def intro!: exI sent)
  qed
qed

lemma serial_schedule:
  "serial todo tps l \<Longrightarrow> untorn ws l \<Longrightarrow> \<exists>tps'. serial todo tps' (fold send_part ws l)"
proof (induction ws arbitrary: tps l)
  case (Cons w ws)
  then obtain tps' where "serial todo tps' (send_part w l)" using serial_step by fastforce
  with Cons show ?case by simp
qed auto

lemma untorn_wire:
  assumes "untorn ws (start_link todo)" "l = fold send_part ws (start_link todo)" "\<forall>w. sn_todo (ln_sender l w) = []"
  shows "\<exists>tps. ln_out l = wire (map snd tps) \<and> map (\<lambda>(w, cm, sq, body). sq) tps = map (\<lambda>i. of_nat (i + 1)) [0 ..< length tps] \<and>
    of_thread User tps = todo User \<and> of_thread Heartbeat tps = todo Heartbeat \<and>
    ((\<forall>(w, cm, sq, body) \<in> set tps. length body \<le> 65535) \<longrightarrow>
      (\<forall>pieces. concat pieces = ln_out l \<longrightarrow> deliver [] pieces = (received (map snd tps), [], True)))"
proof -
  obtain tps where tps: "serial todo tps l" using serial_schedule [OF serial_start assms(1)] assms(2) by blast
  then obtain w where "in_call (map snd tps) (ln_sender l w) l" by (auto simp: serial_def)
  then have out: "ln_out l = wire (map snd tps)" using assms(3) by (auto simp: in_call_def Let_def split: send_pc.splits)
  have "deliver [] pieces = (received (map snd tps), [], True)"
    if "\<forall>(w, cm, sq, body) \<in> set tps. length body \<le> 65535" "concat pieces = ln_out l" for pieces
  proof -
    have "\<forall>(cm, sq, body) \<in> set (map snd tps). length body \<le> 65535" using that(1) by auto
    from read_packets_wire [OF this] show ?thesis
      using server_stream.feed_concat [OF read_packet_Nil, of pieces] that(2) by (simp add: deliver_feed out)
  qed
  moreover have "map (\<lambda>(w, cm, sq, body). sq) tps = map (\<lambda>i. of_nat (i + 1)) [0 ..< length tps]"
    using tps by (simp add: serial_def numbered_def comp_def case_prod_unfold)
  ultimately show ?thesis using tps assms(3) out by (intro exI [of _ tps]) (simp add: serial_def)
qed

text \<open>
  C24. The client speaks the protocol of the server. Let \<open>us\<close> be the packets that the user's thread sends, whatever the user types and whatever
  arrives, and let the heartbeat's thread send any packets of its own, at any time, in the middle of a wait of the user's thread as
  well. As long as the socket takes the bytes and no call of \<open>send_packet\<close> begins within a call of the other
  thread, what has been sent is a sequence of whole packets numbered 1, 2, 3 and so on, which are the packets of
  both threads, each thread's in its order; and if no body is longer than 65535 bytes, the server reads exactly these
  packets, however they are cut. (Nothing in the client keeps the calls apart: see the theorem after this one.)
\<close>

theorem client_speaks_protocol:
  assumes "client_run X acts connected_client = (res, c)" "Beat \<notin> set acts"
  shows "(\<exists>us. cl_out c = wire us \<and> map (\<lambda>(cm, sq, body). sq) us = map (\<lambda>i. of_nat (i + 1)) [0 ..< length us]) \<and> (\<forall>us beats ws start l. cl_out c = wire us \<and>
    start = start_link (\<lambda>w. case w of User \<Rightarrow> map (\<lambda>(cm, sq, body). (cm, body)) us | Heartbeat \<Rightarrow> beats) \<and> untorn ws start \<and>
    l = fold send_part ws start \<and> (\<forall>w. sn_todo (ln_sender l w) = []) \<longrightarrow>
    (\<exists>tps. ln_out l = wire (map snd tps) \<and> map (\<lambda>(w, cm, sq, body). sq) tps = map (\<lambda>i. of_nat (i + 1)) [0 ..< length tps] \<and>
      of_thread User tps = map (\<lambda>(cm, sq, body). (cm, body)) us \<and> of_thread Heartbeat tps = beats \<and>
      ((\<forall>(w, cm, sq, body) \<in> set tps. length body \<le> 65535) \<longrightarrow>
        (\<forall>pieces. concat pieces = ln_out l \<longrightarrow> deliver [] pieces = (received (map snd tps), [], True)))))"
proof (intro conjI allI impI)
  show "\<exists>us. cl_out c = wire us \<and> map (\<lambda>(cm, sq, body). sq) us = map (\<lambda>i. of_nat (i + 1)) [0 ..< length us]"
    using client_run_sends [OF assms(1)] unfolding numbered_def .
next
  fix us :: "outgoing list" and beats ws start l
  let ?todo = "\<lambda>w. case w of User \<Rightarrow> map (\<lambda>(cm, sq, body). (cm, body)) us | Heartbeat \<Rightarrow> beats"
  assume "cl_out c = wire us \<and> start = start_link ?todo \<and> untorn ws start \<and> l = fold send_part ws start \<and> (\<forall>w. sn_todo (ln_sender l w) = [])"
  then have run: "untorn ws (start_link ?todo)" "l = fold send_part ws (start_link ?todo)" "\<forall>w. sn_todo (ln_sender l w) = []" by auto
  from untorn_wire [OF run]
  show "\<exists>tps. ln_out l = wire (map snd tps) \<and> map (\<lambda>(w, cm, sq, body). sq) tps = map (\<lambda>i. of_nat (i + 1)) [0 ..< length tps] \<and>
      of_thread User tps = map (\<lambda>(cm, sq, body). (cm, body)) us \<and> of_thread Heartbeat tps = beats \<and>
      ((\<forall>(w, cm, sq, body) \<in> set tps. length body \<le> 65535) \<longrightarrow>
        (\<forall>pieces. concat pieces = ln_out l \<longrightarrow> deliver [] pieces = (received (map snd tps), [], True)))"
    by (simp only: who.case)
qed

text \<open>A login, with a beat of the heartbeat between the login's packet and the end of the wait for its answer.\<close>

definition demo_login_act :: "client_act list" where
  "demo_login_act = [InputLine \<lparr>ar_auth = [], ar_begin = [], ar_rounds = []\<rparr> ''/login ann pw'']"

lemma demo_login_out: "cl_out (snd (client_run codec_ref demo_login_act connected_client)) = wire [(1, 1, ''ann'')]"
  by (simp add: demo_login_act_def client_run_def run_seqP run_bindP chat_turn_def client_command_def read_word_def is_space_def
      auth_command_def do_login_def do_auth_def connected_client_def connect_def new_client_def send_packet_run wait_auth_result_def
      send_line_def is_logged_in_def codec_ref_def wire_def)

theorem client_speaks_protocol_witness:
  "let start = start_link (\<lambda>w. case w of User \<Rightarrow> [(1, ''ann'')] | Heartbeat \<Rightarrow> [(4, ''PING'')]);
     l = fold send_part [User, User, User, User, Heartbeat, Heartbeat, Heartbeat, Heartbeat] start
   in cl_out (snd (client_run codec_ref demo_login_act connected_client)) = wire [(1, 1, ''ann'')] \<and>
     (\<exists>tps. ln_out l = wire (map snd tps) \<and> of_thread User tps = [(1, ''ann'')] \<and> of_thread Heartbeat tps = [(4, ''PING'')])"
proof -
  let ?start = "start_link (\<lambda>w. case w of User \<Rightarrow> map (\<lambda>(cm, sq, body). (cm, body)) [(1 :: u32, 1 :: u32, ''ann'')] | Heartbeat \<Rightarrow> [(4, ''PING'')])"
  let ?ws = "[User, User, User, User, Heartbeat, Heartbeat, Heartbeat, Heartbeat]"
  have run: "untorn ?ws ?start" "\<forall>w. sn_todo (ln_sender (fold send_part ?ws ?start) w) = []"
    by (simp_all add: start_link_def send_part_def Let_def all_who)
  have "Beat \<notin> set demo_login_act" by (simp add: demo_login_act_def)
  note protocol = client_speaks_protocol [of codec_ref demo_login_act, OF prod.collapse [symmetric] this, THEN conjunct2, rule_format,
      of "[(1, 1, ''ann'')]" ?start "[(4, ''PING'')]" ?ws, OF conjI [OF demo_login_out]]
  show ?thesis using protocol [OF conjI [OF refl conjI [OF run(1) conjI [OF refl run(2)]]]] demo_login_out unfolding Let_def by auto
qed

section \<open>Calls that overlap\<close>

text \<open>What the server reads after a header: as many bytes as it announces, whatever they are.\<close>

lemma read_after_header:
  assumes "\<forall>(cm, sq, body) \<in> set ps. length body \<le> 65535" "n \<le> 65535" "n \<le> length rest"
    and "hdr = \<lparr>magic = PROTO_MAGIC, body_len = of_nat n, cmd = cm, seq = num\<rparr>"
  shows "\<exists>more r ok. read_packets (wire ps @ header_bytes hdr @ rest) = (received ps @ (hdr, take n rest) # more, r, ok)"
proof -
  have "header_bytes hdr @ rest = make_packet cm num (take n rest) @ drop n rest"
    using assms(3,4) by (simp add: make_packet_def min_absorb2)
  then have "read_packet (header_bytes hdr @ rest) = Emit (hdr, take n rest) (drop n rest)"
    using read_make_packet [of "take n rest" cm num "drop n rest"] assms(2-4) by (simp add: min_absorb2)
  from server_stream.prun_emit [OF this] show ?thesis
    using server_stream.prun_append [OF read_packets_wire [OF assms(1)], of "header_bytes hdr @ rest"] by (auto split: prod.splits)
qed

text \<open>
  Two packets can mix: if the heartbeat sends its header after the header and before the body of a packet of the user, the server takes the
  heartbeat's header for the beginning of the user's message, and what is left of both for the next packet.
\<close>

theorem heartbeat_tears_packet:
  assumes "ln_out l = wire ps" "\<forall>(cm, sq, body) \<in> set ps. length body \<le> 65535"
    and "ln_sender l User = \<lparr>sn_todo = (cu, bu) # us, sn_pc = Ready\<rparr>" "ln_sender l Heartbeat = \<lparr>sn_todo = (ch, bh) # hs, sn_pc = Ready\<rparr>"
    and "bu \<noteq> []" "length bu \<le> 65535"
    and "l' = fold send_part [User, User, User, Heartbeat, Heartbeat, Heartbeat, User] l"
  shows "\<exists>more r ok. read_packets (ln_out l') =
    (received ps @ (\<lparr>magic = PROTO_MAGIC, body_len = of_nat (length bu), cmd = cu, seq = ln_seq l + 1\<rparr>,
       take (length bu) (header_bytes \<lparr>magic = PROTO_MAGIC, body_len = of_nat (length bh), cmd = ch, seq = ln_seq l + 1 + 1\<rparr> @ bu)) # more, r, ok)"
proof -
  have out: "ln_out l' = wire ps @ header_bytes \<lparr>magic = PROTO_MAGIC, body_len = of_nat (length bu), cmd = cu, seq = ln_seq l + 1\<rparr> @
      header_bytes \<lparr>magic = PROTO_MAGIC, body_len = of_nat (length bh), cmd = ch, seq = ln_seq l + 1 + 1\<rparr> @ bu"
    using assms(1,3-5) by (auto simp: assms(7) send_part_def Let_def)
  show ?thesis unfolding out by (rule read_after_header [OF assms(2,6)]) simp_all
qed

text \<open>And two packets can bear the same number: \<open>seq_\<close> is read and written back in two steps.\<close>

theorem numbers_collide:
  assumes "ln_sender l User = \<lparr>sn_todo = (cu, bu) # us, sn_pc = Ready\<rparr>" "ln_sender l Heartbeat = \<lparr>sn_todo = (ch, bh) # hs, sn_pc = Ready\<rparr>"
    and "l' = fold send_part [User, Heartbeat, User, Heartbeat] l"
  shows "sn_pc (ln_sender l' User) = Stored (ln_seq l + 1) \<and> sn_pc (ln_sender l' Heartbeat) = Stored (ln_seq l + 1) \<and> ln_seq l' = ln_seq l + 1"
  using assms by (simp add: send_part_def)

end
