(* ===== verification/Wakeup.thy ===== *)
theory Wakeup
  imports Main_Loop
begin

text \<open>
  \<open>EventLoop\<close> at the grain of its system calls: the thread that runs \<open>loop\<close>, the threads that call \<open>queue_in_loop\<close> and \<open>stop\<close>, the
  eventfd between them, and every interleaving of theirs. The rest of the development takes \<open>queue_in_loop\<close> for one step and
  the loop for one that always comes round; this theory shows why that is right.
\<close>

section \<open>State\<close>

text \<open>
  Where the thread of the loop is: at the condition of \<open>while\<close>, in \<open>epoll_wait\<close>, going through the events (with whether the eventfd is among
  them), before \<open>on_loop_once_\<close>, before the swap, running functors, or out of the loop.
\<close>

datatype loop_pc = PHead | PWait | PEvents bool | PTimers | PSwap | PRun | PExit

text \<open>
  \<open>el_counter\<close> is the counter of \<open>wakeup_fd_\<close>, \<open>el_fs\<close> the local variable \<open>fs\<close>, and \<open>el_writers\<close> the number of threads that are between the
  two halves of \<open>queue_in_loop\<close> or \<open>stop\<close>: they will call \<open>wakeup\<close> next. \<open>el_queued\<close> and \<open>el_ran\<close> record what was queued and what was
  run, in order.
\<close>

record 'f event_loop =
  el_running :: bool
  el_pending :: "'f list"
  el_counter :: nat
  el_pc :: loop_pc
  el_fs :: "'f list"
  el_writers :: nat
  el_queued :: "'f list"
  el_ran :: "'f list"

text \<open>\<open>create_eventfd\<close> and the constructor; the process exits if there is no eventfd.\<close>

definition new_event_loop :: "bool \<Rightarrow> 'f event_loop option" where
  "new_event_loop eventfd_ok = (if eventfd_ok
     then Some \<lparr>el_running = True, el_pending = [], el_counter = 0, el_pc = PHead, el_fs = [], el_writers = 0, el_queued = [], el_ran = []\<rparr>
     else None)"

section \<open>Steps\<close>

text \<open>
  \<open>write\<close> adds one to the counter, or fails, without effect, where the counter is at its greatest value (the descriptor does not block); the result
  is not looked at. \<open>read\<close> takes the whole counter.
\<close>

definition EVENTFD_MAX :: nat where "EVENTFD_MAX = 2 ^ 64 - 2"

definition wakeup :: "'f event_loop \<Rightarrow> 'f event_loop" where
  "wakeup l = (if el_counter l < EVENTFD_MAX then l\<lparr>el_counter := el_counter l + 1\<rparr> else l)"

definition handle_wakeup :: "'f event_loop \<Rightarrow> 'f event_loop" where
  "handle_wakeup l = l\<lparr>el_counter := 0\<rparr>"

text \<open>The first half of \<open>queue_in_loop\<close>, under the lock, and of \<open>stop\<close>.\<close>

definition push_functor :: "'f \<Rightarrow> 'f event_loop \<Rightarrow> 'f event_loop" where
  "push_functor f l = l\<lparr>el_pending := el_pending l @ [f], el_queued := el_queued l @ [f]\<rparr>"

definition stop_running :: "'f event_loop \<Rightarrow> 'f event_loop" where
  "stop_running l = l\<lparr>el_running := False\<rparr>"

text \<open>
  A step of the loop's thread. \<open>others\<close> says that \<open>epoll_wait\<close> has something else to return for (a socket, the timeout), \<open>seen\<close> that the
  eventfd is among the events that it returns (there may be more events than places for them), and \<open>fs\<close> is what the functor that runs queues itself.
  There is no step where the thread sleeps or has left the loop.
\<close>

fun loop_thread :: "bool \<Rightarrow> bool \<Rightarrow> 'f list \<Rightarrow> 'f event_loop \<Rightarrow> 'f event_loop option" where
  "loop_thread others seen fs l = (case el_pc l of
     PHead \<Rightarrow> Some (l\<lparr>el_pc := (if el_running l then PWait else PExit)\<rparr>)
   | PWait \<Rightarrow> if el_counter l = 0 \<and> \<not> others then None
       else Some (l\<lparr>el_pc := PEvents (el_counter l > 0 \<and> (seen \<or> \<not> others))\<rparr>)
   | PEvents b \<Rightarrow> Some ((if b then handle_wakeup l else l)\<lparr>el_pc := PTimers\<rparr>)
   | PTimers \<Rightarrow> Some (l\<lparr>el_pc := PSwap\<rparr>)
   | PSwap \<Rightarrow> Some (l\<lparr>el_pc := PRun, el_fs := el_pending l, el_pending := []\<rparr>)
   | PRun \<Rightarrow> (case el_fs l of
        [] \<Rightarrow> Some (l\<lparr>el_pc := PHead\<rparr>)
      | f # rest \<Rightarrow> Some (fold (\<lambda>g. wakeup \<circ> push_functor g) fs (l\<lparr>el_fs := rest, el_ran := el_ran l @ [f]\<rparr>)))
   | PExit \<Rightarrow> None)"

text \<open>The threads together.\<close>

datatype 'f loop_act = Queue 'f | Stop | Signal | Turn bool bool "'f list"

fun act_step :: "'f loop_act \<Rightarrow> 'f event_loop \<Rightarrow> 'f event_loop option" where
  "act_step (Queue f) l = Some (push_functor f (l\<lparr>el_writers := el_writers l + 1\<rparr>))"
| "act_step Stop l = Some (stop_running (l\<lparr>el_writers := el_writers l + 1\<rparr>))"
| "act_step Signal l = (if el_writers l = 0 then None else Some (wakeup (l\<lparr>el_writers := el_writers l - 1\<rparr>)))"
| "act_step (Turn others seen fs) l = loop_thread others seen fs l"

primrec act_steps :: "'f loop_act list \<Rightarrow> 'f event_loop \<Rightarrow> 'f event_loop option" where
  "act_steps [] l = Some l"
| "act_steps (a # as) l = (case act_step a l of None \<Rightarrow> None | Some l' \<Rightarrow> act_steps as l')"

inductive loop_reach :: "'f event_loop \<Rightarrow> bool" where
  init: "new_event_loop True = Some l \<Longrightarrow> loop_reach l"
| more: "loop_reach l \<Longrightarrow> act_step a l = Some l' \<Longrightarrow> loop_reach l'"

fun is_turn :: "'f loop_act \<Rightarrow> bool" where
  "is_turn (Turn others seen fs) = True"
| "is_turn _ = False"

fun is_queue :: "'f loop_act \<Rightarrow> bool" where
  "is_queue (Queue f) = True"
| "is_queue _ = False"

section \<open>No wakeup is lost\<close>

text \<open>The loop is on its way from \<open>epoll_wait\<close> to the swap.\<close>

fun before_swap :: "loop_pc \<Rightarrow> bool" where
  "before_swap (PEvents b) = True"
| "before_swap PTimers = True"
| "before_swap PSwap = True"
| "before_swap _ = False"

definition signalled :: "'f event_loop \<Rightarrow> bool" where
  "signalled l \<longleftrightarrow> 0 < el_counter l \<or> 0 < el_writers l"

definition loop_inv :: "'f event_loop \<Rightarrow> bool" where
  "loop_inv l \<longleftrightarrow>
     (el_pending l \<noteq> [] \<longrightarrow> signalled l \<or> before_swap (el_pc l)) \<and>
     (\<not> el_running l \<and> el_pc l = PWait \<longrightarrow> signalled l) \<and>
     (el_fs l \<noteq> [] \<longrightarrow> el_pc l = PRun) \<and> el_queued l = el_ran l @ el_fs l @ el_pending l"

lemma wakeup_sel [simp]:
  "el_running (wakeup l) = el_running l" "el_pending (wakeup l) = el_pending l" "el_pc (wakeup l) = el_pc l" "el_fs (wakeup l) = el_fs l"
  "el_writers (wakeup l) = el_writers l" "el_queued (wakeup l) = el_queued l" "el_ran (wakeup l) = el_ran l" "0 < el_counter (wakeup l)" "el_counter (wakeup l) \<noteq> 0"
  by (simp_all add: wakeup_def EVENTFD_MAX_def)

lemma push_sel [simp]:
  "el_running (push_functor f l) = el_running l" "el_pending (push_functor f l) = el_pending l @ [f]" "el_pc (push_functor f l) = el_pc l"
  "el_fs (push_functor f l) = el_fs l" "el_writers (push_functor f l) = el_writers l" "el_queued (push_functor f l) = el_queued l @ [f]"
  "el_ran (push_functor f l) = el_ran l" "el_counter (push_functor f l) = el_counter l"
  by (simp_all add: push_functor_def)

lemma queue_own:
  "el_running (fold (\<lambda>g. wakeup \<circ> push_functor g) fs l) = el_running l" "el_pc (fold (\<lambda>g. wakeup \<circ> push_functor g) fs l) = el_pc l"
  "el_fs (fold (\<lambda>g. wakeup \<circ> push_functor g) fs l) = el_fs l" "el_writers (fold (\<lambda>g. wakeup \<circ> push_functor g) fs l) = el_writers l"
  "el_pending (fold (\<lambda>g. wakeup \<circ> push_functor g) fs l) = el_pending l @ fs"
  "el_queued (fold (\<lambda>g. wakeup \<circ> push_functor g) fs l) = el_queued l @ fs"
  "el_ran (fold (\<lambda>g. wakeup \<circ> push_functor g) fs l) = el_ran l"
  "fs \<noteq> [] \<or> 0 < el_counter l \<Longrightarrow> 0 < el_counter (fold (\<lambda>g. wakeup \<circ> push_functor g) fs l)"
  by (induction fs arbitrary: l) auto

lemma loop_inv_turn:
  assumes "loop_inv l" "loop_thread others seen fs l = Some l'"
  shows "loop_inv l'"
proof (cases "el_pc l = PRun \<and> el_fs l \<noteq> []")
  case True
  then obtain f rest where "el_fs l = f # rest" by (cases "el_fs l") auto
  moreover have "fs \<noteq> [] \<Longrightarrow> 0 < el_counter (fold (\<lambda>g. wakeup \<circ> push_functor g) fs (l\<lparr>el_fs := rest, el_ran := el_ran l @ [f]\<rparr>))"
    by (rule queue_own(8)) simp
  ultimately show ?thesis using assms True by (cases "fs = []") (auto simp: loop_inv_def signalled_def queue_own(1-7))
next
  case False
  then show ?thesis
    using assms by (auto simp: loop_inv_def signalled_def handle_wakeup_def split: loop_pc.splits if_splits list.splits)
qed

lemma loop_inv_step: "act_step a l = Some l' \<Longrightarrow> loop_inv l \<Longrightarrow> loop_inv l'"
proof (cases a)
  case (Turn others seen fs)
  moreover assume "act_step a l = Some l'" "loop_inv l"
  ultimately show ?thesis using loop_inv_turn by simp
qed (auto simp: loop_inv_def signalled_def stop_running_def split: if_splits)

lemma loop_reach_inv: "loop_reach l \<Longrightarrow> loop_inv l"
proof (induction rule: loop_reach.induct)
  case (init l)
  then show ?case by (auto simp: new_event_loop_def loop_inv_def)
qed (rule loop_inv_step)

text \<open>
  C11. No wakeup is lost: however the threads interleave, while functors wait to be run or the loop was told to stop, its thread does not sleep in
  \<open>epoll_wait\<close>, except in the moment before a thread that has queued a functor or called \<open>stop\<close> writes to the eventfd. Every
  functor that is queued is run at most once, in the order in which they were queued.
\<close>

theorem no_lost_wakeup:
  assumes "loop_reach l"
  shows "el_queued l = el_ran l @ el_fs l @ el_pending l \<and>
    (el_writers l = 0 \<and> (el_pending l \<noteq> [] \<or> \<not> el_running l) \<and> el_pc l \<noteq> PExit \<longrightarrow> (\<forall>others seen fs. loop_thread others seen fs l \<noteq> None))"
proof -
  have inv: "loop_inv l" by (rule loop_reach_inv [OF assms])
  then have "el_pc l = PWait \<Longrightarrow> el_writers l = 0 \<Longrightarrow> el_pending l \<noteq> [] \<or> \<not> el_running l \<Longrightarrow> 0 < el_counter l"
    by (auto simp: loop_inv_def signalled_def)
  then show ?thesis using inv by (auto simp: loop_inv_def split: loop_pc.split list.split)
qed

section \<open>What is queued is run\<close>

text \<open>Steps of the loop's thread from a place in the loop to the end of the next swap.\<close>

fun to_swap :: "loop_pc \<Rightarrow> nat" where
  "to_swap PRun = 6"
| "to_swap PHead = 5"
| "to_swap PWait = 4"
| "to_swap (PEvents b) = 3"
| "to_swap PTimers = 2"
| "to_swap PSwap = 1"
| "to_swap PExit = 0"

text \<open>At most this many steps of the loop's thread until the first \<open>k\<close> functors have run.\<close>

definition turns_left :: "nat \<Rightarrow> 'f event_loop \<Rightarrow> nat" where
  "turns_left k l = (if k \<le> length (el_ran l) then 0
     else if k \<le> length (el_ran l) + length (el_fs l) then k - length (el_ran l)
     else to_swap (el_pc l) + (k - length (el_ran l)))"

lemma running_before: "act_step a l = Some l' \<Longrightarrow> el_running l' \<Longrightarrow> el_running l"
proof (cases a)
  case (Turn others seen fs)
  assume "act_step a l = Some l'" "el_running l'"
  then show ?thesis by (auto simp: Turn handle_wakeup_def queue_own split: loop_pc.splits if_splits list.splits)
qed (auto simp: stop_running_def split: if_splits)

lemma running_throughout: "act_steps as l = Some l' \<Longrightarrow> el_running l' \<Longrightarrow> el_running l"
  by (induction as arbitrary: l) (auto split: option.splits dest: running_before)

lemma turns_left_turn:
  assumes "loop_inv l" "el_running l" "k \<le> length (el_queued l)" "loop_thread others seen fs l = Some l'"
  shows "turns_left k l' \<le> turns_left k l - 1"
proof (cases "el_pc l = PRun \<and> el_fs l \<noteq> []")
  case True
  then obtain f rest where f: "el_fs l = f # rest" by (cases "el_fs l") auto
  then show ?thesis using assms True by (auto simp: turns_left_def queue_own)
next
  case False
  then show ?thesis
    using assms by (auto simp: loop_inv_def turns_left_def handle_wakeup_def split: loop_pc.splits if_splits list.splits)
qed

lemma turns_left_other:
  "\<not> is_turn a \<Longrightarrow> act_step a l = Some l' \<Longrightarrow> turns_left k l' = turns_left k l"
  by (cases a) (auto simp: turns_left_def stop_running_def split: if_splits)

lemma queued_grows: "act_step a l = Some l' \<Longrightarrow> loop_inv l \<Longrightarrow> \<exists>more. el_queued l' = el_queued l @ more"
  by (cases a) (auto simp: stop_running_def handle_wakeup_def queue_own split: loop_pc.splits if_splits list.splits)

lemma turns_bound:
  assumes "loop_inv l" "act_steps as l = Some l'" "el_running l'" "k \<le> length (el_queued l)"
  shows "turns_left k l' \<le> turns_left k l - length (filter is_turn as)"
  using assms
proof (induction as arbitrary: l)
  case (Cons a as)
  obtain l1 where l1: "act_step a l = Some l1" "act_steps as l1 = Some l'" using Cons.prems(2) by (auto split: option.splits)
  have k: "k \<le> length (el_queued l1)" using queued_grows [OF l1(1) Cons.prems(1)] Cons.prems(4) by auto
  have IH: "turns_left k l' \<le> turns_left k l1 - length (filter is_turn as)"
    by (rule Cons.IH [OF loop_inv_step [OF l1(1) Cons.prems(1)] l1(2) Cons.prems(3) k])
  have "el_running l" by (rule running_before [OF l1(1) running_throughout [OF l1(2) Cons.prems(3)]])
  then have "turns_left k l1 \<le> turns_left k l - (if is_turn a then 1 else 0)"
    using turns_left_turn [OF Cons.prems(1) _ Cons.prems(4)] turns_left_other [of a l l1 k] l1(1) by (cases a) auto
  with IH show ?case by (cases "is_turn a") simp_all
qed simp

text \<open>
  C12. Every queued functor is run: while the loop is not told to stop, and whatever the other threads do in between, six steps of its thread
  and one for each functor in front are enough (and it never sleeps on the way, as shown above). They have run in the order in which they
  were queued.
\<close>

theorem queued_functors_run:
  assumes "loop_reach l" "act_steps as l = Some l'" "el_running l'"
    and "6 + length (el_fs l) + length (el_pending l) \<le> length (filter is_turn as)"
  shows "\<exists>more. el_ran l' = el_queued l @ more"
proof -
  have inv: "loop_inv l" by (rule loop_reach_inv [OF assms(1)])
  have "turns_left (length (el_queued l)) l \<le> 6 + length (el_fs l) + length (el_pending l)"
    using inv by (cases "el_pc l") (auto simp: turns_left_def loop_inv_def)
  with turns_bound [OF inv assms(2,3), of "length (el_queued l)"] assms(4) have "turns_left (length (el_queued l)) l' = 0" by simp
  then have len: "length (el_queued l) \<le> length (el_ran l')" by (auto simp: turns_left_def split: if_splits)
  have grown: "loop_inv l' \<and> (\<exists>more. el_queued l' = el_queued l @ more)"
    using assms(2) inv
  proof (induction as arbitrary: l)
    case (Cons a as)
    then obtain l1 where l1: "act_step a l = Some l1" "act_steps as l1 = Some l'" by (auto split: option.splits)
    with Cons queued_grows [OF l1(1) Cons.prems(2)] loop_inv_step [OF l1(1) Cons.prems(2)] show ?case by fastforce
  qed simp
  then obtain m where "el_ran l' @ el_fs l' @ el_pending l' = el_queued l @ m" unfolding loop_inv_def by metis
  then show ?thesis using len by (metis append_eq_append_conv_if append_take_drop_id)
qed

section \<open>The loop ends when it is told to\<close>

fun to_exit :: "'f event_loop \<Rightarrow> nat" where
  "to_exit l = (case el_pc l of PExit \<Rightarrow> 0 | PHead \<Rightarrow> 1 | PRun \<Rightarrow> 2 + length (el_fs l) | PSwap \<Rightarrow> 3 + length (el_pending l)
     | PTimers \<Rightarrow> 4 + length (el_pending l) | PEvents b \<Rightarrow> 5 + length (el_pending l) | PWait \<Rightarrow> 6 + length (el_pending l))"

lemma to_exit_step:
  assumes "\<not> el_running l" "act_step a l = Some l'"
  shows "\<not> el_running l' \<and> to_exit l' + (if is_turn a then 1 else 0) \<le> to_exit l + (if is_queue a then 1 else 0)"
proof (cases a)
  case (Turn others seen fs)
  show ?thesis
    using assms by (auto simp: Turn handle_wakeup_def queue_own split: loop_pc.splits if_splits list.splits)
qed (use assms in \<open>auto simp: stop_running_def split: loop_pc.splits if_splits\<close>)

lemma to_exit_bound:
  "\<not> el_running l \<Longrightarrow> act_steps as l = Some l' \<Longrightarrow>
   \<not> el_running l' \<and> to_exit l' + length (filter is_turn as) \<le> to_exit l + length (filter is_queue as)"
proof (induction as arbitrary: l)
  case (Cons a as)
  then obtain l1 where l1: "act_step a l = Some l1" "act_steps as l1 = Some l'" by (auto split: option.splits)
  note step = to_exit_step [OF Cons.prems(1) l1(1)]
  show ?case using Cons.IH [OF conjunct1 [OF step] l1(2)] step by (cases "is_turn a"; cases "is_queue a") simp_all
qed simp

text \<open>
  C14. \<open>stop\<close> ends the loop: after it the loop's thread makes at most six steps and one for each functor that is waiting or is queued
  meanwhile, and as long as it has not left the loop it can make the next one (once the caller of \<open>stop\<close> has written to the eventfd). So the thread
  that joins it is not kept waiting.
\<close>

theorem stop_ends_loop:
  assumes "loop_reach l" "\<not> el_running l" "act_steps as l = Some l'"
  shows "length (filter is_turn as) \<le> 6 + length (el_fs l) + length (el_pending l) + length (filter is_queue as) \<and>
    (el_writers l' = 0 \<and> el_pc l' \<noteq> PExit \<longrightarrow> (\<forall>others seen fs. loop_thread others seen fs l' \<noteq> None))"
proof -
  have "loop_inv l'"
    using assms(3) loop_reach_inv [OF assms(1)] by (induction as arbitrary: l) (auto split: option.splits dest: loop_inv_step)
  moreover note bound = to_exit_bound [OF assms(2,3)]
  ultimately have "el_writers l' = 0 \<Longrightarrow> el_pc l' = PWait \<Longrightarrow> 0 < el_counter l'" by (auto simp: loop_inv_def signalled_def)
  moreover have "to_exit l \<le> 6 + length (el_fs l) + length (el_pending l)" by (auto split: loop_pc.split)
  ultimately show ?thesis using bound by (auto split: loop_pc.split list.split)
qed

section \<open>The loop of a worker\<close>

text \<open>
  The queue of a worker in the model of the whole server against the loop in detail: what one act of the threads is there.
\<close>

definition loop_shows :: "nat \<Rightarrow> loop_fn event_loop \<Rightarrow> ('t, 'm) server \<Rightarrow> bool" where
  "loop_shows w l s \<longleftrightarrow> w_pending (sv_worker s w) = el_pending l \<and> w_running (sv_worker s w) = el_fs l"

fun coarse :: "nat \<Rightarrow> loop_fn loop_act \<Rightarrow> loop_fn event_loop \<Rightarrow> ('t, 'm) server \<Rightarrow> ('t, 'm) server" where
  "coarse w (Queue f) l s = queue_in_loop w f s"
| "coarse w (Turn others seen fs) l s = (case el_pc l of PSwap \<Rightarrow> swap_functors w s | PRun \<Rightarrow> run_next_functor w s | _ \<Rightarrow> s)"
| "coarse w Stop l s = s"
| "coarse w Signal l s = s"

text \<open>What the functor that runs next queues itself.\<close>

definition own_queued :: "nat \<Rightarrow> ('t, 'm) server \<Rightarrow> loop_fn list" where
  "own_queued w s = drop (length (w_pending (sv_worker s w))) (w_pending (sv_worker (run_next_functor w s) w))"

lemma pending_next:
  assumes "reach X s"
  shows "w_pending (sv_worker (run_next_functor w s) w) = w_pending (sv_worker s w) @ own_queued w s"
proof -
  have "\<exists>more. w_pending (sv_worker (run_next_functor w s) w) = w_pending (sv_worker s w) @ more"
  proof (cases "w_running (sv_worker s w)")
    case (Cons f fs)
    let ?s = "upd_worker w (\<lambda>wk. wk\<lparr>w_running := fs\<rparr>) s"
    have own: "own_fd w fd ?s" for fd using reach_own_fd [OF assms, of w fd] by (simp add: own_fd_def)
    have "\<exists>more. w_pending (sv_worker (run_functor w f ?s) w) = w_pending (sv_worker s w) @ more"
    proof (cases f)
      case (FnClose fd)
      show ?thesis
      proof (cases "conns ?s w fd")
        case None
        then show ?thesis by (simp add: FnClose force_close_none)
      next
        case (Some c)
        then show ?thesis using own [of fd] by (simp add: FnClose own_fd_def force_close_sel(3) [OF Some _ _ refl])
      qed
    qed (auto simp: add_connection_in_loop_def new_TcpConnection_def conn_start_def destroy_TcpConnection_def send_packet_in_loop_def
      send_def queue_close_connection_def queue_in_loop_def update_event_def Let_def split: option.split prod.split)
    then show ?thesis by (simp add: run_next_functor_def Cons)
  qed (simp add: run_next_functor_def)
  then show ?thesis by (auto simp: own_queued_def)
qed

text \<open>
  C13. The step model of the server is an abstraction of the event loop as it is written: each act of the threads around one worker's loop is either no
  step of the model or the step \<open>queue_in_loop\<close>, \<open>SwapFunctors\<close> or \<open>RunFunctor\<close> of that worker, which is possible there, and afterwards the two agree on
  the functors that wait and on those of the current round.
\<close>

theorem event_loop_refines:
  assumes "loop_reach l" "reach X s" "loop_shows w l s" "act_step a l = Some l'"
    and "is_turn a \<and> el_pc l = PRun \<longrightarrow> (\<exists>others seen. a = Turn others seen (own_queued w s))"
  shows "loop_shows w l' (coarse w a l s) \<and>
    (coarse w a l s = s \<or> (\<exists>f. coarse w a l s = queue_in_loop w f s) \<or>
     enabled (SwapFunctors w) s \<and> exec X (SwapFunctors w) s = (Val (), coarse w a l s) \<or>
     enabled (RunFunctor w) s \<and> exec X (RunFunctor w) s = (Val (), coarse w a l s))"
proof (cases a)
  case (Queue f)
  then show ?thesis using assms(3,4) by (auto simp: loop_shows_def queue_in_loop_def)
next
  case (Turn others seen fs)
  have inv: "loop_inv l" by (rule loop_reach_inv [OF assms(1)])
  consider "el_pc l = PSwap" | "el_pc l = PRun" | "el_pc l \<noteq> PSwap" "el_pc l \<noteq> PRun" by blast
  then show ?thesis
  proof cases
    case 1
    then have "w_running (sv_worker s w) = []" using inv assms(3) by (auto simp: loop_inv_def loop_shows_def)
    then show ?thesis using 1 assms(3,4) by (auto simp: Turn loop_shows_def swap_functors_def)
  next
    case 2
    have fs: "fs = own_queued w s" using assms(5) 2 by (simp add: Turn)
    have "loop_shows w l' (run_next_functor w s)"
      using assms(3,4) 2 pending_next [OF assms(2), of w] running_next [OF assms(2), of w] fs
      by (cases "el_fs l") (auto simp: Turn loop_shows_def queue_own run_next_functor_def)
    then show ?thesis using 2 by (simp add: Turn)
  next
    case 3
    then have "el_pending l' = el_pending l" "el_fs l' = el_fs l"
      using assms(4) by (auto simp: Turn handle_wakeup_def split: loop_pc.splits if_splits)
    then show ?thesis using 3 assms(3) by (auto simp: Turn loop_shows_def split: loop_pc.split)
  qed
qed (use assms(3,4) in \<open>auto simp: loop_shows_def stop_running_def split: if_splits\<close>)

section \<open>Examples\<close>

text \<open>A loop that sleeps, a functor that is queued, and a call of \<open>stop\<close>.\<close>

definition loop_start :: "'f event_loop" where
  "loop_start = the (new_event_loop True)"

definition loop_asked :: "nat event_loop" where
  "loop_asked = the (act_steps [Turn False False [], Queue 7, Signal] loop_start)"

definition loop_told :: "nat event_loop" where
  "loop_told = the (act_steps [Stop, Signal] loop_asked)"

lemma loop_reach_acts: "act_steps as l = Some l' \<Longrightarrow> loop_reach l \<Longrightarrow> loop_reach l'"
  by (induction as arbitrary: l) (auto split: option.splits intro: loop_reach.more)

lemma loop_reach_start: "loop_reach loop_start"
  by (rule loop_reach.init) (simp add: loop_start_def new_event_loop_def)

lemmas loop_eval = loop_start_def new_event_loop_def push_functor_def stop_running_def wakeup_def handle_wakeup_def EVENTFD_MAX_def

lemma loop_asked_eval: "act_steps [Turn False False [], Queue 7, Signal] loop_start = Some loop_asked"
  "loop_asked = \<lparr>el_running = True, el_pending = [7], el_counter = 1, el_pc = PWait, el_fs = [], el_writers = 0, el_queued = [7], el_ran = []\<rparr>"
  by (simp_all add: loop_asked_def loop_eval)

lemma loop_told_eval: "act_steps [Stop, Signal] loop_asked = Some loop_told"
  "loop_told = \<lparr>el_running = False, el_pending = [7], el_counter = 2, el_pc = PWait, el_fs = [], el_writers = 0, el_queued = [7], el_ran = []\<rparr>"
  by (simp_all add: loop_told_def loop_asked_eval loop_eval)

lemma loop_reach_asked: "loop_reach loop_asked"
  by (rule loop_reach_acts [OF loop_asked_eval(1) loop_reach_start])

lemma loop_reach_told: "loop_reach loop_told"
  by (rule loop_reach_acts [OF loop_told_eval(1) loop_reach_asked])

theorem no_lost_wakeup_witness: "loop_thread False False [] loop_asked \<noteq> None"
  using no_lost_wakeup [OF loop_reach_asked] by (simp add: loop_asked_eval del: loop_thread.simps)

theorem queued_functors_run_witness:
  "\<exists>l' more. act_steps (replicate 7 (Turn True True [])) loop_asked = Some l' \<and> el_ran l' = [7] @ more"
proof -
  have "\<exists>l'. act_steps (replicate 7 (Turn True True [])) loop_asked = Some l' \<and> el_running l'"
    by (simp add: loop_asked_eval loop_eval eval_nat_numeral)
  then obtain l' where l': "act_steps (replicate 7 (Turn True True [])) loop_asked = Some l'" "el_running l'" by blast
  from queued_functors_run [OF loop_reach_asked l'] l'(1) show ?thesis by (simp add: loop_asked_eval filter_replicate del: act_steps.simps)
qed

theorem stop_ends_loop_witness: "loop_thread False False [] loop_told \<noteq> None"
  using stop_ends_loop [OF loop_reach_told, of "[]"] by (simp add: loop_told_eval del: loop_thread.simps)

theorem event_loop_refines_witness:
  "loop_shows 0 (push_functor (FnClose 5) (loop_start\<lparr>el_writers := 1\<rparr>)) (queue_in_loop 0 (FnClose 5) demo_one)"
  using event_loop_refines [OF loop_reach_start reach_demo_one, of 0 "Queue (FnClose 5)" "push_functor (FnClose 5) (loop_start\<lparr>el_writers := 1\<rparr>)"]
  by (simp add: loop_shows_def loop_eval demo_one_eval)

end
