(* ===== verification/References.thy ===== *)
theory References
  imports Demo
begin

text \<open>
  References to contexts travel far in the server: through the session table, the task queue, the functor queues of the workers, the
  requests to the AI manager and its running answers. They are always references to contexts that exist, and a packet only ever waits in the queue of the
  worker that owns the context, so that the buffers of a context are used by one thread.
\<close>

section \<open>Where references are\<close>

fun fn_ok :: "nat \<Rightarrow> (ctx_ref \<Rightarrow> nat option) \<Rightarrow> nat \<Rightarrow> loop_fn \<Rightarrow> bool" where
  "fn_ok n own w (FnSendPacket r c m b) = (r < n \<and> own r = Some w)"
| "fn_ok n own w _ = True"

fun task_ref :: "task \<Rightarrow> ctx_ref" where
  "task_ref (TaskBusiness r hdr body) = r"
| "task_ref (TaskStream req) = sr_ctx req"

text \<open>\<open>n\<close> contexts exist, and \<open>own\<close> says which worker owns which.\<close>

definition refs_in :: "nat \<Rightarrow> (ctx_ref \<Rightarrow> nat option) \<Rightarrow> ('t, 'm) server \<Rightarrow> bool" where
  "refs_in n own s \<longleftrightarrow>
     hp_next (sv_heap s) = n \<and> (\<forall>x. cc_owner_worker (ctx_of s x) = own x) \<and>
     (\<forall>w. \<forall>f \<in> set (w_running (sv_worker s w)) \<union> set (w_pending (sv_worker s w)). fn_ok n own w f) \<and>
     (\<forall>u r. session_get (sv_sessions s) u = Some r \<longrightarrow> r < n) \<and>
     (\<forall>t \<in> set (tasks (sv_pool s)). task_ref t < n) \<and>
     (\<forall>q \<in> set (pending_requests (sv_ai s)). sr_ctx q < n) \<and> (\<forall>(fd, q) \<in> set (active_streams (sv_ai s)). sr_ctx q < n) \<and>
     (\<forall>st \<in> set (sv_streams s). sr_ctx (as_req st) < n)"

definition refs_ok :: "('t, 'm) server \<Rightarrow> bool" where
  "refs_ok s \<longleftrightarrow> refs_in (hp_next (sv_heap s)) (\<lambda>x. cc_owner_worker (ctx_of s x)) s"

lemma refs_okI: "refs_in n own s \<Longrightarrow> refs_ok s"
  by (simp add: refs_ok_def refs_in_def)

section \<open>The business layer\<close>

lemma keeps_gets_bind:
  assumes "\<And>s. I s \<Longrightarrow> Q (g s)" "\<And>x. Q x \<Longrightarrow> keeps I (f x)"
  shows "keeps I (bindP (getsP g) f)"
proof (rule keepsI)
  fix s assume "I s"
  with keepsD [OF assms(2)] assms(1) show "I (snd (bindP (getsP g) f s))" by simp
qed

lemma keeps_refs_send: "t < n \<Longrightarrow> keeps (refs_in n own) (send_to t c m b)"
  by (rule keepsI) (auto simp: send_to_def queue_send_packet_def queue_in_loop_def refs_in_def split: option.split)

lemma keeps_refs_db [keeps_intros]: "keeps (refs_in n own) (with_db m)"
  by (rule keepsI) (auto simp: with_db_def refs_in_def split: option.split prod.split)

lemma keeps_refs_rate [keeps_intros]: "keeps (refs_in n own) (rate_limited r)"
  by (rule keepsI) (simp add: rate_limited_def refs_in_def run_seqP rate_update_def Let_def)

lemma keeps_refs_bind: "r < n \<Longrightarrow> keeps (refs_in n own) (bind uid r)"
  by (rule keepsI) (auto simp: bind_def run_seqP refs_in_def queue_close_connection_def queue_in_loop_def split: option.split)

lemma keeps_refs_submit:
  "r < n \<Longrightarrow> keeps (refs_in n own) (\<lambda>s. case submit_stream_request uid p r s of (ok, s') \<Rightarrow> (Val ok, s'))"
  by (rule keepsI) (auto simp: submit_stream_request_def refs_in_def Let_def)

lemma keeps_refs_lookup:
  assumes "\<And>t. t < n \<Longrightarrow> keeps (refs_in n own) (f (Some t))" "keeps (refs_in n own) (f None)"
  shows "keeps (refs_in n own) (bindP (getsP (\<lambda>s. session_get (sv_sessions s) u)) f)"
proof (rule keeps_gets_bind [where Q = "\<lambda>x. \<forall>t. x = Some t \<longrightarrow> t < n"])
  show "keeps (refs_in n own) (f x)" if "\<forall>t. x = Some t \<longrightarrow> t < n" for x using that assms by (cases x) auto
qed (auto simp: refs_in_def)

lemma keeps_refs_notify [keeps_intros]: "keeps (refs_in n own) (notify X u m)"
  unfolding notify_def send_response_def by (rule keeps_refs_lookup) (auto intro: keeps_refs_send keeps_intros)

lemma keeps_refs_message [keeps_intros]: "keeps (refs_in n own) (submit_message a b m d)"
  unfolding submit_message_def has_db_def by (intro keeps_intros)

lemma keeps_refs_chat:
  assumes "r < n"
  shows "keeps (refs_in n own) (handle_chat X r m body)"
proof (cases "parse_ChatMessage (x_codec X) body")
  case None
  then show ?thesis by (simp add: handle_chat_def keeps_ret)
next
  case (Some msg)
  show ?thesis
    unfolding handle_chat_def Some option.case send_response_def uid_of_def handle_ai_chat_def
    by (rule keeps_if, intro keeps_intros keeps_refs_submit keeps_refs_send assms, rule keeps_refs_lookup)
      (simp_all only: option.case, (intro keeps_intros keeps_refs_send assms | assumption)+)
qed

lemma keeps_refs_business:
  assumes "r < n"
  shows "keeps (refs_in n own) (process_business X r hdr body)"
  unfolding process_business_def business_error_def handle_command_def handle_login_def handle_register_def handle_heartbeat_def
    handle_add_friend_def handle_accept_friend_def handle_friend_list_def handle_search_user_def handle_friend_requests_def
    send_response_def uid_of_def has_db_def send_users_def deliver_offline_def
  by (intro keeps_intros keeps_refs_chat keeps_refs_send keeps_refs_bind assms)

section \<open>The AI manager\<close>

lemma refs_send_chunk: "refs_in n own s \<Longrightarrow> r < n \<Longrightarrow> refs_in n own (send_stream_chunk X uid r chunk f l i s)"
  by (auto simp: send_stream_chunk_def queue_send_packet_def queue_in_loop_def refs_in_def Let_def split: option.split)

lemma update_member: "set (AList.update k v xs) \<subseteq> insert (k, v) (set xs)"
  by (induction xs) auto

lemma refs_schedule:
  assumes "refs_in n own s"
  shows "refs_in n own (schedule_requests X s)"
proof (cases "pending_requests (sv_ai s)")
  case Nil
  then show ?thesis using assms by (simp add: schedule_requests_def)
next
  case (Cons req rest)
  let ?s1 = "s\<lparr>sv_ai := (sv_ai s)\<lparr>pending_requests := rest\<rparr>\<rparr>"
  have r: "sr_ctx req < n" and s1: "refs_in n own ?s1" using assms Cons by (auto simp: refs_in_def)
  have "refs_in n own (enqueue_task (TaskStream req)
      (?s1\<lparr>sv_ai := (sv_ai ?s1)\<lparr>active_streams := AList.update fd req (active_streams (sv_ai ?s1))\<rparr>\<rparr>))" for fd
    using s1 r update_member [of fd req "active_streams (sv_ai s)"]
    by (fastforce simp: refs_in_def enqueue_task_def enqueue_def)
  then show ?thesis
    using assms refs_send_chunk [OF s1 r, of X] by (simp add: schedule_requests_def Cons Let_def send_error_response_def s1)
qed

lemma refs_erase: "refs_in n own s \<Longrightarrow> refs_in n own (erase_stream r s)"
  by (auto simp: refs_in_def erase_stream_def Let_def AList.delete_eq)

text \<open>A running answer keeps its context.\<close>

definition stream_ok :: "nat \<Rightarrow> (ctx_ref \<Rightarrow> nat option) \<Rightarrow> ai_stream \<times> ('t, 'm) server \<Rightarrow> bool" where
  "stream_ok n own = (\<lambda>(st, s). sr_ctx (as_req st) < n \<and> refs_in n own s)"

lemma stream_ok_next: "stream_ok n own (st, s) \<Longrightarrow> stream_ok n own (send_next X st chunk l s)"
  by (auto simp: stream_ok_def send_next_def Let_def refs_send_chunk)

lemma stream_ok_chunk: "stream_ok n own (st, s) \<Longrightarrow> stream_ok n own (on_chunk X chunk st s)"
  by (auto simp: on_chunk_def Let_def stream_ok_def send_next_def refs_send_chunk)

lemma stream_ok_complete: "stream_ok n own (st, s) \<Longrightarrow> stream_ok n own (on_complete X st s)"
  by (auto simp: on_complete_def Let_def stream_ok_def send_next_def refs_send_chunk)

lemma stream_ok_fallback: "stream_ok n own (st, s) \<Longrightarrow> stream_ok n own (send_fallback X msg st s)"
proof (induction X msg st s rule: send_fallback.induct)
  case (1 X msg st s)
  obtain st1 s1 where next_piece: "(if cc_fd (ctx_of s (sr_ctx (as_req st))) \<ge> 0
      then send_next X st (take 15 msg) (length msg \<le> 15) s else (st, s)) = (st1, s1)" by fastforce
  then have "stream_ok n own (st1, s1)"
    using stream_ok_next [OF "1.prems", of X "take 15 msg" "length msg \<le> 15"] "1.prems" by (auto split: if_splits)
  with "1.IH" [OF _ next_piece [symmetric]] "1.prems" next_piece show ?case by (subst send_fallback.simps) auto
qed

lemma refs_stream_end:
  assumes "stream_ok n own (st, s)"
  shows "refs_in n own (stream_end X ok st s)"
proof -
  obtain st1 s1 where a: "(if ok then on_complete X st s else (st, s)) = (st1, s1)" by fastforce
  obtain st2 s2 where b: "(if \<not> ok \<and> \<not> as_conn_lost st1
      then send_fallback X (generate_fallback_response X (sv_wall s1) (sr_prompt (as_req st1))) st1 s1 else (st1, s1)) = (st2, s2)"
    by fastforce
  have "stream_ok n own (st1, s1)" using assms stream_ok_complete [OF assms, of X] a by (auto split: if_splits)
  then have "stream_ok n own (st2, s2)"
    using stream_ok_fallback [of n own st1 s1 X] b by (auto split: if_splits) (metis)
  then show ?thesis by (simp add: stream_end_def stream_finish_def a b stream_ok_def refs_erase)
qed

lemma refs_streams:
  assumes "refs_in n own s" "i < length (sv_streams s)"
  shows "refs_in n own (stream_chunk_step X i chunk s)" "refs_in n own (stream_end_step X i ok s)"
proof -
  have st: "stream_ok n own (sv_streams s ! i, s)" using assms nth_mem [OF assms(2)] by (auto simp: stream_ok_def refs_in_def)
  show "refs_in n own (stream_chunk_step X i chunk s)"
    using stream_ok_chunk [OF st, of X chunk] set_update_subset_insert [of _ i]
    by (fastforce simp: stream_chunk_step_def stream_ok_def refs_in_def split: prod.splits)
  show "refs_in n own (stream_end_step X i ok s)"
    using refs_stream_end [OF st, of X ok] by (auto simp: stream_end_step_def Let_def refs_in_def dest: in_set_takeD in_set_dropD)
qed

lemma refs_run_task:
  assumes "refs_in n own s"
  shows "refs_in n own (snd (run_task X s))"
proof (cases "tasks (sv_pool s)")
  case Nil
  then show ?thesis using assms by (simp add: run_task_def take_task_Nil)
next
  case (Cons t ts)
  let ?s = "s\<lparr>sv_pool := (sv_pool s)\<lparr>tasks := ts\<rparr>\<rparr>"
  have s: "refs_in n own ?s" and t: "task_ref t < n" using assms Cons by (auto simp: refs_in_def)
  show ?thesis
  proof (cases t)
    case (TaskBusiness r hdr body)
    then show ?thesis
      using keepsD [OF keeps_thread [OF keeps_refs_business] s, of r X hdr body] t by (simp add: run_task_def take_task_Cons [OF Cons])
  next
    case (TaskStream req)
    have "refs_in n own (?s\<lparr>sv_streams := sv_streams ?s @ [\<lparr>as_req = req, as_buffer = [], as_last_flush = sv_tick s, as_conn_lost = False\<rparr>]\<rparr>)"
      using s t by (auto simp: refs_in_def TaskStream)
    then show ?thesis
      using s refs_erase [OF s] by (simp add: run_task_def take_task_Cons [OF Cons] TaskStream stream_start_def)
  qed
qed

section \<open>The worker threads\<close>

text \<open>A step that makes no packet functor, no session and no request, and at most tasks for a context that exists.\<close>

definition fewer_refs :: "('t, 'm) server \<Rightarrow> ('t, 'm) server \<Rightarrow> bool" where
  "fewer_refs s s' \<longleftrightarrow>
     hp_next (sv_heap s) \<le> hp_next (sv_heap s') \<and>
     (\<forall>r < hp_next (sv_heap s). cc_owner_worker (ctx_of s' r) = cc_owner_worker (ctx_of s r)) \<and>
     (\<forall>w r c m b. FnSendPacket r c m b \<in> set (w_running (sv_worker s' w)) \<union> set (w_pending (sv_worker s' w)) \<longrightarrow>
        FnSendPacket r c m b \<in> set (w_running (sv_worker s w)) \<union> set (w_pending (sv_worker s w))) \<and>
     (\<forall>u r. session_get (sv_sessions s') u = Some r \<longrightarrow> session_get (sv_sessions s) u = Some r) \<and>
     (\<forall>t \<in> set (tasks (sv_pool s')). t \<in> set (tasks (sv_pool s)) \<or> task_ref t < hp_next (sv_heap s')) \<and>
     pending_requests (sv_ai s') = pending_requests (sv_ai s) \<and>
     set (active_streams (sv_ai s')) \<subseteq> set (active_streams (sv_ai s)) \<and> sv_streams s' = sv_streams s"

lemma fewer_refl [simp]: "fewer_refs s s"
  by (simp add: fewer_refs_def)

lemma fewer_trans:
  assumes "fewer_refs s s1" "fewer_refs s1 s2"
  shows "fewer_refs s s2"
proof -
  have le: "hp_next (sv_heap s) \<le> hp_next (sv_heap s1)" "hp_next (sv_heap s1) \<le> hp_next (sv_heap s2)"
    using assms by (simp_all add: fewer_refs_def)
  have "\<forall>r < hp_next (sv_heap s). cc_owner_worker (ctx_of s2 r) = cc_owner_worker (ctx_of s r)"
    using assms le(1) unfolding fewer_refs_def by (metis less_le_trans)
  moreover have "\<forall>t \<in> set (tasks (sv_pool s2)). t \<in> set (tasks (sv_pool s)) \<or> task_ref t < hp_next (sv_heap s2)"
    using assms le(2) unfolding fewer_refs_def by (metis less_le_trans)
  ultimately show ?thesis using assms le unfolding fewer_refs_def by (simp, blast)
qed

lemma refs_fewer:
  assumes "refs_ok s" "fewer_refs s s'"
  shows "refs_ok s'"
proof -
  have "fn_ok (hp_next (sv_heap s')) (\<lambda>x. cc_owner_worker (ctx_of s' x)) w f"
    if "f \<in> set (w_running (sv_worker s' w)) \<union> set (w_pending (sv_worker s' w))" for w f
  proof (cases f)
    case (FnSendPacket r c m b)
    then have "f \<in> set (w_running (sv_worker s w)) \<union> set (w_pending (sv_worker s w))"
      using that assms(2) unfolding fewer_refs_def by blast
    then have "fn_ok (hp_next (sv_heap s)) (\<lambda>x. cc_owner_worker (ctx_of s x)) w f"
      using assms(1) unfolding refs_ok_def refs_in_def by blast
    then show ?thesis using assms(2) by (auto simp: fewer_refs_def FnSendPacket)
  qed simp_all
  moreover have up: "r < hp_next (sv_heap s) \<Longrightarrow> r < hp_next (sv_heap s')" for r using assms(2) by (simp add: fewer_refs_def)
  have ok: "refs_in (hp_next (sv_heap s)) (\<lambda>x. cc_owner_worker (ctx_of s x)) s" using assms(1) by (simp add: refs_ok_def)
  have "session_get (sv_sessions s') u = Some r \<Longrightarrow> r < hp_next (sv_heap s')" for u r
    using ok assms(2) up unfolding refs_in_def fewer_refs_def by metis
  moreover have "t \<in> set (tasks (sv_pool s')) \<Longrightarrow> task_ref t < hp_next (sv_heap s')" for t
    using ok assms(2) up unfolding refs_in_def fewer_refs_def by metis
  moreover have "q \<in> set (pending_requests (sv_ai s')) \<Longrightarrow> sr_ctx q < hp_next (sv_heap s')" for q
    using ok assms(2) up unfolding refs_in_def fewer_refs_def by metis
  moreover have "(fd, q) \<in> set (active_streams (sv_ai s')) \<Longrightarrow> sr_ctx q < hp_next (sv_heap s')" for fd q
  proof -
    assume "(fd, q) \<in> set (active_streams (sv_ai s'))"
    then have "(fd, q) \<in> set (active_streams (sv_ai s))" using assms(2) unfolding fewer_refs_def by blast
    then show ?thesis using ok up unfolding refs_in_def by auto
  qed
  moreover have "st \<in> set (sv_streams s') \<Longrightarrow> sr_ctx (as_req st) < hp_next (sv_heap s')" for st
    using ok assms(2) up unfolding refs_in_def fewer_refs_def by metis
  ultimately show ?thesis unfolding refs_ok_def refs_in_def by blast
qed

lemma fewer_upd [simp]:
  "(\<And>x. cc_owner_worker (f x) = cc_owner_worker x) \<Longrightarrow> fewer_refs s (upd_ctx r f s)" "fewer_refs s (update_event w fd evs s)"
  "fewer_refs s (start_heartbeat_timer w fd s)" "fewer_refs s (queue_close_connection w fd s)" "fewer_refs s (queue_add_connection w fd ip port s)"
  by (auto simp: fewer_refs_def update_event_def start_heartbeat_timer_def cancel_heartbeat_timer_def queue_close_connection_def
      queue_add_connection_def queue_in_loop_def Let_def split: option.split prod.split)

lemma fewer_close: "fewer_refs s (force_close_in_loop w fd s)"
  by (auto simp: fewer_refs_def close_defs cancel_heartbeat_timer_def ctx_reset_def split: option.split prod.split if_splits)

lemma fewer_write: "fewer_refs s (handle_write w c ws s)"
proof -
  obtain buf closed where out: "write_out ws (cc_send_buf (ctx_of s (tc_ctx c))) = (buf, closed)" by fastforce
  let ?s1 = "upd_ctx (tc_ctx c) (\<lambda>x. x\<lparr>cc_send_buf := buf\<rparr>) s"
  have s1: "fewer_refs s ?s1" by simp
  have "fewer_refs ?s1 (update_event w (tc_fd c) read_events (upd_ctx (tc_ctx c) (\<lambda>x. x\<lparr>cc_writing := False\<rparr>) ?s1))"
    by (rule fewer_trans [OF fewer_upd(1) fewer_upd(2)]) simp
  from s1 fewer_trans [OF s1 this] fewer_trans [OF s1 fewer_close] show ?thesis by (auto simp: handle_write_effect out Let_def)
qed

lemma fewer_read_socket: "fewer_refs s (snd (read_socket w c rs s))"
proof (induction w c rs s rule: read_socket.induct)
  case (4 w c d rs s)
  let ?s1 = "start_heartbeat_timer w (tc_fd c)
      (upd_ctx (tc_ctx c) (\<lambda>x. update_time (sv_tick s div 1000) (x\<lparr>cc_recv_buf := cc_recv_buf x @ d\<rparr>)) s)"
  have "fewer_refs s ?s1" by (rule fewer_trans [OF fewer_upd(1) fewer_upd(3)]) (simp add: update_time_def)
  then show ?case using 4 by (auto simp: fewer_close intro: fewer_trans)
qed (simp_all add: fewer_close)

lemma fewer_enqueue: "r < hp_next (sv_heap s) \<Longrightarrow> fewer_refs s (enqueue_task (TaskBusiness r hdr body) s)"
  by (simp add: fewer_refs_def enqueue_task_def enqueue_def)

lemma fewer_fold_enqueue:
  "r < hp_next (sv_heap s) \<Longrightarrow> fewer_refs s (fold (\<lambda>(hdr, body). enqueue_task (TaskBusiness r hdr body)) ps s)"
proof (induction ps arbitrary: s)
  case (Cons p ps)
  have "fewer_refs s (enqueue_task (TaskBusiness r (fst p) (snd p)) s)" by (rule fewer_enqueue [OF Cons.prems])
  moreover have "r < hp_next (sv_heap (enqueue_task (TaskBusiness r (fst p) (snd p)) s))" using Cons.prems by (simp add: enqueue_task_def)
  ultimately show ?case using Cons.IH fewer_trans by (simp add: case_prod_unfold) blast
qed simp

lemma fewer_take_packets:
  assumes "tc_ctx c < hp_next (sv_heap s)"
  shows "fewer_refs s (take_packets w c s)"
proof -
  obtain ps rest ok where run: "read_packets (cc_recv_buf (ctx_of s (tc_ctx c))) = (ps, rest, ok)"
    by (cases "read_packets (cc_recv_buf (ctx_of s (tc_ctx c)))") auto
  let ?s0 = "upd_ctx (tc_ctx c) (\<lambda>x. x\<lparr>cc_recv_buf := rest\<rparr>) s"
  let ?s1 = "fold (\<lambda>(hdr, body). enqueue_task (TaskBusiness (tc_ctx c) hdr body)) ps ?s0"
  have "fewer_refs s ?s0" by simp
  moreover have "fewer_refs ?s0 ?s1" using assms by (intro fewer_fold_enqueue) simp
  ultimately have "fewer_refs s ?s1" by (rule fewer_trans)
  with fewer_close [of ?s1 w "tc_fd c"] show ?thesis by (auto simp: take_packets_def run Let_def intro: fewer_trans)
qed

lemma fewer_events:
  assumes "net_inv s"
  shows "fewer_refs s (snd (handle_events w fd revents rs ws s))"
proof (cases "conns s w fd")
  case (Some c)
  obtain go_on s1 where rd: "read_socket w c rs s = (go_on, s1)" by fastforce
  have s1: "fewer_refs s s1" using fewer_read_socket [of s w c rs] rd by simp
  have "tc_ctx c < hp_next (sv_heap s)" using conn_invD(5) [OF net_inv_conn [OF assms] Some] .
  then have "tc_ctx c < hp_next (sv_heap s1)" using s1 by (simp add: fewer_refs_def)
  then have read: "fewer_refs s (handle_read w c rs s)"
    using s1 fewer_trans [OF s1 fewer_take_packets] by (simp add: handle_read_def rd)
  show ?thesis
    using Some read by (auto simp: handle_events_def run_seqP run_bindP fewer_close fewer_write intro: fewer_trans split: option.split)
qed (simp add: handle_events_def)

lemma fewer_add:
  assumes "conns s w fd = None"
  shows "fewer_refs s (add_connection_in_loop w fd ip port s)"
proof -
  obtain r p h where acq: "acquire (w_pool (sv_worker s w)) (sv_heap s) = (r, p, h)"
    by (cases "acquire (w_pool (sv_worker s w)) (sv_heap s)") auto
  have h: "hp_next (sv_heap s) \<le> hp_next h" "x < hp_next (sv_heap s) \<Longrightarrow> hp h x = ctx_of s x" for x
    using acq by (auto simp: acquire_def make_shared_def split: if_splits)
  show ?thesis
    using assms acq h
    by (auto simp: fewer_refs_def add_connection_in_loop_def new_TcpConnection_def conn_start_def start_heartbeat_timer_def
        cancel_heartbeat_timer_def update_time_def Let_def split: option.split prod.split)
qed

lemma fewer_functor:
  assumes "net_inv s"
  shows "fewer_refs s (run_next_functor w s)"
proof (cases "w_running (sv_worker s w)")
  case (Cons f fs)
  let ?s = "upd_worker w (\<lambda>wk. wk\<lparr>w_running := fs\<rparr>) s"
  have pop: "fewer_refs s ?s" using Cons by (auto simp: fewer_refs_def)
  have "fewer_refs ?s (run_functor w f ?s)"
  proof (cases f)
    case (FnAddConn fd ip port)
    have "wait_inv s" using assms by (simp add: net_inv_def)
    then have "conns ?s w fd = None" using waiting_head(3) [OF _ Cons [unfolded FnAddConn]] by simp
    from fewer_add [OF this] show ?thesis by (simp add: FnAddConn)
  next
    case (FnSendPacket r cm n b)
    have "fewer_refs s2 (send w conn bytes s2)" for conn bytes and s2 :: "('a, 'b) server"
      by (auto simp: send_def Let_def fewer_refs_def update_event_def queue_close_connection_def queue_in_loop_def)
    then show ?thesis by (simp add: FnSendPacket send_packet_in_loop_def Let_def split: option.split)
  next
    case (FnClose fd)
    then show ?thesis by (simp add: fewer_close)
  qed
  with pop show ?thesis by (simp add: run_next_functor_def Cons) (rule fewer_trans)
qed (simp add: run_next_functor_def)

lemma refs_exec:
  assumes "net_inv s" "refs_ok s" "enabled e s"
  shows "refs_ok (snd (exec X e s))"
proof -
  have ok: "refs_in (hp_next (sv_heap s)) (\<lambda>x. cc_owner_worker (ctx_of s x)) s" using assms(2) by (simp add: refs_ok_def)
  note fewer = refs_fewer [OF assms(2)]
  show ?thesis
  proof (cases e)
    case (Accept w fd ip port)
    have "fewer_refs s (s\<lparr>sv_open := insert fd (sv_open s)\<rparr>)" by (simp add: fewer_refs_def)
    from fewer [OF fewer_trans [OF this fewer_upd(5)]] show ?thesis by (simp add: Accept)
  next
    case (SocketEvent w fd revents rs ws)
    then show ?thesis using fewer [OF fewer_events [OF assms(1)]] by simp
  next
    case (TimerCheck w)
    have "fewer_refs s (upd_worker w (\<lambda>wk. wk\<lparr>w_timer := t\<rparr>) s)" for t by (simp add: fewer_refs_def)
    from fewer [OF fewer_trans [OF this fewer_close]] show ?thesis
      using assms(2) by (auto simp: TimerCheck check_timer_def split: option.split)
  next
    case (SwapFunctors w)
    have "fewer_refs s (swap_functors w s)" by (auto simp: fewer_refs_def swap_functors_def split: if_splits)
    then show ?thesis using fewer by (simp add: SwapFunctors)
  next
    case (RunFunctor w)
    then show ?thesis using fewer [OF fewer_functor [OF assms(1)]] by simp
  next
    case DbRound
    have "refs_in (hp_next (sv_heap s)) (\<lambda>x. cc_owner_worker (ctx_of s x)) (snd (db_round X s))"
      by (rule keepsD [of "refs_in (hp_next (sv_heap s)) (\<lambda>x. cc_owner_worker (ctx_of s x))", OF _ ok]) (unfold db_round_def has_db_def, intro keeps_intros)
    then show ?thesis by (simp add: DbRound refs_okI)
  next
    case (Tick ms wall)
    have "fewer_refs s (s\<lparr>sv_tick := sv_tick s + ms, sv_wall := wall\<rparr>)" by (simp add: fewer_refs_def)
    then show ?thesis using fewer by (simp add: Tick)
  qed (use ok assms(3) in \<open>auto intro: refs_okI refs_run_task refs_schedule refs_streams\<close>)
qed

lemma refs_reach: "reach X s \<Longrightarrow> refs_ok s"
proof (induction rule: reach.induct)
  case (start s)
  then show ?case
    by (auto simp: initial_def refs_ok_def refs_in_def session_get_no new_pool_def)
next
  case (step s e s')
  then show ?case using refs_exec [OF reach_net_inv [OF step.hyps(1)] step.IH step.hyps(2), of X] by simp
qed

text \<open>
  C9. References are well typed: in every reachable state each context that a connection, a session, a task, a queued packet, an AI request or a
  running answer refers to exists; and a packet for a context waits in the queue of no other worker than the one that owns the
  context, so that the send buffer of a client is only used by the thread of its worker.
\<close>

theorem references_typed:
  assumes "reach X s"
  shows "(conns s w fd = Some c \<longrightarrow> tc_ctx c < hp_next (sv_heap s)) \<and>
    (FnSendPacket r cm n b \<in> set (w_running (sv_worker s w)) \<union> set (w_pending (sv_worker s w)) \<longrightarrow>
       r < hp_next (sv_heap s) \<and> cc_owner_worker (ctx_of s r) = Some w) \<and>
    (session_get (sv_sessions s) uid = Some r \<longrightarrow> r < hp_next (sv_heap s)) \<and>
    (t \<in> set (tasks (sv_pool s)) \<longrightarrow> task_ref t < hp_next (sv_heap s)) \<and>
    (q \<in> set (pending_requests (sv_ai s)) \<union> snd ` set (active_streams (sv_ai s)) \<union> as_req ` set (sv_streams s) \<longrightarrow>
       sr_ctx q < hp_next (sv_heap s))"
proof -
  have ok: "refs_in (hp_next (sv_heap s)) (\<lambda>x. cc_owner_worker (ctx_of s x)) s" using refs_reach [OF assms] by (simp add: refs_ok_def)
  have "fn_ok (hp_next (sv_heap s)) (\<lambda>x. cc_owner_worker (ctx_of s x)) w f"
    if "f \<in> set (w_running (sv_worker s w)) \<union> set (w_pending (sv_worker s w))" for f
    using ok that unfolding refs_in_def by blast
  from this [of "FnSendPacket r cm n b"] show ?thesis
    using ok conn_invD(5) [OF net_inv_conn [OF reach_net_inv [OF assms]], of w fd c] unfolding refs_in_def by auto
qed

theorem references_typed_witness: "tc_ctx (demo_conn 6 2) < hp_next (sv_heap demo_two)"
  using references_typed [OF reach_demo_two, of 0 6 "demo_conn 6 2"] demo_two_second(1) by blast

end
