(* ===== verification/Shutdown.thy ===== *)
theory Shutdown
  imports Main_Loop Business_Safe
begin

text \<open>
  The end of \<open>main\<close>: the workers, the AI manager, the storage and the thread pool are destroyed one after the other, while the threads of what is not yet
  destroyed go on. The steps of \<open>main\<close> interleave with the events of these threads; an access to an object that is gone is a fault, which
  is read off the place of \<open>main\<close>.
\<close>

section \<open>Destructors\<close>

text \<open>
  A worker: when its thread has left the loop, its members go, and with the map of connections the connections, in the order in which the
  map is gone through. Descriptors in functors that did not run are not closed, and the contexts, which other threads share, keep what they hold.
\<close>

definition drop_connection :: "nat \<Rightarrow> int \<Rightarrow> ('t, 'm) server \<Rightarrow> ('t, 'm) server" where
  "drop_connection w fd s = (case conns s w fd of None \<Rightarrow> s | Some c \<Rightarrow>
     destroy_TcpConnection c (upd_worker w (\<lambda>wk. wk\<lparr>w_connections := (w_connections wk)(fd := None)\<rparr>) s))"

definition gone_worker :: worker where
  "gone_worker = new_worker \<lparr>storage = [], free_list = []\<rparr>"

definition destroy_worker :: "((int \<rightharpoonup> TcpConnection) \<Rightarrow> int list) \<Rightarrow> nat \<Rightarrow> ('t, 'm) server \<Rightarrow> ('t, 'm) server" where
  "destroy_worker order w s = upd_worker w (\<lambda>wk. gone_worker) (fold (drop_connection w) (order (conns s w)) s)"

text \<open>The AI manager: what waits in its queue is dropped.\<close>

definition destroy_ai :: "ai_manager \<Rightarrow> ai_manager" where
  "destroy_ai a = a\<lparr>pending_requests := [], active_streams := []\<rparr>"

text \<open>The storage: the thread is told to stop; when it is joined the object goes, with what is queued.\<close>

definition stop_db :: "('t, 'm) server \<Rightarrow> ('t, 'm) server" where
  "stop_db s = s\<lparr>sv_db := map_option (\<lambda>d. d\<lparr>db_running := False\<rparr>) (sv_db s)\<rparr>"

definition destroy_db :: "('t, 'm) server \<Rightarrow> ('t, 'm) server" where
  "destroy_db s = s\<lparr>sv_db := None\<rparr>"

text \<open>The pool: its threads run what is queued; the destructor returns when they have left.\<close>

definition destroy_pool :: "('t, 'm) server \<Rightarrow> ('t, 'm) server option" where
  "destroy_pool s = (if tasks (sv_pool s) = [] \<and> sv_streams s = [] then Some (s\<lparr>sv_pool := pool_shutdown (sv_pool s)\<rparr>) else None)"

section \<open>The end of main\<close>

text \<open>
  Where \<open>main\<close> is: in \<open>workers.clear()\<close>, with the first \<open>k\<close> workers destroyed; in the destructor of the manager, when \<open>g_streaming_ai\<close> is null and the
  scheduler is joined; before \<open>g_db_writer.reset()\<close>; in the destructor of the storage, when \<open>g_db_writer\<close> is null and the writer is joined; in the
  destructor of the pool; at its \<open>return\<close>.
\<close>

datatype end_pc = EndWorkers nat | EndManager | EndStorage | EndWriter | EndPool | EndReturn

text \<open>
  \<open>en_round\<close>: the thread that is being joined (the scheduler, the writer) may still be inside the body of its loop and finish this one round.
\<close>

record ('t, 'm) ending =
  en_pc :: end_pc
  en_round :: bool
  en_server :: "('t, 'm) server"

definition begin_end :: "('t, 'm) server \<Rightarrow> ('t, 'm) ending" where
  "begin_end s = \<lparr>en_pc = EndWorkers 0, en_round = False, en_server = s\<rparr>"

text \<open>
  A step of \<open>main\<close>, with \<open>n\<close> workers. It waits for a worker that is in the middle of its functors, and for the threads of the pool.
\<close>

fun main_end :: "((int \<rightharpoonup> TcpConnection) \<Rightarrow> int list) \<Rightarrow> nat \<Rightarrow> ('t, 'm) ending \<Rightarrow> ('t, 'm) ending option" where
  "main_end order n st = (let s = en_server st in case en_pc st of
     EndWorkers k \<Rightarrow>
       if k < n then (if w_running (sv_worker s k) = []
         then Some (st\<lparr>en_pc := EndWorkers (Suc k), en_server := destroy_worker order k s\<rparr>) else None)
       else Some (st\<lparr>en_pc := EndManager, en_round := True\<rparr>)
   | EndManager \<Rightarrow> Some (st\<lparr>en_pc := EndStorage, en_round := False, en_server := s\<lparr>sv_ai := destroy_ai (sv_ai s)\<rparr>\<rparr>)
   | EndStorage \<Rightarrow> Some (st\<lparr>en_pc := EndWriter, en_round := True, en_server := stop_db s\<rparr>)
   | EndWriter \<Rightarrow> Some (st\<lparr>en_pc := EndPool, en_round := False, en_server := destroy_db s\<rparr>)
   | EndPool \<Rightarrow> (case destroy_pool s of None \<Rightarrow> None | Some s' \<Rightarrow> Some (st\<lparr>en_pc := EndReturn, en_server := s'\<rparr>))
   | EndReturn \<Rightarrow> None)"

section \<open>The other threads meanwhile\<close>

fun worker_gone :: "nat \<Rightarrow> end_pc \<Rightarrow> nat \<Rightarrow> bool" where
  "worker_gone n (EndWorkers k) w = (w < k)"
| "worker_gone n _ w = (w < n)"

definition manager_null :: "end_pc \<Rightarrow> bool" where
  "manager_null pc = (case pc of EndWorkers k \<Rightarrow> False | _ \<Rightarrow> True)"

definition manager_gone :: "end_pc \<Rightarrow> bool" where
  "manager_gone pc = (case pc of EndWorkers k \<Rightarrow> False | EndManager \<Rightarrow> False | _ \<Rightarrow> True)"

definition storage_null :: "end_pc \<Rightarrow> bool" where
  "storage_null pc = (pc = EndWriter \<or> pc = EndPool \<or> pc = EndReturn)"

text \<open>Which threads there are: nobody accepts; a thread that was joined does nothing any more.\<close>

fun may_run :: "nat \<Rightarrow> end_pc \<Rightarrow> bool \<Rightarrow> event \<Rightarrow> bool" where
  "may_run n pc r (Accept w fd ip port) = False"
| "may_run n pc r (SocketEvent w fd revents rs ws) = (w < n \<and> \<not> worker_gone n pc w)"
| "may_run n pc r (TimerCheck w) = (w < n \<and> \<not> worker_gone n pc w)"
| "may_run n pc r (SwapFunctors w) = (w < n \<and> \<not> worker_gone n pc w)"
| "may_run n pc r (RunFunctor w) = (w < n \<and> \<not> worker_gone n pc w)"
| "may_run n pc r RunTask = (pc \<noteq> EndReturn)"
| "may_run n pc r (StreamChunk i chunk) = (pc \<noteq> EndReturn)"
| "may_run n pc r (StreamEnd i ok) = (pc \<noteq> EndReturn)"
| "may_run n pc r Schedule = (\<not> manager_gone pc \<and> (manager_null pc \<longrightarrow> r))"
| "may_run n pc r DbRound = (pc \<noteq> EndPool \<and> pc \<noteq> EndReturn \<and> (pc = EndWriter \<longrightarrow> r))"
| "may_run n pc r (Tick ms wall) = True"

text \<open>What runs inside the manager: the scheduler, and a pool thread with an answer, which uses the manager's HTTP clients and its lock.\<close>

definition stream_task_next :: "('t, 'm) server \<Rightarrow> bool" where
  "stream_task_next s = (case tasks (sv_pool s) of TaskStream q # ts \<Rightarrow> True | _ \<Rightarrow> False)"

fun in_manager :: "event \<Rightarrow> ('t, 'm) server \<Rightarrow> bool" where
  "in_manager Schedule s = True"
| "in_manager (StreamChunk i chunk) s = True"
| "in_manager (StreamEnd i ok) s = True"
| "in_manager RunTask s = stream_task_next s"
| "in_manager e s = False"

text \<open>
  What the business layer sees through the global pointers. It does not look whether \<open>g_streaming_ai\<close> is null: a request that gets as far as the manager's
  lock is one that a manager without requests would take.
\<close>

definition seen :: "end_pc \<Rightarrow> ('t, 'm) server \<Rightarrow> ('t, 'm) server" where
  "seen pc s = s\<lparr>sv_ai := (if manager_null pc then destroy_ai (sv_ai s) else sv_ai s), sv_db := (if storage_null pc then None else sv_db s)\<rparr>"

definition restored :: "end_pc \<Rightarrow> ('t, 'm) server \<Rightarrow> ('t, 'm) server \<Rightarrow> ('t, 'm) server" where
  "restored pc s s' = s'\<lparr>sv_ai := (if manager_null pc then sv_ai s else sv_ai s'), sv_db := (if storage_null pc then sv_db s else sv_db s')\<rparr>"

text \<open>Another thread uses a worker by queueing a functor with it.\<close>

definition touched :: "nat \<Rightarrow> end_pc \<Rightarrow> ('t, 'm) server \<Rightarrow> ('t, 'm) server \<Rightarrow> bool" where
  "touched n pc s s' = list_ex (\<lambda>w. worker_gone n pc w \<and> w_pending (sv_worker s' w) \<noteq> w_pending (sv_worker s w)) [0..<n]"

definition thread_exec :: "('j, 't, 'm) externals \<Rightarrow> nat \<Rightarrow> end_pc \<Rightarrow> event \<Rightarrow> ('t, 'm, unit) sprog" where
  "thread_exec X n pc e s =
     (if manager_gone pc \<and> in_manager e s then (Crash UseAfterFree, s)
      else if e = RunTask \<and> \<not> stream_task_next s then (case exec X e (seen pc s) of (res, s') \<Rightarrow>
        if manager_null pc \<and> pending_requests (sv_ai s') \<noteq> [] then (Crash NullDeref, s)
        else if touched n pc s s' then (Crash UseAfterFree, s)
        else (res, restored pc s s'))
      else if e = DbRound \<and> pc = EndWriter then with_db (threadP (loop_round X)) s
      else (case exec X e s of (res, s') \<Rightarrow> if touched n pc s s' then (Crash UseAfterFree, s) else (res, s')))"

definition takes_round :: "end_pc \<Rightarrow> event \<Rightarrow> bool" where
  "takes_round pc e \<longleftrightarrow> pc = EndManager \<and> e = Schedule \<or> pc = EndWriter \<and> e = DbRound"

section \<open>Runs\<close>

datatype end_act = MainStep | Thread event

fun end_step :: "('j, 't, 'm) externals \<Rightarrow> ((int \<rightharpoonup> TcpConnection) \<Rightarrow> int list) \<Rightarrow> nat \<Rightarrow> end_act \<Rightarrow> ('t, 'm) ending \<Rightarrow>
    (unit outcome \<times> ('t, 'm) ending) option" where
  "end_step X order n MainStep st = map_option (Pair (Val ())) (main_end order n st)"
| "end_step X order n (Thread e) st =
     (if enabled e (en_server st) \<and> may_run n (en_pc st) (en_round st) e
      then (case thread_exec X n (en_pc st) e (en_server st) of (res, s') \<Rightarrow>
        Some (res, st\<lparr>en_round := (en_round st \<and> \<not> takes_round (en_pc st) e), en_server := s'\<rparr>))
      else None)"

text \<open>How a run ends: its outcome, what of it was left (from the act at fault on), and the state.\<close>

primrec end_runs :: "('j, 't, 'm) externals \<Rightarrow> ((int \<rightharpoonup> TcpConnection) \<Rightarrow> int list) \<Rightarrow> nat \<Rightarrow> end_act list \<Rightarrow> ('t, 'm) ending \<Rightarrow>
    (unit outcome \<times> end_act list \<times> ('t, 'm) ending) option" where
  "end_runs X order n [] st = Some (Val (), [], st)"
| "end_runs X order n (a # as) st = (case end_step X order n a st of
     None \<Rightarrow> None
   | Some (res, st') \<Rightarrow> if res = Val () then end_runs X order n as st' else Some (res, a # as, st'))"

text \<open>An order in which a map can be gone through: every key once.\<close>

definition lists_keys :: "((int \<rightharpoonup> TcpConnection) \<Rightarrow> int list) \<Rightarrow> bool" where
  "lists_keys order \<longleftrightarrow> (\<forall>m. finite (dom m) \<longrightarrow> distinct (order m) \<and> set (order m) = dom m)"

section \<open>A server without its first workers\<close>

text \<open>
  The state in which the first \<open>k\<close> workers are gone, of a server in which they were just never scheduled again: \<open>D\<close> are the descriptors
  that they closed, \<open>c\<close> is their number.
\<close>

definition wipe :: "nat \<Rightarrow> int set \<Rightarrow> int \<Rightarrow> ('t, 'm) server \<Rightarrow> ('t, 'm) server" where
  "wipe k D c g = g\<lparr>sv_worker := (\<lambda>w. if w < k then gone_worker else sv_worker g w), sv_open := sv_open g - D,
     sv_conn_count := sv_conn_count g - c\<rparr>"

lemma wipe_sel [simp]:
  "sv_worker (wipe k D c g) w = (if w < k then gone_worker else sv_worker g w)" "sv_open (wipe k D c g) = sv_open g - D"
  "sv_conn_count (wipe k D c g) = sv_conn_count g - c" "sv_env (wipe k D c g) = sv_env g" "sv_tick (wipe k D c g) = sv_tick g"
  "sv_wall (wipe k D c g) = sv_wall g" "sv_heap (wipe k D c g) = sv_heap g" "sv_sessions (wipe k D c g) = sv_sessions g"
  "sv_pool (wipe k D c g) = sv_pool g" "sv_db (wipe k D c g) = sv_db g" "sv_ai (wipe k D c g) = sv_ai g" "sv_streams (wipe k D c g) = sv_streams g"
  by (simp_all add: wipe_def)

lemma wipe_0 [simp]: "wipe 0 {} 0 g = g"
  by (simp add: wipe_def)

text \<open>What the other workers do does not depend on the ones that are gone.\<close>

lemma wipe_upd:
  "k \<le> w \<Longrightarrow> upd_worker w f (wipe k D c g) = wipe k D c (upd_worker w f g)"
  "upd_ctx r h (wipe k D c g) = wipe k D c (upd_ctx r h g)"
  "(wipe k D c g)\<lparr>sv_heap := hh\<rparr> = wipe k D c (g\<lparr>sv_heap := hh\<rparr>)"
  "(wipe k D c g)\<lparr>sv_ai := a\<rparr> = wipe k D c (g\<lparr>sv_ai := a\<rparr>)"
  "(wipe k D c g)\<lparr>sv_sessions := b\<rparr> = wipe k D c (g\<lparr>sv_sessions := b\<rparr>)"
  "(wipe k D c g)\<lparr>sv_db := d\<rparr> = wipe k D c (g\<lparr>sv_db := d\<rparr>)"
  "(wipe k D c g)\<lparr>sv_open := A - D - F\<rparr> = wipe k D c (g\<lparr>sv_open := A - F\<rparr>)"
  "(wipe k D c g)\<lparr>sv_conn_count := x - c + i\<rparr> = wipe k D c (g\<lparr>sv_conn_count := x + i\<rparr>)"
  "(wipe k D c g)\<lparr>sv_conn_count := x - c - i\<rparr> = wipe k D c (g\<lparr>sv_conn_count := x - i\<rparr>)"
  "(wipe k D c g)\<lparr>sv_tick := t, sv_wall := u\<rparr> = wipe k D c (g\<lparr>sv_tick := t, sv_wall := u\<rparr>)"
  by (rule server.equality; auto simp: fun_eq_iff)+

lemma wipe_timers:
  assumes "k \<le> w"
  shows "cancel_heartbeat_timer w fd (wipe k D c g) = wipe k D c (cancel_heartbeat_timer w fd g)"
    "start_heartbeat_timer w fd (wipe k D c g) = wipe k D c (start_heartbeat_timer w fd g)"
  using assms by (simp_all add: cancel_heartbeat_timer_def start_heartbeat_timer_def Let_def wipe_upd)

lemma wipe_close:
  fixes g :: "('t, 'm) server"
  assumes "k \<le> w"
  shows "force_close_in_loop w fd (wipe k D c g) = wipe k D c (force_close_in_loop w fd g)"
proof -
  have "close_impl w x (wipe k D c h) = wipe k D c (close_impl w x h)" for x and h :: "('t, 'm) server"
    using assms by (simp add: close_impl_def Let_def remove_event_def cancel_request_def wipe_upd wipe_timers release_ctx_def split: prod.split)
  then show ?thesis using assms by (simp add: force_close_in_loop_def do_force_close_def wipe_upd split: option.split)
qed

lemma wipe_add:
  fixes g :: "('t, 'm) server"
  assumes "k \<le> w"
  shows "add_connection_in_loop w fd ip port (wipe k D c g) = wipe k D c (add_connection_in_loop w fd ip port g)"
proof -
  have new: "new_TcpConnection w fd ip port (wipe k D c g) =
      (fst (new_TcpConnection w fd ip port g), wipe k D c (snd (new_TcpConnection w fd ip port g)))"
    using assms by (simp add: new_TcpConnection_def wipe_upd split: prod.split)
  have old: "destroy_TcpConnection x (wipe k D c h) = wipe k D c (destroy_TcpConnection x h)" for x and h :: "('t, 'm) server"
    by (simp add: destroy_TcpConnection_def Let_def wipe_upd)
  have start: "conn_start w fd (wipe k D c h) = wipe k D c (conn_start w fd h)" for h :: "('t, 'm) server"
    using assms by (simp add: conn_start_def wipe_upd wipe_timers)
  show ?thesis using assms
    by (simp add: add_connection_in_loop_def new old start wipe_upd case_prod_unfold Let_def split: option.split)
qed

lemma wipe_send:
  assumes "k \<le> w"
  shows "send_packet_in_loop w r cm n b (wipe k D c g) = wipe k D c (send_packet_in_loop w r cm n b g)"
  using assms by (simp add: send_packet_in_loop_def send_def Let_def update_event_def queue_close_connection_def queue_in_loop_def wipe_upd
      split: option.split)

lemma wipe_events:
  fixes g :: "('t, 'm) server"
  assumes "k \<le> w"
  shows "snd (check_timer w (wipe k D c g)) = wipe k D c (snd (check_timer w g))"
    "swap_functors w (wipe k D c g) = wipe k D c (swap_functors w g)"
    "run_next_functor w (wipe k D c g) = wipe k D c (run_next_functor w g)"
proof -
  show "snd (check_timer w (wipe k D c g)) = wipe k D c (snd (check_timer w g))"
    using assms by (simp add: check_timer_def wipe_upd wipe_close split: option.split)
  show "swap_functors w (wipe k D c g) = wipe k D c (swap_functors w g)"
    using assms by (simp add: swap_functors_def wipe_upd)
  have "run_functor w f (wipe k D c h) = wipe k D c (run_functor w f h)" for f and h :: "('t, 'm) server"
    using assms by (cases f) (simp_all add: wipe_add wipe_send wipe_close)
  then show "run_next_functor w (wipe k D c g) = wipe k D c (run_next_functor w g)"
    using assms by (simp add: run_next_functor_def wipe_upd split: list.split)
qed

section \<open>What a worker's own steps leave alone\<close>

text \<open>The tasks, the answers, the requests and the other workers; and no descriptor is added to those that wait.\<close>

definition own_step :: "nat \<Rightarrow> ('t, 'm) server \<Rightarrow> ('t, 'm) server \<Rightarrow> bool" where
  "own_step w s s' \<longleftrightarrow> sv_pool s' = sv_pool s \<and> sv_streams s' = sv_streams s \<and> sv_db s' = sv_db s \<and>
     pending_requests (sv_ai s') = pending_requests (sv_ai s) \<and> (\<forall>v. v \<noteq> w \<longrightarrow> sv_worker s' v = sv_worker s v) \<and>
     set (waiting s' w) \<subseteq> set (waiting s w)"

lemma own_step_trans: "own_step w s s1 \<Longrightarrow> own_step w s1 s2 \<Longrightarrow> own_step w s s2"
  by (auto simp: own_step_def)

lemma own_step_upd:
  "(\<And>wk. w_running (f wk) = w_running wk \<and> w_pending (f wk) = w_pending wk) \<Longrightarrow> own_step w s (upd_worker w f s)"
  "own_step w s (upd_ctx r h s)" "own_step w s (s\<lparr>sv_heap := hh\<rparr>)" "own_step w s (s\<lparr>sv_conn_count := x\<rparr>)"
  "own_step w s (queue_close_connection w fd s)"
  by (auto simp: own_step_def waiting_def queue_close_connection_def queue_in_loop_def)

lemma own_step_close: "own_step w s (force_close_in_loop w fd s)"
  by (auto simp: own_step_def waiting_def close_defs cancel_heartbeat_timer_def split: option.split prod.split)

lemma own_step_start: "own_step w s (start_heartbeat_timer w fd s)"
  by (auto simp: own_step_def waiting_def start_heartbeat_timer_def cancel_heartbeat_timer_def Let_def split: option.split prod.split)

lemma own_step_add: "own_step w s (add_connection_in_loop w fd ip port s)"
  by (auto simp: own_step_def waiting_def add_connection_in_loop_def new_TcpConnection_def conn_start_def destroy_TcpConnection_def
      start_heartbeat_timer_def cancel_heartbeat_timer_def Let_def split: option.split prod.split)

lemma own_step_send: "own_step w s (send_packet_in_loop w r cm n b s)"
  by (auto simp: own_step_def waiting_def send_packet_in_loop_def send_def update_event_def queue_close_connection_def queue_in_loop_def Let_def
      split: option.split)

lemma own_step_events:
  shows "own_step w s (snd (check_timer w s))" "w_running (sv_worker s w) = [] \<Longrightarrow> own_step w s (swap_functors w s)"
    "own_step w s (run_next_functor w s)"
proof -
  show "own_step w s (snd (check_timer w s))"
    by (auto simp: check_timer_def own_step_def [of w s s] split: option.split intro: own_step_trans [OF own_step_upd(1) own_step_close])
  show "own_step w s (swap_functors w s)" if "w_running (sv_worker s w) = []"
    using that by (simp add: own_step_def swap_functors_def waiting_def)
  have run: "own_step w t (run_functor w f t)" for f t
    by (cases f) (simp_all add: own_step_add own_step_send own_step_close)
  have pop: "own_step w s (upd_worker w (\<lambda>wk. wk\<lparr>w_running := fs\<rparr>) s)" if "w_running (sv_worker s w) = f # fs" for f fs
    using that by (cases f) (auto simp: own_step_def waiting_def)
  show "own_step w s (run_next_functor w s)"
    by (auto simp: run_next_functor_def own_step_def [of w s s] split: list.split intro: own_step_trans [OF pop run])
qed

section \<open>Destroying a worker\<close>

lemma fold_drop:
  assumes "distinct fds" "set fds \<subseteq> dom (conns s w)" "\<And>fd c. conns s w fd = Some c \<Longrightarrow> tc_fd c = fd \<and> \<not> tc_closed c \<and> 0 \<le> fd"
  shows "fold (drop_connection w) fds s = (upd_worker w (\<lambda>wk. wk\<lparr>w_connections := (w_connections wk) |` (- set fds)\<rparr>) s)
    \<lparr>sv_open := sv_open s - set fds, sv_conn_count := sv_conn_count s - int (length fds)\<rparr>"
  using assms
proof (induction fds arbitrary: s)
  case Nil
  then show ?case by (auto simp: upd_worker_def)
next
  case (Cons fd fds)
  then obtain c where c: "conns s w fd = Some c" by auto
  let ?t = "(upd_worker w (\<lambda>wk. wk\<lparr>w_connections := (w_connections wk)(fd := None)\<rparr>) s)
    \<lparr>sv_open := sv_open s - {fd}, sv_conn_count := sv_conn_count s - 1\<rparr>"
  have drop: "drop_connection w fd s = ?t"
    using Cons.prems(3) [OF c] c by (simp add: drop_connection_def destroy_TcpConnection_def)
  have "distinct fds" "set fds \<subseteq> dom (conns ?t w)" "\<And>fd' c. conns ?t w fd' = Some c \<Longrightarrow> tc_fd c = fd' \<and> \<not> tc_closed c \<and> 0 \<le> fd'"
    using Cons.prems by (auto split: if_splits)
  then have IH: "fold (drop_connection w) fds ?t = (upd_worker w (\<lambda>wk. wk\<lparr>w_connections := (w_connections wk) |` (- set fds)\<rparr>) ?t)
    \<lparr>sv_open := sv_open ?t - set fds, sv_conn_count := sv_conn_count ?t - int (length fds)\<rparr>" (is "_ = ?u") by (rule Cons.IH)
  have "fold (drop_connection w) (fd # fds) s = ?u" by (simp only: fold.simps comp_apply drop IH)
  then show ?case by (rule trans) (rule server.equality, auto simp: fun_eq_iff restrict_map_def)
qed

lemma destroy_wipe:
  assumes "net_inv g" "lists_keys order"
  shows "destroy_worker order k (wipe k D c g) = wipe (Suc k) (D \<union> dom (conns g k)) (c + int (card (dom (conns g k)))) g"
proof -
  have "finite (live g)" using assms(1) by (simp add: net_inv_def count_inv_def)
  then have "finite (snd ` (live g \<inter> {k} \<times> UNIV))" by simp
  moreover have "dom (conns g k) \<subseteq> snd ` (live g \<inter> {k} \<times> UNIV)" by (force simp: live_def)
  ultimately have "finite (dom (conns g k))" by (rule finite_subset [rotated])
  with assms(2) have order: "distinct (order (conns g k))" "set (order (conns g k)) = dom (conns g k)" by (simp_all add: lists_keys_def)
  have card: "length (order (conns g k)) = card (dom (conns g k))" using distinct_card [OF order(1)] order(2) by simp
  let ?g = "wipe k D c g"
  have "fold (drop_connection k) (order (conns g k)) ?g =
      (upd_worker k (\<lambda>wk. wk\<lparr>w_connections := (w_connections wk) |` (- set (order (conns g k)))\<rparr>) ?g)
      \<lparr>sv_open := sv_open ?g - set (order (conns g k)), sv_conn_count := sv_conn_count ?g - int (length (order (conns g k)))\<rparr>"
    using order conn_invD [OF net_inv_conn [OF assms(1)]] by (intro fold_drop) auto
  then have "destroy_worker order k ?g = upd_worker k (\<lambda>_. gone_worker)
      ((upd_worker k (\<lambda>wk. wk\<lparr>w_connections := (w_connections wk) |` (- dom (conns g k))\<rparr>) ?g)
      \<lparr>sv_open := sv_open ?g - dom (conns g k), sv_conn_count := sv_conn_count ?g - int (card (dom (conns g k)))\<rparr>)"
    by (simp add: destroy_worker_def order(2) card)
  then show ?thesis by (rule trans) (rule server.equality, auto simp: less_Suc_eq fun_eq_iff)
qed

section \<open>A quiet server\<close>

definition quiet :: "('t, 'm) server \<Rightarrow> bool" where
  "quiet s \<longleftrightarrow> tasks (sv_pool s) = [] \<and> sv_streams s = [] \<and> pending_requests (sv_ai s) = []"

text \<open>
  What holds while \<open>main\<close> takes a quiet server down: as long as there are workers, the server is one without its first workers; afterwards no
  connection is left. \<open>W\<close> are the descriptors that waited for a worker at the beginning.
\<close>

definition closed_by :: "nat \<Rightarrow> ('t, 'm) server \<Rightarrow> int set" where
  "closed_by k g = (\<Union>w<k. dom (conns g w))"

definition count_by :: "nat \<Rightarrow> ('t, 'm) server \<Rightarrow> int" where
  "count_by k g = (\<Sum>w<k. int (card (dom (conns g w))))"

definition ghost :: "('j, 't, 'm) externals \<Rightarrow> nat \<Rightarrow> int set \<Rightarrow> ('t, 'm) server \<Rightarrow> bool" where
  "ghost X n W g \<longleftrightarrow> reach X g \<and> quiet g \<and> (\<forall>w\<ge>n. conns g w = Map.empty) \<and> (\<forall>w. set (waiting g w) \<subseteq> W)"

definition end_inv :: "('j, 't, 'm) externals \<Rightarrow> nat \<Rightarrow> int set \<Rightarrow> ('t, 'm) ending \<Rightarrow> bool" where
  "end_inv X n W st \<longleftrightarrow> (case en_pc st of
     EndWorkers k \<Rightarrow> k \<le> n \<and> (\<exists>g. en_server st = wipe k (closed_by k g) (count_by k g) g \<and> ghost X n W g)
   | _ \<Rightarrow> quiet (en_server st) \<and> sv_conn_count (en_server st) = 0 \<and> sv_open (en_server st) \<subseteq> W)"

lemma closed_by_cong:
  assumes "\<And>w. w < k \<Longrightarrow> sv_worker g' w = sv_worker g w"
  shows "closed_by k g' = closed_by k g" "count_by k g' = count_by k g"
  using assms by (simp_all add: closed_by_def count_by_def)

lemma all_closed:
  assumes "ghost X n W g"
  shows "sv_conn_count g = count_by n g" "sv_open g - closed_by n g \<subseteq> W"
proof -
  have g: "net_inv g" "open_inv g" "\<And>w. n \<le> w \<Longrightarrow> conns g w = Map.empty" "\<And>w. set (waiting g w) \<subseteq> W"
    using assms reach_net_inv reach_open_inv by (auto simp: ghost_def)
  have fin: "finite (live g)" "sv_conn_count g = int (card (live g))" using g(1) by (simp_all add: net_inv_def count_inv_def)
  have small: "w < n" if "conns g w fd \<noteq> None" for w fd using that g(3) [of w] by (auto simp: not_less intro: ccontr)
  then have live: "live g = Sigma {..<n} (\<lambda>w. dom (conns g w))" by (auto simp: live_def)
  have "finite (dom (conns g w))" if "w < n" for w
    using finite_subset [OF _ fin(1), of "Pair w ` dom (conns g w)"] that by (auto simp: live finite_image_iff inj_on_def)
  then show "sv_conn_count g = count_by n g" by (simp add: fin(2) live card_SigmaI count_by_def)
  show "sv_open g - closed_by n g \<subseteq> W"
  proof
    fix fd
    assume fd: "fd \<in> sv_open g - closed_by n g"
    then have "conns g w fd = None" for w using small [of w fd] by (auto simp: closed_by_def)
    then show "fd \<in> W" using g(2,4) fd by (fastforce simp: open_inv_def)
  qed
qed

lemma end_inv_main:
  assumes "end_inv X n W st" "lists_keys order" "main_end order n st = Some st'"
  shows "end_inv X n W st'"
proof (cases "en_pc st")
  case (EndWorkers k)
  then obtain g where g: "k \<le> n" "en_server st = wipe k (closed_by k g) (count_by k g) g" "ghost X n W g"
    using assms(1) by (auto simp: end_inv_def)
  have "net_inv g" using g(3) reach_net_inv by (auto simp: ghost_def)
  then have "destroy_worker order k (en_server st) = wipe (Suc k) (closed_by (Suc k) g) (count_by (Suc k) g) g"
    using destroy_wipe [OF _ assms(2), of g k "closed_by k g" "count_by k g"]
    by (simp add: g(2) closed_by_def count_by_def lessThan_Suc Un_commute add.commute)
  moreover have "quiet (en_server st)" using g(2,3) by (simp add: ghost_def quiet_def)
  moreover have "k = n \<Longrightarrow> sv_conn_count (en_server st) = 0 \<and> sv_open (en_server st) \<subseteq> W"
    using all_closed [OF g(3)] by (simp add: g(2))
  ultimately show ?thesis
    using assms(3) g(1,3) EndWorkers by (auto simp: end_inv_def Let_def split: if_splits)
qed (use assms in \<open>auto simp: end_inv_def quiet_def destroy_ai_def stop_db_def destroy_db_def destroy_pool_def pool_shutdown_def Let_def
      split: if_splits option.splits\<close>)

text \<open>A step of a worker that is still there.\<close>

lemma ghost_step:
  assumes "ghost X n W g" "w < n" "enabled e g" "exec X e g = (Val (), g')" "own_step w g g'"
  shows "ghost X n W g'"
proof -
  have "set (waiting g' v) \<subseteq> set (waiting g v)" for v
    using assms(5) by (cases "v = w") (auto simp: own_step_def waiting_def)
  moreover have "reach X g'" using reach.step assms(1,3,4) by (auto simp: ghost_def)
  ultimately show ?thesis using assms(1,2,5) by (fastforce simp: ghost_def quiet_def own_step_def)
qed

fun undisturbed :: "end_act \<Rightarrow> bool" where
  "undisturbed (Thread (SocketEvent w fd revents rs ws)) = False"
| "undisturbed _ = True"

lemma worker_event_end:
  assumes "ghost X n W g" "k \<le> w" "w < n" "e \<in> {TimerCheck w, SwapFunctors w, RunFunctor w}" "enabled e g"
  shows "\<exists>g'. exec X e (wipe k D c g) = (Val (), wipe k D c g') \<and> ghost X n W g' \<and> (\<forall>v<k. sv_worker g' v = sv_worker g v)"
proof -
  let ?g' = "snd (exec X e g)"
  have own: "own_step w g ?g'" and val: "exec X e g = (Val (), ?g')"
    using assms(4,5) own_step_events by auto
  have "exec X e (wipe k D c g) = (Val (), wipe k D c ?g')" using assms(2,4) by (auto simp: wipe_events)
  moreover have "ghost X n W ?g'" by (rule ghost_step [OF assms(1,3,5) val own])
  moreover have "\<forall>v<k. sv_worker ?g' v = sv_worker g v" using own assms(2) by (auto simp: own_step_def)
  ultimately show ?thesis by blast
qed

lemma thread_quiet:
  assumes "quiet s" "enabled e s"
  shows "e \<noteq> RunTask" "exec X Schedule s = (Val (), s)" "e \<noteq> StreamChunk i chunk" "e \<noteq> StreamEnd i ok"
  using assms by (auto simp: quiet_def schedule_requests_def)

lemma untouched: "sv_worker s' = sv_worker s \<Longrightarrow> \<not> touched n pc s s'"
  by (auto simp: touched_def list_ex_iff)

lemma db_round_run:
  "exec X DbRound s = (res, s') \<Longrightarrow> \<exists>d. s' = s\<lparr>sv_db := d\<rparr>" "with_db m s = (res, s') \<Longrightarrow> \<exists>d. s' = s\<lparr>sv_db := d\<rparr>"
  by (auto simp: db_round_def has_db_def with_db_def run_bindP split: option.splits prod.splits if_splits intro: exI [of _ "sv_db s"])

lemma wipe_db_round:
  "exec X DbRound (wipe k D c g) = (case exec X DbRound g of (res, g') \<Rightarrow> (res, wipe k D c g'))"
  by (auto simp: db_round_def has_db_def with_db_def run_bindP wipe_upd split: option.split prod.split)

text \<open>A step of another thread of a quiet server goes wrong only in the storage.\<close>

lemma end_inv_workers:
  assumes "en_pc st = EndWorkers k" "end_inv X n W st" "undisturbed (Thread e)" "enabled e (en_server st)" "may_run n (en_pc st) (en_round st) e"
    and "thread_exec X n (en_pc st) e (en_server st) = (res, s')"
  shows "res \<noteq> Val () \<and> e = DbRound \<or> res = Val () \<and> end_inv X n W (st\<lparr>en_round := b, en_server := s'\<rparr>)"
proof -
  from assms(1,2) obtain g where g: "k \<le> n" "en_server st = wipe k (closed_by k g) (count_by k g) g" "ghost X n W g"
    by (auto simp: end_inv_def)
  let ?D = "closed_by k g" and ?c = "count_by k g"
  have q: "quiet (en_server st)" using g(2,3) by (simp add: ghost_def quiet_def)
  have again: "end_inv X n W (st\<lparr>en_round := b, en_server := wipe k ?D ?c g'\<rparr>)"
    if "ghost X n W g'" "\<forall>v<k. sv_worker g' v = sv_worker g v" for g'
    using that g(1) assms(1) closed_by_cong [of k g' g] by (auto simp: end_inv_def intro!: exI [of _ g'])
  have run: "(case exec X e (en_server st) of (res, s') \<Rightarrow> if touched n (en_pc st) (en_server st) s' then (Crash UseAfterFree, en_server st) else (res, s')) = (res, s')"
    using assms(1,6) thread_quiet(1) [OF q assms(4)] by (simp add: thread_exec_def manager_gone_def)
  have worker: ?thesis if "e \<in> {TimerCheck w, SwapFunctors w, RunFunctor w}" "enabled e g" for w
  proof -
    have "k \<le> w" "w < n" using that(1) assms(1,5) by auto
    from worker_event_end [OF g(3) this that, of ?D ?c] obtain g' where
      g': "exec X e (en_server st) = (Val (), wipe k ?D ?c g')" "ghost X n W g'" "\<forall>v<k. sv_worker g' v = sv_worker g v" by (auto simp: g(2))
    then have "\<not> touched n (en_pc st) (en_server st) (wipe k ?D ?c g')" using assms(1) by (auto simp: touched_def list_ex_iff g(2))
    then have "res = Val ()" "s' = wipe k ?D ?c g'" using run g'(1) by simp_all
    then show ?thesis using again [OF g'(2,3)] by simp
  qed
  show ?thesis
  proof (cases e)
    case DbRound
    obtain res1 g1 where d: "exec X DbRound g = (res1, g1)" by fastforce
    from db_round_run(1) [OF d] obtain d1 where g1: "g1 = g\<lparr>sv_db := d1\<rparr>" by blast
    have run1: "exec X e (en_server st) = (res1, wipe k ?D ?c g1)" using d by (simp only: DbRound g(2) wipe_db_round) simp
    have "\<not> touched n (en_pc st) (en_server st) (wipe k ?D ?c g1)" by (rule untouched) (auto simp: g(2) g1)
    then have res: "res = res1" "s' = wipe k ?D ?c g1" using run run1 by simp_all
    have "ghost X n W g1" if "res1 = Val ()"
      using g(3) reach.step [of X g DbRound g1] d that by (auto simp: ghost_def quiet_def waiting_def g1)
    then show ?thesis using DbRound res again [of g1] by (cases "res1 = Val ()") (auto simp: g1)
  next
    case Schedule
    have "exec X e (en_server st) = (Val (), en_server st)" using thread_quiet(2) [OF q assms(4)] Schedule by simp
    then have "res = Val ()" "s' = en_server st" using run untouched [of "en_server st" "en_server st" n "en_pc st"] by simp_all
    then show ?thesis using again [OF g(3)] by (simp add: g(2))
  next
    case (Tick ms wall)
    let ?g' = "g\<lparr>sv_tick := sv_tick g + ms, sv_wall := wall\<rparr>"
    have "exec X e (en_server st) = (Val (), wipe k ?D ?c ?g')" by (simp add: Tick g(2) wipe_upd)
    moreover have "\<not> touched n (en_pc st) (en_server st) (wipe k ?D ?c ?g')" by (rule untouched) (auto simp: g(2))
    ultimately have "res = Val ()" "s' = wipe k ?D ?c ?g'" using run by simp_all
    moreover have "ghost X n W ?g'"
      using g(3) reach.step [of X g "Tick ms wall" ?g'] assms(4) by (auto simp: ghost_def quiet_def waiting_def Tick)
    ultimately show ?thesis using again [of ?g'] by simp
  next
    case (TimerCheck w)
    then show ?thesis using worker [of w] assms(1,4,5) by (simp add: g(2))
  next
    case (SwapFunctors w)
    then show ?thesis using worker [of w] assms(1,4,5) by (simp add: g(2))
  next
    case (RunFunctor w)
    then show ?thesis using worker [of w] by simp
  qed (use assms(3,5) thread_quiet [OF q assms(4)] in auto)
qed

lemma end_inv_rest:
  assumes "\<And>k. en_pc st \<noteq> EndWorkers k" "end_inv X n W st" "undisturbed (Thread e)" "enabled e (en_server st)" "may_run n (en_pc st) (en_round st) e"
    and "thread_exec X n (en_pc st) e (en_server st) = (res, s')"
  shows "res \<noteq> Val () \<and> e = DbRound \<or> res = Val () \<and> end_inv X n W (st\<lparr>en_round := b, en_server := s'\<rparr>)"
proof -
  let ?s = "en_server st"
  have inv: "quiet ?s" "sv_conn_count ?s = 0" "sv_open ?s \<subseteq> W" using assms(1,2) by (auto simp: end_inv_def split: end_pc.splits)
  have again: "end_inv X n W (st\<lparr>en_round := b, en_server := t\<rparr>)"
    if "sv_pool t = sv_pool ?s" "sv_streams t = sv_streams ?s" "sv_ai t = sv_ai ?s" "sv_conn_count t = sv_conn_count ?s" "sv_open t = sv_open ?s" for t
    using that inv assms(1) by (auto simp: end_inv_def quiet_def split: end_pc.split)
  have gone: "worker_gone n (en_pc st) w = (w < n)" for w using assms(1) by (cases "en_pc st") auto
  have run: "thread_exec X n (en_pc st) e ?s = (case exec X e ?s of (res, s') \<Rightarrow> if touched n (en_pc st) ?s s' then (Crash UseAfterFree, ?s) else (res, s'))"
    if "\<not> (e = DbRound \<and> en_pc st = EndWriter)" "\<not> in_manager e ?s \<or> \<not> manager_gone (en_pc st)"
    using that thread_quiet(1) [OF inv(1) assms(4)] by (auto simp: thread_exec_def)
  show ?thesis
  proof (cases e)
    case DbRound
    have "\<exists>d. s' = ?s\<lparr>sv_db := d\<rparr>"
    proof (cases "en_pc st = EndWriter")
      case True
      then show ?thesis using assms(6) DbRound db_round_run(2) by (simp add: thread_exec_def manager_gone_def)
    next
      case False
      obtain res1 s1 where d: "exec X DbRound ?s = (res1, s1)" by fastforce
      with db_round_run(1) [OF d] have "\<not> touched n (en_pc st) ?s s1" by (auto intro!: untouched)
      then show ?thesis using run False assms(6) d db_round_run(1) [OF d] DbRound by simp
    qed
    then show ?thesis using DbRound again by (cases "res = Val ()") auto
  next
    case Schedule
    have "exec X e ?s = (Val (), ?s)" using thread_quiet(2) [OF inv(1) assms(4)] Schedule by simp
    then have "res = Val ()" "s' = ?s" using run assms(5,6) untouched [of ?s ?s n "en_pc st"] Schedule by simp_all
    then show ?thesis using again [of ?s] by simp
  next
    case (Tick ms wall)
    let ?t = "?s\<lparr>sv_tick := sv_tick ?s + ms, sv_wall := wall\<rparr>"
    have "\<not> touched n (en_pc st) ?s ?t" by (rule untouched) simp
    then have "res = Val ()" "s' = ?t" using run assms(6) Tick by simp_all
    then show ?thesis using again [of ?t] by simp
  qed (use assms(3,5) thread_quiet [OF inv(1) assms(4)] gone in auto)
qed

lemma end_inv_runs:
  assumes "end_inv X n W st" "lists_keys order" "list_all undisturbed as" "end_runs X order n as st = Some (res, rest, st')"
  shows "res \<noteq> Val () \<and> (\<exists>q. rest = Thread DbRound # q) \<or> res = Val () \<and> end_inv X n W st'"
  using assms(1,3,4)
proof (induction as arbitrary: st)
  case (Cons a as)
  obtain res1 st1 where step: "end_step X order n a st = Some (res1, st1)" using Cons.prems(3) by (auto split: option.splits)
  have "res1 \<noteq> Val () \<and> a = Thread DbRound \<or> res1 = Val () \<and> end_inv X n W st1"
  proof (cases a)
    case MainStep
    then show ?thesis using step end_inv_main [OF Cons.prems(1) assms(2)] by auto
  next
    case (Thread e)
    obtain res2 s2 where ex: "thread_exec X n (en_pc st) e (en_server st) = (res2, s2)" by fastforce
    with step have st1: "enabled e (en_server st)" "may_run n (en_pc st) (en_round st) e" "res1 = res2"
      "st1 = st\<lparr>en_round := (en_round st \<and> \<not> takes_round (en_pc st) e), en_server := s2\<rparr>"
      by (auto simp: Thread split: if_splits)
    have und: "undisturbed (Thread e)" using Cons.prems(2) by (simp add: Thread)
    show ?thesis unfolding st1(3,4) Thread
      using end_inv_workers [OF _ Cons.prems(1) und st1(1,2) ex] end_inv_rest [OF _ Cons.prems(1) und st1(1,2) ex] by blast
  qed
  then show ?case using Cons step by (auto split: if_splits)
qed simp

text \<open>
  C31. A quiet server shuts down cleanly, whatever the threads that are still there do meanwhile: if no task, AI request or answer is under way when \<open>main\<close> leaves
  its loop and no socket event comes in between, then no step uses an object that is gone (only the storage can fail, in a round of its writer); \<open>main\<close> can
  always go on, after functors that a worker is still running; and when it returns, every connection is closed and the
  counter is back at 0. Sockets that were accepted but not yet taken over by their worker are the only ones left open.
\<close>

theorem clean_shutdown:
  assumes "reach X s" "\<And>w. n \<le> w \<Longrightarrow> conns s w = Map.empty" "lists_keys order"
    and "tasks (sv_pool s) = []" "sv_streams s = []" "pending_requests (sv_ai s) = []"
    and "list_all undisturbed as" "end_runs X order n as (begin_end s) = Some (res, rest, st)"
  shows "(res \<noteq> Val () \<longrightarrow> (\<exists>q. rest = Thread DbRound # q)) \<and>
    (res = Val () \<and> en_pc st \<noteq> EndReturn \<longrightarrow> main_end order n st \<noteq> None \<or> (\<exists>w<n. w_running (sv_worker (en_server st) w) \<noteq> [])) \<and>
    (res = Val () \<and> en_pc st = EndReturn \<longrightarrow> sv_conn_count (en_server st) = 0 \<and> sv_open (en_server st) \<subseteq> (\<Union>w. set (waiting s w)))"
proof -
  let ?W = "\<Union>w. set (waiting s w)"
  have "end_inv X n ?W (begin_end s)"
    using assms(1,2,4-6) by (auto simp: end_inv_def begin_end_def ghost_def quiet_def closed_by_def count_by_def intro!: exI [of _ s])
  from end_inv_runs [OF this assms(3,7,8)] consider "res \<noteq> Val ()" "\<exists>q. rest = Thread DbRound # q" | "res = Val ()" "end_inv X n ?W st" by blast
  then show ?thesis
  proof cases
    case 2
    then show ?thesis by (cases "en_pc st") (auto simp: end_inv_def quiet_def destroy_pool_def Let_def split: if_splits)
  qed simp
qed

section \<open>A busy server\<close>

lemma main_steps:
  assumes "net_inv s" "lists_keys order" "k \<le> n" "\<And>j. j < k \<Longrightarrow> w_running (sv_worker s j) = []"
  shows "end_runs X order n (replicate k MainStep @ as) (begin_end s) =
    end_runs X order n as \<lparr>en_pc = EndWorkers k, en_round = False, en_server = wipe k (closed_by k s) (count_by k s) s\<rparr>"
  using assms(3,4)
proof (induction k arbitrary: as)
  case 0
  then show ?case by (simp add: begin_end_def closed_by_def count_by_def)
next
  case (Suc k)
  have "replicate (Suc k) MainStep @ as = replicate k MainStep @ MainStep # as" by (simp add: replicate_app_Cons_same)
  then have "end_runs X order n (replicate (Suc k) MainStep @ as) (begin_end s) =
      end_runs X order n (MainStep # as) \<lparr>en_pc = EndWorkers k, en_round = False, en_server = wipe k (closed_by k s) (count_by k s) s\<rparr>"
    using Suc by simp
  also have "\<dots> = end_runs X order n as \<lparr>en_pc = EndWorkers (Suc k), en_round = False,
      en_server = destroy_worker order k (wipe k (closed_by k s) (count_by k s) s)\<rparr>"
    using Suc.prems by (simp add: Let_def)
  finally show ?case
    using destroy_wipe [OF assms(1,2), of k "closed_by k s" "count_by k s"]
    by (simp add: closed_by_def count_by_def lessThan_Suc Un_commute add.commute)
qed

definition pong :: "('j, 't, 'm) externals \<Rightarrow> ctx_ref \<Rightarrow> PacketHeader \<Rightarrow> int \<Rightarrow> loop_fn" where
  "pong X r hdr uid = FnSendPacket r (cmd_code ACK) (seq hdr) (ser_Response (x_codec X) (success uid ''PONG''))"

lemma heartbeat_task:
  assumes "tasks (sv_pool s) = TaskBusiness r hdr body # ts" "cmd hdr = cmd_code HEARTBEAT" "cc_owner_worker (ctx_of s r) = Some w"
  shows "exec X RunTask s = (Val (), queue_in_loop w (pong X r hdr (cc_uid (ctx_of s r))) (s\<lparr>sv_pool := (sv_pool s)\<lparr>tasks := ts\<rparr>\<rparr>))"
  using assms by (simp add: run_task_def take_task_def thread_step_def threadP_def run_catchP process_business_def handle_command_def
      handle_heartbeat_def uid_of_def send_response_def send_to_def queue_send_packet_def run_bindP pong_def)

lemma heartbeat_at_end:
  assumes "tasks (sv_pool s) = TaskBusiness r hdr body # ts" "cmd hdr = cmd_code HEARTBEAT" "cc_owner_worker (ctx_of s r) = Some w" "w < n"
    and "s' = queue_in_loop w (pong X r hdr (cc_uid (ctx_of s r))) (s\<lparr>sv_pool := (sv_pool s)\<lparr>tasks := ts\<rparr>\<rparr>)"
  shows "thread_exec X n (EndWorkers k) RunTask s = (if w < k then (Crash UseAfterFree, s) else (Val (), s'))"
proof -
  have "touched n (EndWorkers k) s s' \<longleftrightarrow> w < k"
    using assms(4) by (auto simp: touched_def list_ex_iff assms(5) queue_in_loop_def)
  moreover have "seen (EndWorkers k) s = s" "restored (EndWorkers k) s s' = s'" "\<not> stream_task_next s"
    using assms(1) by (simp_all add: seen_def restored_def manager_null_def storage_null_def stream_task_next_def)
  ultimately show ?thesis
    using heartbeat_task [OF assms(1-3), of X] by (simp add: thread_exec_def manager_gone_def manager_null_def assms(5))
qed

text \<open>
  C36. A busy server does not shut down cleanly, because the pool is destroyed last: when a packet that is answered (a heartbeat) is the next task as \<open>main\<close> leaves its
  loop, a pool thread that takes it up before the packet's worker is destroyed queues the answer there, and one that takes it up just after that uses
  the destroyed worker. An AI answer that is still running when the manager has been destroyed uses the destroyed manager.
\<close>

theorem shutdown_faults:
  assumes "reach X s" "lists_keys order" "\<And>k. k < n \<Longrightarrow> w_running (sv_worker s k) = []"
  shows "(tasks (sv_pool s) = TaskBusiness r hdr body # ts \<and> cmd hdr = cmd_code HEARTBEAT \<and> cc_owner_worker (ctx_of s r) = Some w \<and> w < n \<longrightarrow>
      (\<exists>st. end_runs X order n (replicate w MainStep @ [Thread RunTask]) (begin_end s) = Some (Val (), [], st) \<and>
         w_pending (sv_worker (en_server st) w) = w_pending (sv_worker s w) @ [FnSendPacket r (cmd_code ACK) (seq hdr)
           (ser_Response (x_codec X) (success (cc_uid (ctx_of s r)) ''PONG''))]) \<and>
      (\<exists>st. end_runs X order n (replicate (Suc w) MainStep @ [Thread RunTask]) (begin_end s) =
         Some (Crash UseAfterFree, [Thread RunTask], st))) \<and>
    (i < length (sv_streams s) \<longrightarrow>
      (\<exists>st. end_runs X order n (replicate n MainStep @ [MainStep, MainStep, Thread (StreamEnd i ok)]) (begin_end s) =
         Some (Crash UseAfterFree, [Thread (StreamEnd i ok)], st)))"
proof (intro conjI impI)
  note inv = reach_net_inv [OF assms(1)]
  assume h: "tasks (sv_pool s) = TaskBusiness r hdr body # ts \<and> cmd hdr = cmd_code HEARTBEAT \<and> cc_owner_worker (ctx_of s r) = Some w \<and> w < n"
  let ?s = "\<lambda>k. wipe k (closed_by k s) (count_by k s) s"
  let ?t = "queue_in_loop w (pong X r hdr (cc_uid (ctx_of s r))) ((?s w)\<lparr>sv_pool := (sv_pool s)\<lparr>tasks := ts\<rparr>\<rparr>)"
  have run: "end_runs X order n (replicate k MainStep @ [Thread RunTask]) (begin_end s) =
      end_runs X order n [Thread RunTask] \<lparr>en_pc = EndWorkers k, en_round = False, en_server = ?s k\<rparr>" if "k \<le> n" for k
    using that assms(3) by (intro main_steps [OF inv assms(2)]) auto
  have task: "tasks (sv_pool (?s k)) = TaskBusiness r hdr body # ts" "cc_owner_worker (ctx_of (?s k) r) = Some w" for k using h by simp_all
  have "thread_exec X n (EndWorkers w) RunTask (?s w) = (Val (), ?t)"
    using heartbeat_at_end [OF task(1) _ task(2), of n ?t X w w] h by simp
  moreover have "w_pending (sv_worker ?t w) = w_pending (sv_worker s w) @ [pong X r hdr (cc_uid (ctx_of s r))]"
    by (simp add: queue_in_loop_def)
  ultimately show "\<exists>st. end_runs X order n (replicate w MainStep @ [Thread RunTask]) (begin_end s) = Some (Val (), [], st) \<and>
         w_pending (sv_worker (en_server st) w) = w_pending (sv_worker s w) @ [FnSendPacket r (cmd_code ACK) (seq hdr)
           (ser_Response (x_codec X) (success (cc_uid (ctx_of s r)) ''PONG''))]"
    using run [of w] h by (simp add: pong_def)
  have "thread_exec X n (EndWorkers (Suc w)) RunTask (?s (Suc w)) = (Crash UseAfterFree, ?s (Suc w))"
    using heartbeat_at_end [OF task(1) _ task(2), of n _ X "Suc w" "Suc w"] h by simp
  then show "\<exists>st. end_runs X order n (replicate (Suc w) MainStep @ [Thread RunTask]) (begin_end s) =
      Some (Crash UseAfterFree, [Thread RunTask], st)"
    using run [of "Suc w"] h by simp
next
  note inv = reach_net_inv [OF assms(1)]
  assume "i < length (sv_streams s)"
  then show "\<exists>st. end_runs X order n (replicate n MainStep @ [MainStep, MainStep, Thread (StreamEnd i ok)]) (begin_end s) =
      Some (Crash UseAfterFree, [Thread (StreamEnd i ok)], st)"
    using main_steps [OF inv assms(2) order_refl assms(3), where X = X and as = "[MainStep, MainStep, Thread (StreamEnd i ok)]"]
    by (simp add: Let_def thread_exec_def manager_gone_def)
qed

section \<open>Examples\<close>

text \<open>Going through a map by rising keys.\<close>

definition by_key :: "(int \<rightharpoonup> TcpConnection) \<Rightarrow> int list" where
  "by_key m = sorted_list_of_set (dom m)"

lemma lists_keys_by_key: "lists_keys by_key"
  by (simp add: lists_keys_def by_key_def)

lemma demo_one_workers: "conns demo_one w = (if w = 0 then [5 \<mapsto> demo_conn 5 0] else Map.empty)" "w_running (sv_worker demo_one w) = []"
  by (simp_all add: demo_one_eval new_worker_def)

lemma demo_one_waiting: "(\<Union>w. set (waiting demo_one w)) = {}"
  by (auto simp: waiting_def demo_one_eval new_worker_def split: if_splits)

theorem clean_shutdown_witness:
  "\<exists>st. end_runs externals_ref by_key 2 (replicate 2 MainStep @ [MainStep, MainStep, MainStep, MainStep, MainStep]) (begin_end demo_one) =
      Some (Val (), [], st) \<and> en_pc st = EndReturn \<and> sv_conn_count (en_server st) = 0 \<and> sv_open (en_server st) = {}"
proof -
  have inv: "net_inv demo_one" by (rule reach_net_inv [OF reach_demo_one])
  have "\<exists>st. end_runs externals_ref by_key 2 (replicate 2 MainStep @ [MainStep, MainStep, MainStep, MainStep, MainStep]) (begin_end demo_one) =
      Some (Val (), [], st) \<and> en_pc st = EndReturn"
    unfolding main_steps [OF inv lists_keys_by_key order_refl demo_one_workers(2)]
    by (simp add: Let_def destroy_pool_def stop_db_def destroy_db_def demo_one_eval new_pool_def)
  then obtain st where st: "end_runs externals_ref by_key 2 (replicate 2 MainStep @ [MainStep, MainStep, MainStep, MainStep, MainStep]) (begin_end demo_one) =
      Some (Val (), [], st)" "en_pc st = EndReturn" by blast
  have idle: "tasks (sv_pool demo_one) = []" "sv_streams demo_one = []" "pending_requests (sv_ai demo_one) = []"
    by (simp_all add: demo_one_eval new_pool_def)
  have "conns demo_one w = Map.empty" if "2 \<le> w" for w using that by (simp add: demo_one_workers)
  from clean_shutdown [OF reach_demo_one this lists_keys_by_key idle _ st(1)] have
    "sv_conn_count (en_server st) = 0 \<and> sv_open (en_server st) \<subseteq> {}" by (simp add: st(2) demo_one_waiting numeral_2_eq_2)
  then show ?thesis using st by blast
qed

definition demo_busy :: "(json, unit) server" where
  "demo_busy = handle_read 0 (demo_conn 5 0) [RData ping, RAgain] demo_one"

theorem shutdown_faults_witness:
  "\<exists>st. end_runs externals_ref by_key 2 (replicate (Suc 0) MainStep @ [Thread RunTask]) (begin_end demo_busy) =
     Some (Crash UseAfterFree, [Thread RunTask], st)"
proof -
  have run: "exec externals_ref (SocketEvent 0 5 EPOLLIN [RData ping, RAgain] []) demo_one = (Val (), demo_busy)"
    "enabled (SocketEvent 0 5 EPOLLIN [RData ping, RAgain] []) demo_one"
    by (simp_all add: demo_busy_def demo_one_eval handle_events_def event_bits run_seqP run_bindP)
  have busy: "w_running (sv_worker demo_busy w) = []" "tasks (sv_pool demo_busy) = [TaskBusiness 0 ping_hdr []]"
    "cc_owner_worker (ctx_of demo_busy 0) = Some 0" for w
    by (simp_all add: demo_busy_def demo_one_eval step_defs demo_conn_def new_ClientContext_def read_ping new_pool_def demo_settings new_worker_def)
  from shutdown_faults [OF reach_step [OF reach_demo_one run(2,1)] lists_keys_by_key, of 2 0 ping_hdr "[]" "[]" 0] busy
  show ?thesis by (simp add: ping_hdr_def del: replicate.simps)
qed

end
