(* ===== verification/Spec2Isabelle.thy ===== *)
theory Spec2Isabelle
  imports Db_Durable End_To_End Client_Threads Wakeup References Shutdown
begin

text \<open>
  AuraChat, a chat server in C++ with an AI partner, and its command line client.

  \<^bold>\<open>The program.\<close> \<open>main\<close> (\<open>src/main.cpp\<close>) accepts connections and gives them in turn to workers. A worker is a thread with an
  epoll loop, a pool of client contexts, a queue of functors and heartbeat timers; it owns its connections, cuts the byte stream into
  packets and puts each packet as a task into the queue of a thread pool. A pool thread runs \<open>process_business\<close> on the
  packet: login, registration, chat, friends, search. Users who are connected are found in the session table; messages for
  the others go to the storage, which writes them in batches and hands them out at the next login. The storage is MySQL or
  a set of JSON files. Messages to user 9999 go to the AI manager, which queues them, limits the number of answers in progress and
  streams the answer of an HTTP service back as chat packets. The client (\<open>chat_client.cpp\<close>) speaks the same packets.

  \<^bold>\<open>How the code is modelled.\<close> Classes are records and enums are datatypes. A function that can throw or end the process is a program, a
  function from a state to an outcome (a value, an exception, the end of the process) and a state (\<open>Prelude\<close>); other functions are
  plain HOL functions on the state. Shared contexts are references into a heap. Texts are byte strings. The header fields, sequence
  numbers and the round robin counter are 32-bit words; counters of ids and timestamps are \<^typ>\<open>int\<close>,
  because signed overflow is undefined in C++. Everything is executable; the witnesses run the model by simplification.

  \<^bold>\<open>Theories and what they model.\<close>
  \<^item> \<open>Prelude\<close>: outcomes, programs, invariants of programs (\<open>keeps\<close>), the parts of the C++ string library that are used.
  \<^item> \<open>Incremental\<close>: the contract \<open>incremental_parser\<close> of a loop that is fed a stream in pieces; interpreted three times, for
    the packet loop of the server (\<open>Framing\<close>), the packet loop of the client (\<open>Client\<close>) and the line loop of the AI client (\<open>Llama_Client\<close>).
  \<^item> \<open>Protocol\<close>, \<open>Framing\<close>: \<open>include/protocol.h\<close>, \<open>message.proto\<close>, packets on the wire.
  \<^item> \<open>Config\<close>: \<open>include/config.h\<close>. \<open>Timers\<close>: \<open>include/timer.h\<close>, with the contract \<open>timer_queue\<close>. \<open>Thread_Pool\<close>:
    \<open>include/thread_pool.h\<close>, with \<open>bounded_fifo\<close>. \<open>Context\<close>: \<open>include/context.h\<close> and the context pool. \<open>Session\<close>:
    \<open>include/session_manager.h\<close>, with \<open>session_table\<close>.
  \<^item> \<open>Externals\<close>: the code outside the repository as parameters, with the laws that are relied on (among them that \<open>dump\<close> refuses a text exactly if it is not
    UTF-8) and instances that meet them.
  \<^item> \<open>Db_State\<close>, \<open>Db_File\<close>, \<open>Db_Mysql\<close>, \<open>Db_Writer\<close>: \<open>src/db_writer.cpp\<close>, state and persistence, the two branches of every operation,
    the operations and the writer thread. \<open>Db_Correct\<close>, \<open>Db_Refine\<close>, \<open>Db_Theorems\<close>, \<open>Db_Durable\<close>: the contract
    \<open>account_store\<close>, the abstract specification and the refinement, message queue, restart.
  \<^item> \<open>Server\<close>: \<open>src/event_loop.cpp\<close>, \<open>src/connection.cpp\<close>, \<open>src/worker.cpp\<close>. \<open>Server_Inv\<close>, \<open>Server_Close\<close>, \<open>Server_Ops\<close>,
    \<open>Server_Add\<close>: the invariant of the worker threads and that every operation keeps it.
  \<^item> \<open>Texts\<close>, \<open>Texts_Ai\<close>, \<open>Texts_Llama\<close>: literals of the source as bytes.
  \<^item> \<open>Llama_Client\<close>: \<open>include/llama_client.h\<close>. \<open>Ai_Manager\<close>: \<open>src/ai_manager.cpp\<close>. \<open>Business\<close>: \<open>src/business.cpp\<close>.
  \<^item> \<open>System\<close>: the threads together as a step relation with its reachable states. \<open>Boot\<close>: the construction in \<open>main\<close>, which yields an
    initial state. \<open>Main_Loop\<close>: one turn of the worker's loop, \<open>main\<close> up to and with its accept loop (\<open>src/acceptor.cpp\<close>), and their relation to the steps.
    \<open>Shutdown\<close>: the end of \<open>main\<close>, whose destructors take their turns with the threads of what is not yet destroyed. \<open>Demo\<close>, \<open>Demo_Pair\<close>: small servers on which witnesses are evaluated.
  \<^item> \<open>Wakeup\<close>: \<open>src/event_loop.cpp\<close> once more, at the grain of its system calls, with the eventfd and the threads that call \<open>queue_in_loop\<close> and \<open>stop\<close>; it refines
    the steps of \<open>System\<close>.
  \<^item> \<open>Connections\<close>, \<open>Input\<close>, \<open>Business_Safe\<close>, \<open>Delivery\<close>, \<open>Sessions_Live\<close>, \<open>Store_Forward\<close>, \<open>Ai_Theorems\<close>, \<open>References\<close>,
    \<open>Output\<close>: what the server guarantees.
  \<^item> \<open>Client\<close>, \<open>Client_Theorems\<close>: \<open>chat_client.cpp\<close>, with the contract \<open>client_invariant\<close> for properties that every action of the client keeps.
    \<open>Client_Threads\<close>: the client's two sending threads, with the parts of \<open>send_packet\<close> as steps that interleave.
    \<open>End_To_End\<close>: two clients and the server together.

  \<^bold>\<open>What is shown.\<close>
  \<^item> The path of a message: from the line that a user types, over the sender's packet, the worker's loop, the pool, the addressee's worker
    and socket, to the line on the addressee's screen (\<open>chat_end_to_end\<close>).
  \<^item> On the wire: whatever the cuts, both ends take off exactly the packets that the other side put on; the server's buffer is
    bounded; what the client's threads send is a numbered sequence of packets that the server accepts, as long as one does not send within a packet of the other.
  \<^item> Connections, in every reachable state: descriptors, contexts, counters, timers and epoll interest agree, no context is shared,
    every reference points to an object that exists, and packets wait with the worker that owns their context; output is bounded, and what
    a socket is given is a sequence of whole packets, untorn and in order; idle connections are closed by the heartbeat; a turn of the event loop is a sequence of
    steps of the system, up to the first event that is a use after free if there is one, so these facts hold for the loop as it is written; new connections are spread evenly.
  \<^item> Event loop: under every interleaving no wakeup is lost, every functor that is queued is run, in order, \<open>stop\<close> ends the loop, and the coarser steps of the
    server model are those of the loop.
  \<^item> Shutdown: a quiet server closes its connections and returns 0, however its threads interleave with the destructors; a busy one does not.
  \<^item> Business: every packet becomes a task, every command returns, the rate limit holds, chat messages reach the connected
    user or the storage, and a stored message is delivered at the next login, through all the components on its way.
  \<^item> Storage: file storage refines a specification with accounts, friendships and unread messages; the queue drains; a restart restores
    the state.
  \<^item> AI: the request carries the prompt as one JSON string; the texts of the service's event stream arrive whole and in order in the
    client's packets; if the service fails the built-in answer is sent; the limits of the scheduler hold.
  \<^item> Timers and pool: due timers fire in order, no timer is slept over, tasks run in order and all of them before the pool is destroyed.
  \<^item> Faults: when an event is a use after free, when an exhausted context pool ends the server, sessions that are lost or inherited by the wrong
    client, storage that does not fail over, a message that ends the writer, places of the AI manager that leak, the end of
    an answer that the client does not show, a password that it sends to the chat partner.

  \<^bold>\<open>Bounds and fuel.\<close> Functions terminate by structure or by a proved measure. \<open>check_timers\<close>, the loop over due timers, is given a
  number of rounds; the number of the worker's timers is enough, since every round removes one (\<open>idle_connections_closed\<close> needs no more than
  the number of connections). \<open>drain_pool\<close> needs one round for each task and one more to see the end. The writer takes up to 100
  messages a round; \<open>queue_drains\<close> counts the rounds. The loop's thread needs six steps, and one for each functor in front, until a functor has run or,
  after \<open>stop\<close>, until it is out of the loop. The counter of the eventfd has its bound of 64 bits. What the kernel or a peer answers is an argument: a list of results
  of \<open>read\<close>, \<open>write\<close>, \<open>recv\<close>, \<open>send\<close> or \<open>accept4\<close>, whose end means that there is nothing more.

  \<^bold>\<open>Granularity.\<close> A handler of one event, functor, task or chunk is one step; between steps the threads interleave freely. This
  is the granularity of the locks for the queues, the sessions and the file storage. Accesses without a lock, of different threads to one context
  (its user id, its rate limit counters) and to the MySQL handle, can interleave more finely in the program. In the client a line of input is one step with all that arrives while it waits, and
  the parts of \<open>send_packet\<close> are steps in \<open>Client_Threads\<close> only. The clock stands still during a step; \<open>process_stream_request\<close>, the whole
  of an answer, is for a transfer during which no other thread runs, with the steady clock of each chunk given and one date for all of its packets (as events of
  the system the chunks have each their own date).

  \<^bold>\<open>Not modelled.\<close> Log output (only whether it could be set up), the options of sockets (non-blocking, keep-alive, timeouts), the HTTP transfer (libcurl), the MySQL
  client and server, the JSON library and the classes that protoc generates (all parameters), pauses, and the client's fixed screen
  texts. A signal is the end of the list of rounds that the accept loop is given. Races below the granularity of the steps, on a context or on
  the MySQL handle, are undefined behaviour in C++ and outside the model.
\<close>

end
